(* ===== verification/Dynaxis_Prelude.thy ===== *)
theory Dynaxis_Prelude
  imports Main "HOL-Library.Word" "HOL-Library.Multiset"
begin

text \<open>
  Shared vocabulary of the development: the fixed-width integers of the C++ sources, the bit
  and byte lemmas that the codecs need, and the lemma collections the components feed.

  Fixed-width unsigned integers are words, so \<open>+\<close>, \<open>-\<close> and \<open>*\<close> wrap as they do in C++.
  \<open>std::int32_t\<close> is a 32-bit word read with \<open>sint\<close>. Container sizes (\<open>std::size_t\<close>) are
  natural numbers: they count objects in memory and do not wrap. \<open>std::string\<close> is a
  \<open>string\<close> where the code compares it with literals, and a byte list where the code moves it
  over the wire.
\<close>

unbundle bit_operations_syntax

type_synonym u8 = "8 word"
type_synonym u16 = "16 word"
type_synonym u32 = "32 word"
type_synonym u64 = "64 word"
type_synonym i32 = "32 word"
type_synonym bytes = "8 word list"

named_theorems codec_simps \<open>round-trip equations of the byte codecs\<close>
named_theorems tally_simps \<open>counters kept beside a result list\<close>

section \<open>Bits and bytes\<close>

lemma bit_255_int [simp]: "bit (255 :: int) n \<longleftrightarrow> n < 8"
proof -
  have "(255 :: int) = mask 8" by (simp add: mask_eq_exp_minus_1)
  then show ?thesis by (simp only: bit_mask_iff) simp
qed

lemma bit_u8_high [simp]: "8 \<le> n \<Longrightarrow> \<not> bit (b :: u8) n"
  by (auto dest: bit_imp_le_length)

lemma bit_u32_high [simp]: "32 \<le> n \<Longrightarrow> \<not> bit (b :: u32) n"
  by (auto dest: bit_imp_le_length)

lemma unat_less_256 [simp]: "unat (b :: u8) < 256"
  using unsigned_less [of b, where ?'a = nat] by simp

lemma unat_less_65536 [simp]: "unat (b :: u16) < 65536"
  using unsigned_less [of b, where ?'a = nat] by simp

lemma unat_less_32 [simp]: "unat (b :: u32) < 4294967296"
  using unsigned_less [of b, where ?'a = nat] by simp

lemma unat_less_64 [simp]: "unat (b :: u64) < 18446744073709551616"
  using unsigned_less [of b, where ?'a = nat] by simp

lemma unat_ucast_u8_u32 [simp]: "unat (ucast (b :: u8) :: u32) = unat b"
  by (simp add: unsigned_ucast_eq take_bit_nat_eq_self less_trans [OF unat_less_256])

lemma unat_ucast_u32_u64 [simp]: "unat (ucast (b :: u32) :: u64) = unat b"
  by (simp add: unsigned_ucast_eq take_bit_nat_eq_self less_trans [OF unat_less_32])

lemma unat_drop_bit_div: "unat (drop_bit k w) = unat w div 2 ^ k" for w :: "'a::len word"
  by (simp only: unat_drop_bit_eq drop_bit_nat_def)

lemma unat_and_mask: "unat (w AND mask k) = unat w mod 2 ^ k" for w :: "'a::len word"
  by (simp only: unsigned_take_bit_eq take_bit_nat_def flip: take_bit_eq_mask)

text \<open>Testing the high bits of a word against a constant is a test on its quotient.\<close>

lemma and_high_mask:
  fixes w c :: "'a::len word"
  assumes "take_bit (LENGTH('a) - k) c = c"
  shows "(w AND push_bit k (mask (LENGTH('a) - k)) = push_bit k c) \<longleftrightarrow> drop_bit k w = c"
proof -
  have w: "w AND push_bit k (mask (LENGTH('a) - k)) = push_bit k (drop_bit k w)"
    by (rule bit_word_eqI) (auto simp: bit_simps)
  have "drop_bit k (push_bit k c) = c"
  proof (rule bit_word_eqI)
    fix n assume "n < LENGTH('a)"
    have "bit (take_bit (LENGTH('a) - k) c) n \<longleftrightarrow> bit c n" by (simp only: assms)
    then show "bit (drop_bit k (push_bit k c)) n \<longleftrightarrow> bit c n"
      by (auto simp: bit_simps)
  qed
  moreover have "drop_bit k (push_bit k (drop_bit k w)) = drop_bit k w"
    by (rule bit_word_eqI) (auto simp: bit_simps dest: bit_imp_le_length)
  ultimately show ?thesis using w by metis
qed

text \<open>Shifting left and or-ing in small low bits is multiplication and addition.\<close>

lemma unat_shift_or:
  fixes a b :: "'a::len word"
  assumes a: "unat a * 2 ^ k < 2 ^ LENGTH('a)" and b: "unat b < 2 ^ k"
  shows "unat (push_bit k a OR b) = unat a * 2 ^ k + unat b"
proof -
  have t: "take_bit k (unat b) = unat b"
    using b by (simp add: take_bit_nat_eq_self)
  have "take_bit LENGTH('a) (push_bit k (unat a)) = push_bit k (unat a)"
    using a by (simp add: push_bit_nat_def take_bit_nat_eq_self)
  moreover have "push_bit k (unat a) AND take_bit k (unat b) = 0"
    by (rule bit_eqI) (auto simp: bit_simps)
  then have "push_bit k (unat a) OR unat b = push_bit k (unat a) + unat b"
    using disjunctive_add_eq_or [of "push_bit k (unat a)" "unat b"] t by simp
  ultimately show ?thesis
    by (simp only: unsigned_or_eq unsigned_push_bit_eq push_bit_nat_def)
qed

definition octet :: "nat \<Rightarrow> u8" where
  "octet n = word_of_nat n"

lemma unat_octet [simp]: "n < 256 \<Longrightarrow> unat (octet n) = n"
  by (simp add: octet_def unat_of_nat)

lemma octet_unat [simp]: "octet (unat b) = b"
  by (simp add: octet_def)

section \<open>Word arithmetic\<close>

lemma unat_word_of_nat_u16 [simp]: "n < 65536 \<Longrightarrow> unat (word_of_nat n :: u16) = n"
  by (simp add: unat_of_nat)

lemma unat_sub_le: "y \<le> x \<Longrightarrow> unat (x - y) = unat x - unat y" for x y :: "'a::len word"
  by (simp add: unat_sub)

lemma word_eq_unatI: "unat x = unat y \<Longrightarrow> x = y" for x y :: "'a::len word"
  by (simp add: word_unat_eq_iff)

section \<open>Lists\<close>

text \<open>
  A loop that appends one element per input and bumps one counter per class keeps each
  counter equal to the number of elements of its class.
\<close>

lemma length_filter_append [tally_simps]:
  "length (filter P (xs @ [x])) = length (filter P xs) + (if P x then 1 else 0)"
  by simp

lemma of_nat_length_filter_snoc [tally_simps]:
  "of_nat (length (filter P (xs @ [x]))) =
     (of_nat (length (filter P xs)) + (if P x then 1 else 0) :: 'a::semiring_1)"
  by simp

lemma foldl_inv:
  assumes "I a" and "\<And>a x. x \<in> set xs \<Longrightarrow> I a \<Longrightarrow> I (f a x)"
  shows "I (foldl f a xs)"
  using assms by (induction xs arbitrary: a) auto

lemma take_drop_append_exact [simp]:
  "length xs = n \<Longrightarrow> take n (xs @ ys) = xs" "length xs = n \<Longrightarrow> drop n (xs @ ys) = ys"
  by auto

section \<open>Loops that append a result and count its kind\<close>

text \<open>
  The evaluation loops of the control plane classify each input, append the classification to
  the result list and increment the 32-bit counter of its kind.
\<close>

locale tally_loop =
  fixes step :: "'o \<Rightarrow> 'x \<Rightarrow> 'o" and inv :: "'o \<Rightarrow> bool" and results :: "'o \<Rightarrow> 'y list"
    and cls :: "'x \<Rightarrow> 'y" and counter :: "'o \<Rightarrow> 'c \<Rightarrow> u32" and kind :: "'y \<Rightarrow> 'c"
  assumes step_inv: "inv out \<Longrightarrow> inv (step out x)"
    and step_results: "inv out \<Longrightarrow> results (step out x) = results out @ [cls x]"
    and step_counter: "inv out \<Longrightarrow>
          counter (step out x) c = counter out c + (if kind (cls x) = c then 1 else 0)"
begin

lemma loop_results: "inv out \<Longrightarrow> results (foldl step out xs) = results out @ map cls xs"
  by (induction xs arbitrary: out) (simp_all add: step_inv step_results)

lemma loop_counter:
  "inv out \<Longrightarrow> counter (foldl step out xs) c =
     counter out c + word_of_nat (length (filter (\<lambda>y. kind y = c) (map cls xs)))"
  by (induction xs arbitrary: out) (simp_all add: step_inv step_counter)

end

end
