(* ===== verification/Packet_Codec.thy ===== *)
theory Packet_Codec
  imports Dynaxis_Prelude
begin

text \<open>
  The wire codec of \<open>core/include/server/core/protocol/packet.hpp\<close>: big-endian integers, the
  14-byte packet header, strict UTF-8 validation and length-prefixed strings.

  A pointer into a buffer is the list of bytes from that position on; a writer returns the
  bytes it stores. Readers that check the size and advance a span return the value with the
  remaining bytes, or \<open>None\<close> where the code returns \<open>false\<close>. The locale \<open>byte_codec\<close> is the
  contract between an encoder and a checked reader that the message codecs rely on.
\<close>

section \<open>Segment classification\<close>

datatype ConnectionType = CT_kUnknown | CT_kClientEdge | CT_kBackendBridge

datatype SegmentType = ST_kUnknown | ST_kSystemControl | ST_kApplicationPayload

definition is_system_msg_id :: "u16 \<Rightarrow> bool" where
  "is_system_msg_id msg_id \<longleftrightarrow> msg_id \<ge> 0x0001 \<and> msg_id \<le> 0x000F"

definition classify_segment_type :: "u16 \<Rightarrow> SegmentType" where
  "classify_segment_type msg_id =
     (if is_system_msg_id msg_id then ST_kSystemControl else ST_kApplicationPayload)"

section \<open>Big-endian integers and the packet header\<close>

definition k_header_bytes :: nat where
  "k_header_bytes = 14"

record PacketHeader =
  ph_length :: u16
  ph_msg_id :: u16
  ph_flags :: u16
  ph_seq :: u32
  ph_utc_ts_ms32 :: u32

definition read_be16 :: "bytes \<Rightarrow> u16" where
  "read_be16 p = push_bit 8 (ucast (p ! 0)) OR ucast (p ! 1)"

definition read_be32 :: "bytes \<Rightarrow> u32" where
  "read_be32 p =
     push_bit 24 (ucast (p ! 0)) OR push_bit 16 (ucast (p ! 1)) OR
     push_bit 8 (ucast (p ! 2)) OR ucast (p ! 3)"

definition write_be16 :: "u16 \<Rightarrow> bytes" where
  "write_be16 v = [ucast (drop_bit 8 v AND 0xFF), ucast (v AND 0xFF)]"

definition write_be32 :: "u32 \<Rightarrow> bytes" where
  "write_be32 v =
     [ucast (drop_bit 24 v AND 0xFF), ucast (drop_bit 16 v AND 0xFF),
      ucast (drop_bit 8 v AND 0xFF), ucast (v AND 0xFF)]"

definition encode_header :: "PacketHeader \<Rightarrow> bytes" where
  "encode_header h =
     write_be16 (ph_length h) @ write_be16 (ph_msg_id h) @ write_be16 (ph_flags h) @
     write_be32 (ph_seq h) @ write_be32 (ph_utc_ts_ms32 h)"

definition decode_header :: "bytes \<Rightarrow> PacketHeader" where
  "decode_header in14 =
     \<lparr>ph_length = read_be16 (drop 0 in14), ph_msg_id = read_be16 (drop 2 in14),
      ph_flags = read_be16 (drop 4 in14), ph_seq = read_be32 (drop 6 in14),
      ph_utc_ts_ms32 = read_be32 (drop 10 in14)\<rparr>"

section \<open>UTF-8 validation and length-prefixed strings\<close>

text \<open>
  \<open>utf8_lead\<close> is the chain of tests on the lead byte (the number of continuation bytes, the
  initial code point bits and the smallest admissible code point), \<open>utf8_follow\<close> the inner
  loop over the continuation bytes, \<open>is_valid_utf8\<close> the outer loop on the rest of the input.
\<close>

fun utf8_lead :: "u8 \<Rightarrow> (nat \<times> u32 \<times> u32) option" where
  "utf8_lead byte0 =
     (if byte0 AND 0xE0 = 0xC0 then Some (1, ucast (byte0 AND 0x1F), 0x80)
      else if byte0 AND 0xF0 = 0xE0 then Some (2, ucast (byte0 AND 0x0F), 0x800)
      else if byte0 AND 0xF8 = 0xF0 then Some (3, ucast (byte0 AND 0x07), 0x10000)
      else None)"

fun utf8_follow :: "nat \<Rightarrow> u32 \<Rightarrow> bytes \<Rightarrow> u32 option" where
  "utf8_follow 0 codepoint s = Some codepoint"
| "utf8_follow (Suc k) codepoint [] = None"
| "utf8_follow (Suc k) codepoint (cont # s) =
     (if cont AND 0xC0 \<noteq> 0x80 then None
      else utf8_follow k (push_bit 6 codepoint OR ucast (cont AND 0x3F)) s)"

fun is_valid_utf8 :: "bytes \<Rightarrow> bool" where
  "is_valid_utf8 [] = True"
| "is_valid_utf8 (byte0 # s) =
     (if byte0 < 0x80 then is_valid_utf8 s
      else (case utf8_lead byte0 of
        None \<Rightarrow> False
      | Some (follow, codepoint, min_codepoint) \<Rightarrow>
          if length s < follow then False
          else (case utf8_follow follow codepoint s of
            None \<Rightarrow> False
          | Some cp \<Rightarrow>
              if cp < min_codepoint then False
              else if cp > 0x10FFFF then False
              else if cp \<ge> 0xD800 \<and> cp \<le> 0xDFFF then False
              else is_valid_utf8 (drop follow s))))"

definition write_lp_utf8 :: "bytes \<Rightarrow> bytes \<Rightarrow> bytes" where
  "write_lp_utf8 out str =
     (let str = (if length str > 0xFFFF then take 0xFFFF str else str);
          len = (word_of_nat (length str) :: u16)
      in out @ write_be16 len @ str)"

definition read_lp_utf8 :: "bytes \<Rightarrow> (bytes \<times> bytes) option" where
  "read_lp_utf8 inp =
     (if length inp < 2 then None
      else let len = unat (read_be16 inp)
       in if length inp < 2 + len then None
          else let payload = take len (drop 2 inp)
           in if \<not> is_valid_utf8 payload then None else Some (payload, drop (2 + len) inp))"

section \<open>The contract of a byte codec\<close>

text \<open>
  \<open>enc\<close> is what the writer appends, \<open>dec\<close> the checked reader, \<open>wf\<close> the values the writer
  represents without loss. The reader undoes the writer whatever follows, and accepts
  nothing else.
\<close>

locale byte_codec =
  fixes enc :: "'a \<Rightarrow> bytes" and dec :: "bytes \<Rightarrow> ('a \<times> bytes) option" and wf :: "'a \<Rightarrow> bool"
  assumes dec_enc: "wf x \<Longrightarrow> dec (enc x @ rest) = Some (x, rest)"
    and dec_sound: "dec bs = Some (x, rest) \<Longrightarrow> wf x \<and> bs = enc x @ rest"
begin

lemma dec_iff: "dec bs = Some (x, rest) \<longleftrightarrow> wf x \<and> bs = enc x @ rest"
  using dec_enc dec_sound by blast

lemma prefix_free:
  assumes "wf x" and "wf y" and "enc x @ r = enc y @ s"
  shows "x = y \<and> r = s"
proof -
  have "dec (enc y @ s) = Some (x, r)"
    unfolding assms(3) [symmetric] by (rule dec_enc [OF assms(1)])
  then show ?thesis by (simp add: dec_enc [OF assms(2)])
qed

lemma dec_truncated:
  assumes "wf x" and "enc x = p @ q" and "q \<noteq> []"
  shows "dec p = None"
proof (rule ccontr)
  assume "dec p \<noteq> None"
  then obtain y r where "dec p = Some (y, r)" by auto
  then have y: "wf y" "p = enc y @ r" using dec_sound by blast+
  with assms(2) have "enc x @ [] = enc y @ (r @ q)" by simp
  from prefix_free [OF assms(1) y(1) this] assms(3) show False by simp
qed

end

section \<open>Integers and headers round-trip\<close>

lemma length_write_be16 [simp]: "length (write_be16 v) = 2"
  by (simp add: write_be16_def)

lemma length_write_be32 [simp]: "length (write_be32 v) = 4"
  by (simp add: write_be32_def)

lemma read_write_be16 [codec_simps, simp]: "read_be16 (write_be16 v @ rest) = v"
  by (rule bit_word_eqI) (auto simp: read_be16_def write_be16_def bit_simps)

lemma read_write_be32 [codec_simps, simp]: "read_be32 (write_be32 v @ rest) = v"
proof (rule bit_word_eqI)
  fix n assume "n < LENGTH(32)"
  then consider "n < 8" | "8 \<le> n" "n < 16" | "16 \<le> n" "n < 24" | "24 \<le> n" "n < 32"
    by fastforce
  then show "bit (read_be32 (write_be32 v @ rest)) n = bit v n"
    by cases (auto simp: read_be32_def write_be32_def bit_simps nth_append)
qed

lemma write_read_be16: "write_be16 (read_be16 (a # b # rest)) = [a, b]"
  by (auto simp: read_be16_def write_be16_def bit_simps intro!: bit_word_eqI)

lemma write_read_be32: "write_be32 (read_be32 (a # b # c # d # rest)) = [a, b, c, d]"
  by (auto simp: read_be32_def write_be32_def bit_simps intro!: bit_word_eqI)

lemma write_read_be16_take: "2 \<le> length bs \<Longrightarrow> write_be16 (read_be16 bs) = take 2 bs"
  by (cases bs; cases "tl bs") (auto simp: write_read_be16)

lemma write_read_be32_take: "4 \<le> length bs \<Longrightarrow> write_be32 (read_be32 bs) = take 4 bs"
  by (cases bs; cases "tl bs"; cases "tl (tl bs)"; cases "tl (tl (tl bs))")
    (auto simp: write_read_be32)

lemma length_encode_header [simp]: "length (encode_header h) = k_header_bytes"
  by (simp add: encode_header_def k_header_bytes_def)

lemma decode_encode_header [codec_simps]: "decode_header (encode_header h @ rest) = h"
  by (simp add: encode_header_def decode_header_def)

lemma encode_decode_header:
  assumes "k_header_bytes \<le> length bs"
  shows "encode_header (decode_header bs) = take k_header_bytes bs"
proof -
  have t: "take 14 bs = take 2 bs @ take 2 (drop 2 bs) @ take 2 (drop 4 bs) @
      take 4 (drop 6 bs) @ take 4 (drop 10 bs)"
    using take_add [of 2 2 bs] take_add [of 4 2 bs] take_add [of 6 4 bs] take_add [of 10 4 bs]
    by simp
  show ?thesis
    using assms unfolding t k_header_bytes_def
    by (simp add: encode_header_def decode_header_def write_read_be16_take write_read_be32_take)
qed

section \<open>UTF-8: the validator accepts exactly the encodings of scalar values\<close>

text \<open>The reference: Unicode scalar values and their RFC 3629 encoding.\<close>

definition utf8_scalar :: "nat \<Rightarrow> bool" where
  "utf8_scalar cp \<longleftrightarrow> cp \<le> 0x10FFFF \<and> \<not> (0xD800 \<le> cp \<and> cp \<le> 0xDFFF)"

definition utf8_encode :: "nat \<Rightarrow> bytes" where
  "utf8_encode cp =
     map octet
      (if cp < 0x80 then [cp]
       else if cp < 0x800 then [0xC0 + cp div 64, 0x80 + cp mod 64]
       else if cp < 0x10000 then [0xE0 + cp div 4096, 0x80 + cp div 64 mod 64, 0x80 + cp mod 64]
       else [0xF0 + cp div 262144, 0x80 + cp div 4096 mod 64, 0x80 + cp div 64 mod 64, 0x80 + cp mod 64])"


declare utf8_lead.simps [simp del] is_valid_utf8.simps(2) [simp del]

lemma and_E0_C0: "(b AND 0xE0 = 0xC0) \<longleftrightarrow> unat b div 32 = 6" for b :: u8
  using and_high_mask [of 5 "6 :: u8" b]
  by (simp add: mask_eq_exp_minus_1 push_bit_eq_mult word_unat_eq_iff)
    (simp add: unat_drop_bit_div)
lemma and_F0_E0: "(b AND 0xF0 = 0xE0) \<longleftrightarrow> unat b div 16 = 14" for b :: u8
  using and_high_mask [of 4 "14 :: u8" b]
  by (simp add: mask_eq_exp_minus_1 push_bit_eq_mult word_unat_eq_iff)
    (simp add: unat_drop_bit_div)
lemma and_F8_F0: "(b AND 0xF8 = 0xF0) \<longleftrightarrow> unat b div 8 = 30" for b :: u8
  using and_high_mask [of 3 "30 :: u8" b]
  by (simp add: mask_eq_exp_minus_1 push_bit_eq_mult word_unat_eq_iff)
    (simp add: unat_drop_bit_div)
lemma and_C0_80: "(b AND 0xC0 = 0x80) \<longleftrightarrow> unat b div 64 = 2" for b :: u8
  using and_high_mask [of 6 "2 :: u8" b]
  by (simp add: mask_eq_exp_minus_1 push_bit_eq_mult word_unat_eq_iff)
    (simp add: unat_drop_bit_div)
lemma unat_and_low:
  fixes b :: u8
  shows "unat (b AND 0x3F) = unat b mod 64" and "unat (b AND 0x1F) = unat b mod 32"
    and "unat (b AND 0x0F) = unat b mod 16" and "unat (b AND 0x07) = unat b mod 8"
  using unat_and_mask [of b 6] unat_and_mask [of b 5] unat_and_mask [of b 4] unat_and_mask [of b 3]
  by (simp_all add: mask_eq_exp_minus_1)

lemma unat_follow_step:
  fixes cp :: u32 and b :: u8
  assumes "unat cp < 2 ^ 26"
  shows "unat (push_bit 6 cp OR ucast (b AND 0x3F)) = unat cp * 64 + unat b mod 64"
  using unat_shift_or [of cp 6 "ucast (b AND 0x3F)"] assms by (simp add: unat_and_low)

lemma u8_ge_80: "\<not> b < 0x80 \<longleftrightarrow> 128 \<le> unat b" for b :: u8
  by (simp add: word_less_nat_alt not_less)


lemma div_mod_offset:
  fixes x :: nat
  assumes "x < m"
  shows "(q * m + x) div m = q" and "(q * m + x) mod m = x"
  using assms by simp_all

lemma utf8_byte_arith [simp]:
  fixes x :: nat
  shows "x < 32 \<Longrightarrow> (192 + x) div 32 = 6" "x < 32 \<Longrightarrow> (192 + x) mod 32 = x"
    and "x < 16 \<Longrightarrow> (224 + x) div 16 = 14" "x < 16 \<Longrightarrow> (224 + x) mod 16 = x"
    and "x < 8 \<Longrightarrow> (240 + x) div 8 = 30" "x < 8 \<Longrightarrow> (240 + x) mod 8 = x"
    and "x < 64 \<Longrightarrow> (128 + x) div 64 = 2" "x < 64 \<Longrightarrow> (128 + x) mod 64 = x"
  using div_mod_offset [of x 32 6] div_mod_offset [of x 16 14]
    div_mod_offset [of x 8 30] div_mod_offset [of x 64 2] by simp_all

definition push6 :: "nat \<Rightarrow> u8 \<Rightarrow> nat" where
  "push6 n b = n * 64 + unat b mod 64"

lemma push6_div_mod [simp]: "push6 n b div 64 = n" "push6 n b mod 64 = unat b mod 64"
  by (simp_all add: push6_def)

lemma push6_less: "n < m \<Longrightarrow> push6 n b < m * 64"
proof -
  assume "n < m"
  moreover have "unat b mod 64 < 64" by simp
  ultimately show ?thesis unfolding push6_def by linarith
qed

lemma push6_octet [simp]: "r < 64 \<Longrightarrow> push6 n (octet (128 + r)) = n * 64 + r"
  by (simp add: push6_def)

fun follow_nat :: "nat \<Rightarrow> nat \<Rightarrow> bytes \<Rightarrow> nat option" where
  "follow_nat 0 n s = Some n"
| "follow_nat (Suc k) n [] = None"
| "follow_nat (Suc k) n (b # s) =
     (if unat b div 64 \<noteq> 2 then None else follow_nat k (push6 n b) s)"

lemma utf8_follow_nat:
  assumes "6 * k \<le> 26" "unat cp < 2 ^ (32 - 6 * k)"
  shows "map_option unat (utf8_follow k cp s) = follow_nat k (unat cp) s"
  using assms
proof (induction k cp s rule: utf8_follow.induct)
  case (3 k cp b s)
  have e: "(2::nat) ^ (32 - 6 * k) = 2 ^ (32 - 6 * Suc k) * 64"
  proof -
    have "32 - 6 * k = (32 - 6 * Suc k) + 6" using "3.prems"(1) by simp
    then show ?thesis by (simp only: power_add) simp
  qed
  have "(2::nat) ^ (32 - 6 * Suc k) \<le> 2 ^ 26" by (rule power_increasing) simp_all
  then have "unat cp < 2 ^ 26" using "3.prems"(2) by linarith
  note step = unat_follow_step [OF this, of b]
  have "unat (push_bit 6 cp OR ucast (b AND 0x3F)) < 2 ^ (32 - 6 * k)"
    using "3.prems"(2) unfolding step e by linarith
  then show ?case
    using "3.IH" "3.prems"(1) by (simp add: and_C0_80 step push6_def del: push_bit_or)
qed simp_all

definition utf8_accept :: "nat \<Rightarrow> nat option \<Rightarrow> bool" where
  "utf8_accept m r = (case r of None \<Rightarrow> False | Some cp \<Rightarrow> m \<le> cp \<and> utf8_scalar cp)"

lemma is_valid_utf8_multi:
  assumes "128 \<le> unat a" "utf8_lead a = Some (k, cp, m)" "6 * k \<le> 26" "unat cp < 2 ^ (32 - 6 * k)"
  shows "is_valid_utf8 (a # s) \<longleftrightarrow>
    k \<le> length s \<and> utf8_accept (unat m) (follow_nat k (unat cp) s) \<and> is_valid_utf8 (drop k s)"
proof -
  have "\<not> a < 0x80" using assms(1) by (simp add: u8_ge_80)
  then show ?thesis
    unfolding utf8_follow_nat [OF assms(3,4), symmetric]
    using assms(2)
    by (auto simp: is_valid_utf8.simps(2) utf8_accept_def utf8_scalar_def not_less
        word_less_nat_alt word_le_nat_alt split: option.splits)
qed

lemma is_valid_utf8_1: "unat b < 128 \<Longrightarrow> is_valid_utf8 (b # s) = is_valid_utf8 s"
  by (simp add: is_valid_utf8.simps word_less_nat_alt)

lemma is_valid_utf8_2:
  assumes "unat a div 32 = 6"
  shows "is_valid_utf8 (a # s) \<longleftrightarrow>
    1 \<le> length s \<and> utf8_accept 0x80 (follow_nat 1 (unat a mod 32) s) \<and> is_valid_utf8 (drop 1 s)"
proof -
  have "utf8_lead a = Some (1, ucast (a AND 0x1F), 0x80)" and "128 \<le> unat a"
    using assms by (auto simp: utf8_lead.simps and_E0_C0)
  from is_valid_utf8_multi [OF this(2,1), of s] show ?thesis
    by (simp add: unat_and_low)
qed

lemma is_valid_utf8_3:
  assumes "unat a div 16 = 14"
  shows "is_valid_utf8 (a # s) \<longleftrightarrow>
    2 \<le> length s \<and> utf8_accept 0x800 (follow_nat 2 (unat a mod 16) s) \<and> is_valid_utf8 (drop 2 s)"
proof -
  have "unat a div 32 \<noteq> 6" and "128 \<le> unat a" using assms by auto
  moreover from this have "utf8_lead a = Some (2, ucast (a AND 0x0F), 0x800)"
    using assms by (auto simp: utf8_lead.simps and_E0_C0 and_F0_E0)
  ultimately show ?thesis
    using is_valid_utf8_multi [of a 2 "ucast (a AND 0x0F)" "0x800" s] by (simp add: unat_and_low)
qed

lemma is_valid_utf8_4:
  assumes "unat a div 8 = 30"
  shows "is_valid_utf8 (a # s) \<longleftrightarrow>
    3 \<le> length s \<and> utf8_accept 0x10000 (follow_nat 3 (unat a mod 8) s) \<and> is_valid_utf8 (drop 3 s)"
proof -
  have "unat a div 32 \<noteq> 6" "unat a div 16 \<noteq> 14" and "128 \<le> unat a" using assms by auto
  moreover from this have "utf8_lead a = Some (3, ucast (a AND 0x07), 0x10000)"
    using assms by (auto simp: utf8_lead.simps and_E0_C0 and_F0_E0 and_F8_F0)
  ultimately show ?thesis
    using is_valid_utf8_multi [of a 3 "ucast (a AND 0x07)" "0x10000" s] by (simp add: unat_and_low)
qed

lemma is_valid_utf8_other:
  assumes "128 \<le> unat a" "unat a div 32 \<noteq> 6" "unat a div 16 \<noteq> 14" "unat a div 8 \<noteq> 30"
  shows "\<not> is_valid_utf8 (a # s)"
  using assms by (simp add: is_valid_utf8.simps(2) utf8_lead.simps and_E0_C0 and_F0_E0 and_F8_F0 word_less_nat_alt)


lemma div_4096: "n div 4096 = n div 64 div 64" and div_262144: "n div 262144 = n div 64 div 64 div 64"
  for n :: nat
  using div_mult2_eq [of n 64 64] div_mult2_eq [of n 4096 64] by simp_all

lemma split_div_mod:
  fixes n :: nat
  shows "n div 32 = 6 \<Longrightarrow> 192 + n mod 32 = n" "n div 16 = 14 \<Longrightarrow> 224 + n mod 16 = n"
    and "n div 8 = 30 \<Longrightarrow> 240 + n mod 8 = n" "n div 64 = 2 \<Longrightarrow> 128 + n mod 64 = n"
  using div_mult_mod_eq [of n 32] div_mult_mod_eq [of n 16]
    div_mult_mod_eq [of n 8] div_mult_mod_eq [of n 64] by simp_all

lemma is_valid_utf8_encode:
  assumes "utf8_scalar cp"
  shows "is_valid_utf8 (utf8_encode cp @ s) \<longleftrightarrow> is_valid_utf8 s"
proof -
  from assms have cp: "cp \<le> 1114111" by (simp add: utf8_scalar_def)
  consider "cp < 0x80" | "0x80 \<le> cp" "cp < 0x800" | "0x800 \<le> cp" "cp < 0x10000" | "0x10000 \<le> cp"
    by linarith
  then show ?thesis
  proof cases
    case 1 then show ?thesis by (simp add: utf8_encode_def is_valid_utf8_1)
  next
    case 2
    then have "cp div 64 < 32" by linarith
    with 2 assms show ?thesis
      by (simp add: utf8_encode_def is_valid_utf8_2 utf8_accept_def)
  next
    case 3
    then have "cp div 4096 < 16" by linarith
    with 3 assms show ?thesis
      by (simp add: utf8_encode_def is_valid_utf8_3 utf8_accept_def numeral_2_eq_2 div_4096)
  next
    case 4
    with cp have "cp div 262144 < 8" by linarith
    with 4 assms show ?thesis
      by (simp add: utf8_encode_def is_valid_utf8_4 utf8_accept_def numeral_3_eq_3 div_4096 div_262144)
  qed
qed

text \<open>Conversely a valid non-empty input starts with the encoding of a scalar value.\<close>

lemma is_valid_utf8_decode_2:
  assumes "is_valid_utf8 (a # s)" and "unat a div 32 = 6"
  shows "\<exists>cp t. utf8_scalar cp \<and> a # s = utf8_encode cp @ t \<and> is_valid_utf8 t"
proof -
  from assms obtain b t where s: "s = b # t" "unat b div 64 = 2"
    and acc: "utf8_accept 0x80 (Some (push6 (unat a mod 32) b))" and t: "is_valid_utf8 t"
    by (cases s) (auto simp: is_valid_utf8_2 utf8_accept_def split: if_splits)
  let ?cp = "push6 (unat a mod 32) b"
  have "192 + ?cp div 64 = unat a" "128 + ?cp mod 64 = unat b"
    using assms(2) s(2) by (simp_all add: split_div_mod)
  moreover have "?cp < 0x800" using push6_less [of "unat a mod 32" 32 b] by simp
  ultimately have "a # s = utf8_encode ?cp @ t"
    using acc by (simp add: utf8_encode_def s utf8_accept_def)
  with acc t show ?thesis by (auto simp: utf8_accept_def)
qed

lemma is_valid_utf8_decode_3:
  assumes "is_valid_utf8 (a # s)" and "unat a div 16 = 14"
  shows "\<exists>cp t. utf8_scalar cp \<and> a # s = utf8_encode cp @ t \<and> is_valid_utf8 t"
proof -
  from assms obtain b c t where s: "s = b # c # t" "unat b div 64 = 2" "unat c div 64 = 2"
    and acc: "utf8_accept 0x800 (Some (push6 (push6 (unat a mod 16) b) c))"
    and t: "is_valid_utf8 t"
    by (cases s; cases "tl s")
      (auto simp: is_valid_utf8_3 utf8_accept_def numeral_2_eq_2 split: if_splits)
  let ?cp = "push6 (push6 (unat a mod 16) b) c"
  have "224 + ?cp div 4096 = unat a" "128 + ?cp div 64 mod 64 = unat b" "128 + ?cp mod 64 = unat c"
    using assms(2) s(2,3) by (simp_all add: split_div_mod div_4096)
  moreover have "?cp < 0x10000"
    using push6_less [OF push6_less [of "unat a mod 16" 16 b], of c] by simp
  ultimately have "a # s = utf8_encode ?cp @ t"
    using acc by (simp add: utf8_encode_def s utf8_accept_def)
  with acc t show ?thesis by (auto simp: utf8_accept_def)
qed

lemma is_valid_utf8_decode_4:
  assumes "is_valid_utf8 (a # s)" and "unat a div 8 = 30"
  shows "\<exists>cp t. utf8_scalar cp \<and> a # s = utf8_encode cp @ t \<and> is_valid_utf8 t"
proof -
  from assms obtain b c d t where s: "s = b # c # d # t"
      "unat b div 64 = 2" "unat c div 64 = 2" "unat d div 64 = 2"
    and acc: "utf8_accept 0x10000 (Some (push6 (push6 (push6 (unat a mod 8) b) c) d))"
    and t: "is_valid_utf8 t"
    by (cases s; cases "tl s"; cases "tl (tl s)")
      (auto simp: is_valid_utf8_4 utf8_accept_def numeral_3_eq_3 split: if_splits)
  let ?cp = "push6 (push6 (push6 (unat a mod 8) b) c) d"
  have "240 + ?cp div 262144 = unat a" "128 + ?cp div 4096 mod 64 = unat b"
    "128 + ?cp div 64 mod 64 = unat c" "128 + ?cp mod 64 = unat d"
    using assms(2) s(2,3,4) by (simp_all add: split_div_mod div_4096 div_262144)
  then have "a # s = utf8_encode ?cp @ t"
    using acc by (simp add: utf8_encode_def s utf8_accept_def)
  with acc t show ?thesis by (auto simp: utf8_accept_def)
qed

lemma is_valid_utf8_decode:
  assumes "is_valid_utf8 (a # s)"
  shows "\<exists>cp t. utf8_scalar cp \<and> a # s = utf8_encode cp @ t \<and> is_valid_utf8 t"
proof -
  consider "unat a < 128" | "unat a div 32 = 6" | "unat a div 16 = 14" | "unat a div 8 = 30"
    using assms is_valid_utf8_other [of a s] not_less [of "unat a" 128] by blast
  then show ?thesis
  proof cases
    case 1
    then have "utf8_scalar (unat a)" "a # s = utf8_encode (unat a) @ s"
      by (simp_all add: utf8_scalar_def utf8_encode_def)
    moreover have "is_valid_utf8 s" using assms 1 by (simp add: is_valid_utf8_1)
    ultimately show ?thesis by blast
  qed (use assms is_valid_utf8_decode_2 is_valid_utf8_decode_3 is_valid_utf8_decode_4 in blast)+
qed

lemma utf8_encode_nonempty: "utf8_encode cp \<noteq> []"
  by (simp add: utf8_encode_def)

text \<open>C1. Strict validation. A byte string passes \<open>is_valid_utf8\<close> exactly when it is the
  concatenation of the RFC 3629 encodings of Unicode scalar values: no overlong form, no
  surrogate, nothing above U+10FFFF, no truncated sequence is accepted, and every
  well-formed string is.
\<close>

theorem is_valid_utf8_iff_encoding:
  "is_valid_utf8 bs \<longleftrightarrow> (\<exists>cps. list_all utf8_scalar cps \<and> bs = concat (map utf8_encode cps))"
proof
  assume "is_valid_utf8 bs"
  then show "\<exists>cps. list_all utf8_scalar cps \<and> bs = concat (map utf8_encode cps)"
  proof (induction bs rule: measure_induct_rule [of length])
    case (less bs)
    show ?case
    proof (cases bs)
      case Nil
      then show ?thesis by (auto intro: exI [of _ "[]"])
    next
      case (Cons a s)
      with less.prems obtain cp t where c: "utf8_scalar cp" "bs = utf8_encode cp @ t" "is_valid_utf8 t"
        using is_valid_utf8_decode by blast
      moreover have "length t < length bs" using c(2) utf8_encode_nonempty [of cp] by simp
      ultimately obtain cps where "list_all utf8_scalar cps" "t = concat (map utf8_encode cps)"
        using less.IH by blast
      with c show ?thesis by (auto intro!: exI [of _ "cp # cps"])
    qed
  qed
next
  assume "\<exists>cps. list_all utf8_scalar cps \<and> bs = concat (map utf8_encode cps)"
  then obtain cps where "list_all utf8_scalar cps" "bs = concat (map utf8_encode cps)" by blast
  then show "is_valid_utf8 bs"
    by (induction cps arbitrary: bs) (auto simp: is_valid_utf8_encode)
qed

section \<open>Length-prefixed strings are a byte codec\<close>

definition lp_wf :: "bytes \<Rightarrow> bool" where
  "lp_wf str \<longleftrightarrow> length str \<le> 0xFFFF \<and> is_valid_utf8 str"

lemma write_lp_utf8_append: "write_lp_utf8 out str = out @ write_lp_utf8 [] str"
  by (simp add: write_lp_utf8_def Let_def)

lemma write_lp_utf8_short:
  "length str \<le> 0xFFFF \<Longrightarrow> write_lp_utf8 [] str = write_be16 (word_of_nat (length str)) @ str"
  by (simp add: write_lp_utf8_def)

interpretation lp: byte_codec "write_lp_utf8 []" read_lp_utf8 lp_wf
proof (unfold_locales, goal_cases)
  case (1 x rest)
  then have "length x \<le> 65535" "is_valid_utf8 x" by (simp_all add: lp_wf_def)
  then show ?case
    by (simp add: read_lp_utf8_def write_lp_utf8_short Let_def)
next
  case (2 bs x rest)
  let ?len = "unat (read_be16 bs)"
  from 2 have sz: "2 + ?len \<le> length bs" and x: "x = take ?len (drop 2 bs)" "is_valid_utf8 x"
    and rest: "rest = drop (2 + ?len) bs"
    by (auto simp: read_lp_utf8_def Let_def split: if_splits)
  have len: "length x = ?len" using sz x(1) by simp
  then have "length x \<le> 0xFFFF" using unat_less_65536 [of "read_be16 bs"] by linarith
  moreover have "bs = take 2 bs @ x @ rest"
    unfolding x(1) rest by (metis append_take_drop_id drop_drop add.commute)
  ultimately show ?case
    using x(2) sz len by (simp add: lp_wf_def write_lp_utf8_short write_read_be16_take)
qed

text \<open>C2. Length-prefixed strings. For a string of at most 65535 bytes of valid UTF-8,
  \<open>read_lp_utf8\<close> reads back what \<open>write_lp_utf8\<close> appended and leaves the bytes that follow;
  conversely the reader succeeds only on such an encoding, so it never accepts invalid
  UTF-8 or a length beyond the input.
\<close>

theorem lp_utf8_roundtrip:
  "read_lp_utf8 bs = Some (str, rest) \<longleftrightarrow>
     length str \<le> 0xFFFF \<and> is_valid_utf8 str \<and> bs = write_lp_utf8 [] str @ rest"
  using lp.dec_iff by (auto simp: lp_wf_def)

text \<open>Packet header. Decoding the 14 bytes written by \<open>encode_header\<close> gives back the header
  whatever follows it in the buffer, and re-encoding a decoded header gives back the first
  14 bytes, so the header codec is a bijection between headers and 14-byte strings.
\<close>

theorem packet_header_bijection:
  "decode_header (encode_header h @ rest) = h \<and>
   (\<forall>bs. length bs = k_header_bytes \<longrightarrow> encode_header (decode_header bs) = bs)"
  by (simp add: decode_encode_header encode_decode_header)

theorem packet_header_bijection_witness:
  "encode_header (decode_header (replicate 14 (7 :: u8))) = replicate 14 7"
  using packet_header_bijection [of "decode_header []" "[]"]
  by (simp add: k_header_bytes_def)

end
