(* ===== verification/Rudp_Packet.thy ===== *)
theory Rudp_Packet
  imports Packet_Codec
begin

text \<open>
  The RUDP outer packet of \<open>core/include/server/core/net/rudp/rudp_packet.hpp\<close>: a 34-byte
  big-endian header followed by the payload. The packet type stays a raw byte, as the code
  casts the wire byte to \<open>PacketType\<close> without checking it.
\<close>

definition kRudpMagic :: u16 where
  "kRudpMagic = 0x5255"

definition kRudpHeaderBytes :: nat where
  "kRudpHeaderBytes = 34"

text \<open>\<open>PacketType\<close>: the five named values of the byte.\<close>

definition kHello :: u8 where "kHello = 1"
definition kHelloAck :: u8 where "kHelloAck = 2"
definition kData :: u8 where "kData = 3"
definition kPing :: u8 where "kPing = 4"
definition kClose :: u8 where "kClose = 5"

definition kFlagAckOnly :: u8 where "kFlagAckOnly = push_bit 0 1"
definition kFlagRetransmit :: u8 where "kFlagRetransmit = push_bit 1 1"

record RudpHeader =
  rh_magic :: u16
  rh_version :: u8
  rh_type :: u8
  rh_connection_id :: u32
  rh_packet_number :: u32
  rh_ack_largest :: u32
  rh_ack_mask :: u64
  rh_ack_delay_ms :: u16
  rh_channel :: u8
  rh_flags :: u8
  rh_timestamp_ms :: u32
  rh_payload_length :: u16

definition default_rudp_header :: RudpHeader where
  "default_rudp_header =
     \<lparr>rh_magic = kRudpMagic, rh_version = 1, rh_type = kData, rh_connection_id = 0,
      rh_packet_number = 0, rh_ack_largest = 0, rh_ack_mask = 0, rh_ack_delay_ms = 0,
      rh_channel = 0, rh_flags = 0, rh_timestamp_ms = 0, rh_payload_length = 0\<rparr>"

definition rudp_encode_header :: "RudpHeader \<Rightarrow> bytes" where
  "rudp_encode_header header =
     write_be16 (rh_magic header) @
     [rh_version header] @
     [rh_type header] @
     write_be32 (rh_connection_id header) @
     write_be32 (rh_packet_number header) @
     write_be32 (rh_ack_largest header) @
     write_be32 (ucast (drop_bit 32 (rh_ack_mask header) AND 0xFFFFFFFF)) @
     write_be32 (ucast (rh_ack_mask header AND 0xFFFFFFFF)) @
     write_be16 (rh_ack_delay_ms header) @
     [rh_channel header] @
     [rh_flags header] @
     write_be32 (rh_timestamp_ms header) @
     write_be16 (rh_payload_length header)"

text \<open>
  \<open>decode_packet\<close> reads the header fields at their offsets and checks the payload length
  against the datagram; \<open>None\<close> is \<open>DecodeResult\<close> with \<open>ok\<close> false.
\<close>

definition rudp_read_header :: "bytes \<Rightarrow> RudpHeader" where
  "rudp_read_header datagram =
     (let ack_hi = (ucast (read_be32 (drop 16 datagram)) :: u64);
          ack_lo = (ucast (read_be32 (drop 20 datagram)) :: u64)
      in \<lparr>rh_magic = read_be16 (drop 0 datagram), rh_version = datagram ! 2,
          rh_type = datagram ! 3, rh_connection_id = read_be32 (drop 4 datagram),
          rh_packet_number = read_be32 (drop 8 datagram),
          rh_ack_largest = read_be32 (drop 12 datagram),
          rh_ack_mask = push_bit 32 ack_hi OR ack_lo,
          rh_ack_delay_ms = read_be16 (drop 24 datagram), rh_channel = datagram ! 26,
          rh_flags = datagram ! 27, rh_timestamp_ms = read_be32 (drop 28 datagram),
          rh_payload_length = read_be16 (drop 32 datagram)\<rparr>)"

definition decode_packet :: "bytes \<Rightarrow> (RudpHeader \<times> bytes) option" where
  "decode_packet datagram =
     (if length datagram < kRudpHeaderBytes then None
      else
        let header = rudp_read_header datagram
        in if length datagram \<noteq> kRudpHeaderBytes + unat (rh_payload_length header) then None
           else Some (header,
             take (unat (rh_payload_length header)) (drop kRudpHeaderBytes datagram)))"

definition encode_packet :: "RudpHeader \<Rightarrow> bytes \<Rightarrow> bytes" where
  "encode_packet header payload =
     rudp_encode_header (header\<lparr>rh_payload_length := word_of_nat (length payload)\<rparr>) @ payload"

definition looks_like_rudp :: "bytes \<Rightarrow> bool" where
  "looks_like_rudp datagram \<longleftrightarrow> length datagram \<ge> 2 \<and> read_be16 datagram = kRudpMagic"

section \<open>Layout\<close>

lemma bit_FFFFFFFF_int [simp]: "bit (0xFFFFFFFF :: int) n \<longleftrightarrow> n < 32"
proof -
  have "(0xFFFFFFFF :: int) = mask 32" by (simp add: mask_eq_exp_minus_1)
  then show ?thesis by (simp only: bit_mask_iff) simp
qed

lemma ack_mask_split:
  "push_bit 32 (ucast (ucast (drop_bit 32 m AND 0xFFFFFFFF) :: u32)) OR
     ucast (ucast (m AND 0xFFFFFFFF) :: u32) = m" for m :: u64
proof (rule bit_word_eqI)
  fix n assume "n < LENGTH(64)"
  then show "bit (push_bit 32 (ucast (ucast (drop_bit 32 m AND 0xFFFFFFFF) :: u32)) OR
     ucast (ucast (m AND 0xFFFFFFFF) :: u32) :: u64) n = bit m n"
    by (cases "n < 32") (auto simp: bit_simps)
qed

lemma ack_mask_join:
  fixes hi lo :: u32
  defines "m \<equiv> push_bit 32 (ucast hi :: u64) OR ucast lo"
  shows "ucast (drop_bit 32 m AND 0xFFFFFFFF) = hi" and "ucast (m AND 0xFFFFFFFF) = lo"
  by (auto simp: m_def bit_simps intro!: bit_word_eqI dest: bit_imp_le_length)

lemma length_rudp_encode_header [simp]: "length (rudp_encode_header h) = kRudpHeaderBytes"
  by (simp add: rudp_encode_header_def kRudpHeaderBytes_def)

lemma length_encode_packet [simp]: "length (encode_packet h p) = kRudpHeaderBytes + length p"
  by (simp add: encode_packet_def)

lemma payload_length_word:
  "length p \<le> 0xFFFF \<Longrightarrow> unat (word_of_nat (length p) :: u16) = length p"
  by simp

lemma rudp_read_encode_header: "rudp_read_header (rudp_encode_header h @ rest) = h"
  by (simp add: rudp_read_header_def rudp_encode_header_def nth_append ack_mask_split)

lemma decode_encode_packet [codec_simps]:
  assumes "length p \<le> 0xFFFF"
  shows "decode_packet (encode_packet h p) =
    Some (h\<lparr>rh_payload_length := word_of_nat (length p)\<rparr>, p)"
  using assms by (simp add: decode_packet_def encode_packet_def rudp_read_encode_header)

lemma decode_packet_SomeD:
  assumes "decode_packet datagram = Some (h, p)"
  shows "h = rudp_read_header datagram" and "p = drop kRudpHeaderBytes datagram"
    and "kRudpHeaderBytes \<le> length datagram" and "length p = unat (rh_payload_length h)"
  using assms by (auto simp: decode_packet_def Let_def split: if_splits)

lemma encode_packet_magic:
  "looks_like_rudp (encode_packet h p) \<longleftrightarrow> rh_magic h = kRudpMagic"
  by (simp add: looks_like_rudp_def encode_packet_def rudp_encode_header_def)

text \<open>Cutting a 34-byte prefix at the field offsets.\<close>

lemma take_34_fields:
  assumes "34 \<le> length bs"
  shows "take 34 bs =
    take 2 bs @ [bs ! 2] @ [bs ! 3] @ take 4 (drop 4 bs) @ take 4 (drop 8 bs) @
    take 4 (drop 12 bs) @ take 4 (drop 16 bs) @ take 4 (drop 20 bs) @ take 2 (drop 24 bs) @
    [bs ! 26] @ [bs ! 27] @ take 4 (drop 28 bs) @ take 2 (drop 32 bs)"
proof -
  have one: "take 1 (drop n bs) = [bs ! n]" if "n < 34" for n
    using that assms by (simp add: take_Suc_conv_app_nth hd_drop_conv_nth take_Suc)
  show ?thesis
    using take_add [of 2 1 bs] take_add [of 3 1 bs] take_add [of 4 4 bs] take_add [of 8 4 bs]
      take_add [of 12 4 bs] take_add [of 16 4 bs] take_add [of 20 4 bs] take_add [of 24 2 bs]
      take_add [of 26 1 bs] take_add [of 27 1 bs] take_add [of 28 4 bs] take_add [of 32 2 bs]
      one [of 2] one [of 3] one [of 26] one [of 27]
    by simp
qed

lemma rudp_encode_read_header:
  "kRudpHeaderBytes \<le> length bs \<Longrightarrow> rudp_encode_header (rudp_read_header bs) = take kRudpHeaderBytes bs"
  by (simp add: kRudpHeaderBytes_def take_34_fields rudp_encode_header_def rudp_read_header_def
      Let_def write_read_be16_take write_read_be32_take ack_mask_join del: drop_bit_or)

lemma encode_decode_packet:
  assumes "decode_packet datagram = Some (h, p)"
  shows "encode_packet h p = datagram"
proof -
  note d = decode_packet_SomeD [OF assms]
  have "h\<lparr>rh_payload_length := word_of_nat (length p)\<rparr> = h" by (simp add: d(4))
  then show ?thesis
    using d(1,2,3) by (simp add: encode_packet_def rudp_encode_read_header)
qed

text \<open>C3. RUDP packet round trip. A packet built by \<open>encode_packet\<close> from a payload of at most
  65535 bytes decodes to the same header, with the payload length filled in, and the same
  payload; and every datagram that \<open>decode_packet\<close> accepts is exactly the encoding of what
  it returns, so no byte of an accepted datagram is ignored or invented.
\<close>

theorem rudp_packet_roundtrip:
  "(length p \<le> 0xFFFF \<longrightarrow>
      decode_packet (encode_packet h p) = Some (h\<lparr>rh_payload_length := word_of_nat (length p)\<rparr>, p)) \<and>
   (decode_packet datagram = Some (h', p') \<longrightarrow> encode_packet h' p' = datagram)"
  by (simp add: decode_encode_packet encode_decode_packet)

theorem rudp_packet_roundtrip_witness:
  "decode_packet (encode_packet default_rudp_header [1, 2, 3]) =
     Some (default_rudp_header\<lparr>rh_payload_length := 3\<rparr>, [1, 2, 3])"
  using rudp_packet_roundtrip [of "[1, 2, 3]" default_rudp_header] by simp

end
