(* ===== verification/Ack_Window.thy ===== *)
theory Ack_Window
  imports Dynaxis_Prelude
begin

text \<open>
  The receive window of \<open>core/include/server/core/net/rudp/ack_window.hpp\<close> and
  \<open>core/src/net/rudp/ack_window.cpp\<close>: the largest packet number seen and a 64-bit mask of
  the packet numbers just below it.

  The locale \<open>receive_window\<close> is what a receiver relies on: a window that answers "accepted"
  or not and represents a set of accepted packet numbers. Its client lemma is at-most-once
  acceptance over any sequence of packets; the interpretation discharges the laws for
  \<open>observe\<close>.
\<close>

section \<open>The window\<close>

record AckObservation =
  ao_accepted :: bool
  ao_duplicate :: bool
  ao_reordered :: bool
  ao_estimated_lost_packets :: u64
  ao_ack_largest :: u32
  ao_ack_mask :: u64

record AckWindow =
  aw_initialized :: bool
  aw_largest :: u32
  aw_mask :: u64

definition new_ack_window :: AckWindow where
  "new_ack_window = \<lparr>aw_initialized = False, aw_largest = 0, aw_mask = 0\<rparr>"

definition ack_window_reset :: "AckWindow \<Rightarrow> AckWindow" where
  "ack_window_reset w = w\<lparr>aw_initialized := False, aw_largest := 0, aw_mask := 0\<rparr>"

definition observe :: "AckWindow \<Rightarrow> u32 \<Rightarrow> AckWindow \<times> AckObservation" where
  "observe w packet_number =
     (if \<not> aw_initialized w then
        (\<lparr>aw_initialized = True, aw_largest = packet_number, aw_mask = 1\<rparr>,
         \<lparr>ao_accepted = True, ao_duplicate = False, ao_reordered = False,
          ao_estimated_lost_packets = 0, ao_ack_largest = packet_number, ao_ack_mask = 1\<rparr>)
      else if packet_number > aw_largest w then
        let delta = packet_number - aw_largest w;
            lost = (if delta > 1 then ucast (delta - 1) else 0);
            mask = (if delta \<ge> 64 then 1 else push_bit (unat delta) (aw_mask w) OR 1)
        in (w\<lparr>aw_largest := packet_number, aw_mask := mask\<rparr>,
            \<lparr>ao_accepted = True, ao_duplicate = False, ao_reordered = False,
             ao_estimated_lost_packets = lost, ao_ack_largest = packet_number, ao_ack_mask = mask\<rparr>)
      else
        let distance = aw_largest w - packet_number
        in if distance \<ge> 64 then
             (w, \<lparr>ao_accepted = False, ao_duplicate = True, ao_reordered = False,
                  ao_estimated_lost_packets = 0, ao_ack_largest = aw_largest w,
                  ao_ack_mask = aw_mask w\<rparr>)
           else
             let bt = push_bit (unat distance) (1 :: u64)
             in if aw_mask w AND bt \<noteq> 0 then
                  (w, \<lparr>ao_accepted = False, ao_duplicate = True, ao_reordered = False,
                       ao_estimated_lost_packets = 0, ao_ack_largest = aw_largest w,
                       ao_ack_mask = aw_mask w\<rparr>)
                else
                  (w\<lparr>aw_mask := aw_mask w OR bt\<rparr>,
                   \<lparr>ao_accepted = True, ao_duplicate = False, ao_reordered = True,
                    ao_estimated_lost_packets = 0, ao_ack_largest = aw_largest w,
                    ao_ack_mask = aw_mask w OR bt\<rparr>))"

section \<open>The interface of a receive window\<close>

fun accepted_run :: "('w \<Rightarrow> 'p \<Rightarrow> 'w \<times> bool) \<Rightarrow> 'w \<Rightarrow> 'p list \<Rightarrow> 'p list" where
  "accepted_run obs w [] = []"
| "accepted_run obs w (p # ps) =
     (case obs w p of (w', acc) \<Rightarrow>
        if acc then p # accepted_run obs w' ps else accepted_run obs w' ps)"

locale receive_window =
  fixes init :: 'w and obs :: "'w \<Rightarrow> 'p \<Rightarrow> 'w \<times> bool" and rep :: "'w \<Rightarrow> 'p set \<Rightarrow> bool"
  assumes rep_init: "rep init {}"
    and rep_accept: "rep w R \<Longrightarrow> obs w p = (w', True) \<Longrightarrow> p \<notin> R \<and> rep w' (insert p R)"
    and rep_reject: "rep w R \<Longrightarrow> obs w p = (w', False) \<Longrightarrow> rep w' R"
begin

lemma accepted_run_fresh:
  "rep w R \<Longrightarrow> distinct (accepted_run obs w ps) \<and> set (accepted_run obs w ps) \<inter> R = {}"
proof (induction ps arbitrary: w R)
  case Nil
  then show ?case by simp
next
  case (Cons p ps)
  obtain w' acc where o: "obs w p = (w', acc)" by fastforce
  show ?case
  proof (cases acc)
    case True
    with Cons.prems o have "p \<notin> R \<and> rep w' (insert p R)"
      using rep_accept [of w R p w'] by simp
    with Cons.IH [of w' "insert p R"] True o show ?thesis by auto
  next
    case False
    with Cons.prems o have "rep w' R" using rep_reject [of w R p w'] by simp
    with Cons.IH [of w' R] False o show ?thesis by auto
  qed
qed

lemma accepted_once: "distinct (accepted_run obs init ps)"
  using accepted_run_fresh [OF rep_init] by blast

end

section \<open>The window represents the set of accepted packet numbers\<close>

text \<open>
  \<open>window_rep w R\<close>: \<open>R\<close> is a set of packet numbers whose largest element is the window's,
  and bit \<open>d\<close> of the mask tells exactly whether the number \<open>d\<close> below the largest is in \<open>R\<close>.
\<close>

definition window_rep :: "AckWindow \<Rightarrow> nat set \<Rightarrow> bool" where
  "window_rep w R \<longleftrightarrow>
     (if aw_initialized w then
        unat (aw_largest w) \<in> R \<and> (\<forall>n\<in>R. n \<le> unat (aw_largest w)) \<and>
        (\<forall>d<64. bit (aw_mask w) d \<longleftrightarrow> d \<le> unat (aw_largest w) \<and> unat (aw_largest w) - d \<in> R)
      else R = {})"

lemma bit_mask_or: "bit (m OR push_bit n 1) d \<longleftrightarrow> bit m d \<or> d = n" if "d < 64" for m :: u64
  using that by (auto simp: bit_simps)

lemma bit_shift_in:
  "bit (push_bit n m OR 1) d \<longleftrightarrow> d = 0 \<or> n \<le> d \<and> bit m (d - n)" if "d < 64" for m :: u64
  using that by (auto simp: bit_simps)

text \<open>The three ways a packet is accepted: the first one, a newer one, a gap filled.\<close>

lemma window_rep_first:
  "window_rep \<lparr>aw_initialized = True, aw_largest = p, aw_mask = 1\<rparr> {unat p}"
  by (auto simp: window_rep_def bit_simps)

lemma window_rep_newer:
  assumes rep: "window_rep w R" and init: "aw_initialized w" and p: "aw_largest w < p"
    and mask: "m = (if p - aw_largest w \<ge> 64 then 1
                    else push_bit (unat (p - aw_largest w)) (aw_mask w) OR 1)"
  shows "window_rep (w\<lparr>aw_largest := p, aw_mask := m\<rparr>) (insert (unat p) R)"
proof -
  let ?L = "unat (aw_largest w)" and ?P = "unat p"
  have lt: "?L < ?P" using p by (simp add: word_less_nat_alt)
  have d: "unat (p - aw_largest w) = ?P - ?L" using p by (simp add: unat_sub)
  have R: "\<forall>n\<in>R. n \<le> ?L" "\<forall>d<64. bit (aw_mask w) d \<longleftrightarrow> d \<le> ?L \<and> ?L - d \<in> R"
    using rep init by (simp_all add: window_rep_def)
  have "bit m d \<longleftrightarrow> d \<le> ?P \<and> ?P - d \<in> insert ?P R" if d64: "d < 64" for d
  proof (cases "?P - ?L \<ge> 64")
    case True
    then have "m = 1" by (simp add: mask word_le_nat_alt d)
    moreover have "?P - d \<notin> R" using True d64 R(1) by fastforce
    ultimately show ?thesis using lt by (auto simp: bit_simps)
  next
    case False
    then have "m = push_bit (?P - ?L) (aw_mask w) OR 1" by (simp add: mask word_le_nat_alt d)
    then have "bit m d \<longleftrightarrow> d = 0 \<or> ?P - ?L \<le> d \<and> bit (aw_mask w) (d - (?P - ?L))"
      using d64 by (simp only: bit_shift_in)
    also have "\<dots> \<longleftrightarrow> d = 0 \<or> ?P - ?L \<le> d \<and> d \<le> ?P \<and> ?P - d \<in> R"
      using R(2) d64 lt by (auto simp: less_imp_diff_less)
    also have "\<dots> \<longleftrightarrow> d \<le> ?P \<and> ?P - d \<in> insert ?P R"
      using R(1) lt by fastforce
    finally show ?thesis .
  qed
  with R(1) lt init show ?thesis
    by (auto simp: window_rep_def)
qed

lemma window_rep_gap:
  assumes rep: "window_rep w R" and init: "aw_initialized w" and p: "\<not> aw_largest w < p"
    and near: "unat (aw_largest w - p) < 64"
  shows "bit (aw_mask w) (unat (aw_largest w - p)) \<longleftrightarrow> unat p \<in> R"
    and "window_rep (w\<lparr>aw_mask := aw_mask w OR push_bit (unat (aw_largest w - p)) 1\<rparr>)
          (insert (unat p) R)"
proof -
  let ?L = "unat (aw_largest w)" and ?P = "unat p"
  have le: "?P \<le> ?L" using p by (simp add: word_less_nat_alt)
  have d: "unat (aw_largest w - p) = ?L - ?P" using p by (simp add: unat_sub)
  have R: "?L \<in> R" "\<forall>n\<in>R. n \<le> ?L" "\<forall>d<64. bit (aw_mask w) d \<longleftrightarrow> d \<le> ?L \<and> ?L - d \<in> R"
    using rep init by (simp_all add: window_rep_def)
  show "bit (aw_mask w) (unat (aw_largest w - p)) \<longleftrightarrow> unat p \<in> R"
    using R(3) near le by (simp add: d)
  have "bit (aw_mask w OR push_bit (?L - ?P) 1) d \<longleftrightarrow> d \<le> ?L \<and> ?L - d \<in> insert ?P R"
    if "d < 64" for d
    unfolding bit_mask_or [OF that] using R(3) le that by (auto simp: diff_diff_eq2)
  then show "window_rep (w\<lparr>aw_mask := aw_mask w OR push_bit (unat (aw_largest w - p)) 1\<rparr>)
          (insert (unat p) R)"
    using R(1,2) le init by (auto simp: window_rep_def d)
qed

lemma observe_cases:
  assumes rep: "window_rep w R" and obs: "observe w p = (w', ob)"
  shows "if ao_accepted ob then unat p \<notin> R \<and> window_rep w' (insert (unat p) R)
         else w' = w \<and> (unat p \<in> R \<or> unat p + 64 \<le> unat (aw_largest w) \<and> aw_initialized w)"
proof -
  consider (first) "\<not> aw_initialized w" | (newer) "aw_initialized w" "aw_largest w < p"
    | (old) "aw_initialized w" "\<not> aw_largest w < p" "aw_largest w - p \<ge> 64"
    | (near) "aw_initialized w" "\<not> aw_largest w < p" "\<not> aw_largest w - p \<ge> 64" by blast
  then show ?thesis
  proof cases
    case first
    with rep obs show ?thesis
      using window_rep_first [of p] by (auto simp: observe_def window_rep_def)
  next
    case newer
    moreover from this rep have "unat p \<notin> R" by (auto simp: window_rep_def word_less_nat_alt)
    ultimately show ?thesis
      using obs window_rep_newer [OF rep newer refl] by (auto simp: observe_def Let_def)
  next
    case old
    then have "unat p + 64 \<le> unat (aw_largest w)" by (simp add: word_le_nat_alt unat_sub not_less)
    with old obs show ?thesis by (auto simp: observe_def Let_def)
  next
    case near
    then have "unat (aw_largest w - p) < 64" by (simp add: word_le_nat_alt)
    from window_rep_gap [OF rep near(1,2) this] near obs show ?thesis
      by (auto simp: observe_def Let_def and_exp_eq_0_iff_not_bit)
  qed
qed

interpretation rw: receive_window new_ack_window
  "\<lambda>w p. map_prod id ao_accepted (observe w p)" "\<lambda>w R. window_rep w (unat ` R)"
proof (unfold_locales, goal_cases)
  case 1
  then show ?case by (simp add: window_rep_def new_ack_window_def)
next
  case (2 w R p w')
  then obtain ob where "observe w p = (w', ob)" "ao_accepted ob" by (cases "observe w p") auto
  with 2(1) observe_cases show ?case by fastforce
next
  case (3 w R p w')
  then obtain ob where "observe w p = (w', ob)" "\<not> ao_accepted ob" by (cases "observe w p") auto
  with 3(1) observe_cases show ?case by fastforce
qed

text \<open>
  C9. At-most-once acceptance. From a fresh window, whatever sequence of packet numbers
  arrives (duplicates, reordering, arbitrary jumps), the accepted ones are pairwise distinct.
\<close>

theorem observe_accepts_at_most_once:
  "distinct (accepted_run (\<lambda>w p. map_prod id ao_accepted (observe w p)) new_ack_window ps)"
  by (rule rw.accepted_once)

text \<open>C10. The window is exact. Let the window represent the set \<open>R\<close> of accepted packet numbers.
  Observing \<open>p\<close> accepts it if and only if \<open>p\<close> is not in \<open>R\<close> and is less than 64 below the
  largest number of \<open>R\<close> (or \<open>R\<close> is empty); the new window then represents \<open>R\<close> with \<open>p\<close>
  added, and is unchanged otherwise.
\<close>

theorem observe_refines_set:
  assumes "window_rep w R"
  shows "(ao_accepted (snd (observe w p)) \<longleftrightarrow>
            unat p \<notin> R \<and> (\<forall>n\<in>R. n < unat p + 64)) \<and>
         window_rep (fst (observe w p))
           (if ao_accepted (snd (observe w p)) then insert (unat p) R else R)"
proof -
  obtain w' ob where o: "observe w p = (w', ob)" by fastforce
  note c = observe_cases [OF assms o]
  have "\<forall>n\<in>R. n < unat p + 64" if acc: "ao_accepted ob"
  proof (cases "aw_initialized w \<and> \<not> aw_largest w < p")
    case True
    with acc o have "aw_largest w - p < 64"
      by (auto simp: observe_def Let_def not_le split: if_splits)
    moreover have "unat (aw_largest w - p) = unat (aw_largest w) - unat p"
      using True by (intro unat_sub) (simp add: not_less)
    ultimately have "unat (aw_largest w) < unat p + 64"
      by (simp add: word_less_nat_alt)
    with assms True show ?thesis by (fastforce simp: window_rep_def)
  next
    case False
    then have "aw_initialized w \<Longrightarrow> unat (aw_largest w) < unat p"
      by (simp add: word_less_nat_alt)
    with assms show ?thesis by (fastforce simp: window_rep_def split: if_splits)
  qed
  moreover have "\<not> (\<forall>n\<in>R. n < unat p + 64)" if "\<not> ao_accepted ob" "unat p \<notin> R"
    using c that assms
    by (auto simp: window_rep_def not_less split: if_splits intro!: bexI [of _ "unat (aw_largest w)"])
  ultimately show ?thesis using c assms by (auto simp: o)
qed

theorem observe_refines_set_witness:
  "ao_accepted (snd (observe (fst (observe new_ack_window 5)) 3)) \<and>
   \<not> ao_accepted (snd (observe (fst (observe new_ack_window 70)) 6))"
proof -
  have r: "window_rep new_ack_window {}" by (simp add: window_rep_def new_ack_window_def)
  have "window_rep (fst (observe new_ack_window 5)) {5}"
    and "window_rep (fst (observe new_ack_window 70)) {70}"
    using observe_refines_set [OF r, of 5] observe_refines_set [OF r, of 70] by auto
  then show ?thesis
    using observe_refines_set [of "fst (observe new_ack_window 5)" "{5}" 3]
      observe_refines_set [of "fst (observe new_ack_window 70)" "{70}" 6] by simp
qed

end
