(* ===== verification/Retransmission_Queue.thy ===== *)
theory Retransmission_Queue
  imports Dynaxis_Prelude
begin

text \<open>
  The retransmission queue of \<open>core/include/server/core/net/rudp/retransmission_queue.hpp\<close> and
  \<open>core/src/net/rudp/retransmission_queue.cpp\<close>: the packets sent and not yet acknowledged,
  with the count of their bytes and their retransmission timers.

  The locale \<open>reliable_queue\<close> is the contract the RUDP engine relies on, stated over the view
  of the queue as the list of its packet numbers and frames.
\<close>

section \<open>The queue\<close>

record PendingPacket =
  pp_packet_number :: u32
  pp_first_sent_unix_ms :: u64
  pp_last_sent_unix_ms :: u64
  pp_retransmit_count :: u32
  pp_encoded_frame :: bytes

record RqEntry =
  en_packet :: PendingPacket
  en_acked :: bool

record RetransmissionQueue =
  rq_pending :: "RqEntry list"
  rq_inflight_bytes :: nat

definition new_retransmission_queue :: RetransmissionQueue where
  "new_retransmission_queue = \<lparr>rq_pending = [], rq_inflight_bytes = 0\<rparr>"

definition rq_reset :: "RetransmissionQueue \<Rightarrow> RetransmissionQueue" where
  "rq_reset q = q\<lparr>rq_pending := [], rq_inflight_bytes := 0\<rparr>"

definition rq_push :: "u32 \<Rightarrow> u64 \<Rightarrow> bytes \<Rightarrow> RetransmissionQueue \<Rightarrow> RetransmissionQueue" where
  "rq_push packet_number sent_unix_ms encoded_frame q =
     (if encoded_frame = [] then q
      else
        let entry =
          \<lparr>en_packet =
             \<lparr>pp_packet_number = packet_number, pp_first_sent_unix_ms = sent_unix_ms,
              pp_last_sent_unix_ms = sent_unix_ms, pp_retransmit_count = 0,
              pp_encoded_frame = encoded_frame\<rparr>,
           en_acked = False\<rparr>
        in q\<lparr>rq_inflight_bytes := rq_inflight_bytes q + length encoded_frame,
             rq_pending := rq_pending q @ [entry]\<rparr>)"

definition is_acked_by_mask :: "u32 \<Rightarrow> u32 \<Rightarrow> u64 \<Rightarrow> bool" where
  "is_acked_by_mask packet_number ack_largest ack_mask =
     (if packet_number > ack_largest then False
      else if packet_number = ack_largest then True
      else
        let distance = ack_largest - packet_number
        in if distance \<ge> 64 then True
           else ack_mask AND push_bit (unat distance) 1 \<noteq> 0)"

text \<open>\<open>erase_acked\<close>: first the loop over the acknowledged front, then the erase-remove.\<close>

fun pop_acked_front :: "RqEntry list \<Rightarrow> nat \<Rightarrow> RqEntry list \<times> nat" where
  "pop_acked_front [] inflight = ([], inflight)"
| "pop_acked_front (e # es) inflight =
     (if en_acked e then
        let sz = length (pp_encoded_frame (en_packet e))
        in pop_acked_front es (if inflight \<ge> sz then inflight - sz else 0)
      else (e # es, inflight))"

definition frame_bytes :: "RqEntry list \<Rightarrow> nat" where
  "frame_bytes es = sum_list (map (\<lambda>e. length (pp_encoded_frame (en_packet e))) es)"

definition rq_erase_acked :: "RetransmissionQueue \<Rightarrow> RetransmissionQueue" where
  "rq_erase_acked q =
     (case pop_acked_front (rq_pending q) (rq_inflight_bytes q) of (pending, inflight) \<Rightarrow>
        if pending = [] then q\<lparr>rq_pending := pending, rq_inflight_bytes := inflight\<rparr>
        else
          let kept = filter (\<lambda>e. \<not> en_acked e) pending
          in if length kept = length pending then
               q\<lparr>rq_pending := kept, rq_inflight_bytes := inflight\<rparr>
             else q\<lparr>rq_pending := kept, rq_inflight_bytes := frame_bytes kept\<rparr>)"

definition mark_acked :: "u32 \<Rightarrow> u64 \<Rightarrow> RetransmissionQueue \<Rightarrow> RetransmissionQueue" where
  "mark_acked ack_largest ack_mask q =
     rq_erase_acked
       (q\<lparr>rq_pending := map (\<lambda>e.
          if \<not> en_acked e \<and> is_acked_by_mask (pp_packet_number (en_packet e)) ack_largest ack_mask
          then e\<lparr>en_acked := True\<rparr> else e) (rq_pending q)\<rparr>)"

text \<open>The loop of \<open>collect_timeouts\<close>: the entries as it leaves them and the due packets.\<close>

fun collect_loop ::
  "u64 \<Rightarrow> u32 \<Rightarrow> nat \<Rightarrow> RqEntry list \<Rightarrow> PendingPacket list \<Rightarrow> RqEntry list \<times> PendingPacket list"
where
  "collect_loop now rto max_batch [] due = ([], due)"
| "collect_loop now rto max_batch (e # es) due =
     (if en_acked e then
        (case collect_loop now rto max_batch es due of (es', due') \<Rightarrow> (e # es', due'))
      else if now - pp_last_sent_unix_ms (en_packet e) < ucast rto then
        (case collect_loop now rto max_batch es due of (es', due') \<Rightarrow> (e # es', due'))
      else
        let p = (en_packet e)\<lparr>pp_last_sent_unix_ms := now,
                  pp_retransmit_count := pp_retransmit_count (en_packet e) + 1\<rparr>;
            e' = e\<lparr>en_packet := p\<rparr>;
            due = due @ [p]
        in if length due \<ge> max_batch then (e' # es, due)
           else (case collect_loop now rto max_batch es due of (es', due') \<Rightarrow> (e' # es', due')))"

definition collect_timeouts ::
  "u64 \<Rightarrow> u32 \<Rightarrow> nat \<Rightarrow> RetransmissionQueue \<Rightarrow> RetransmissionQueue \<times> PendingPacket list"
where
  "collect_timeouts now_unix_ms rto_ms max_batch q =
     (if max_batch = 0 \<or> rto_ms = 0 then (q, [])
      else (case collect_loop now_unix_ms rto_ms max_batch (rq_pending q) [] of
              (pending, due) \<Rightarrow> (q\<lparr>rq_pending := pending\<rparr>, due)))"

definition inflight_packets :: "RetransmissionQueue \<Rightarrow> nat" where
  "inflight_packets q = length (rq_pending q)"

definition inflight_bytes :: "RetransmissionQueue \<Rightarrow> nat" where
  "inflight_bytes q = rq_inflight_bytes q"

section \<open>The contract of a retransmission queue\<close>

locale reliable_queue =
  fixes empty :: 'q
    and push :: "u32 \<Rightarrow> u64 \<Rightarrow> bytes \<Rightarrow> 'q \<Rightarrow> 'q"
    and ack :: "u32 \<Rightarrow> u64 \<Rightarrow> 'q \<Rightarrow> 'q"
    and timeouts :: "u64 \<Rightarrow> u32 \<Rightarrow> nat \<Rightarrow> 'q \<Rightarrow> 'q \<times> PendingPacket list"
    and count :: "'q \<Rightarrow> nat" and size_bytes :: "'q \<Rightarrow> nat"
    and view :: "'q \<Rightarrow> (u32 \<times> bytes) list" and invar :: "'q \<Rightarrow> bool"
    and acked :: "u32 \<Rightarrow> u32 \<Rightarrow> u64 \<Rightarrow> bool"
  assumes invar_empty: "invar empty" and view_empty: "view empty = []"
    and invar_push: "invar q \<Longrightarrow> invar (push n t f q)"
    and view_push: "invar q \<Longrightarrow> f \<noteq> [] \<Longrightarrow> view (push n t f q) = view q @ [(n, f)]"
    and invar_ack: "invar q \<Longrightarrow> invar (ack l m q)"
    and view_ack: "invar q \<Longrightarrow> view (ack l m q) = filter (\<lambda>(n, f). \<not> acked n l m) (view q)"
    and invar_timeouts: "invar q \<Longrightarrow> invar (fst (timeouts now rto k q))"
    and view_timeouts: "invar q \<Longrightarrow> view (fst (timeouts now rto k q)) = view q"
    and due_in_view: "invar q \<Longrightarrow> p \<in> set (snd (timeouts now rto k q)) \<Longrightarrow>
          (pp_packet_number p, pp_encoded_frame p) \<in> set (view q)"
    and count_view: "invar q \<Longrightarrow> count q = length (view q)"
    and size_view: "invar q \<Longrightarrow> size_bytes q = sum_list (map (length \<circ> snd) (view q))"
begin

lemma ack_shrinks:
  assumes "invar q"
  shows "count (ack l m q) \<le> count q" and "size_bytes (ack l m q) \<le> size_bytes q"
proof -
  show "count (ack l m q) \<le> count q"
    using assms by (simp add: count_view invar_ack view_ack)
  have "sum_list (map (length \<circ> snd) (filter P xs)) \<le> sum_list (map (length \<circ> snd) xs)"
    for P and xs :: "(u32 \<times> bytes) list"
    by (induction xs) auto
  then show "size_bytes (ack l m q) \<le> size_bytes q"
    using assms by (simp add: size_view invar_ack view_ack)
qed

lemma push_grows:
  assumes "invar q" and "f \<noteq> []"
  shows "count (push n t f q) = count q + 1"
    and "size_bytes (push n t f q) = size_bytes q + length f"
  using assms by (simp_all add: count_view size_view invar_push view_push)

lemma timeouts_keep:
  assumes "invar q"
  shows "count (fst (timeouts now rto k q)) = count q"
    and "size_bytes (fst (timeouts now rto k q)) = size_bytes q"
  using assms by (simp_all add: count_view size_view invar_timeouts view_timeouts)

end

section \<open>The queue keeps its contract\<close>

definition rq_view :: "RetransmissionQueue \<Rightarrow> (u32 \<times> bytes) list" where
  "rq_view q = map (\<lambda>e. (pp_packet_number (en_packet e), pp_encoded_frame (en_packet e))) (rq_pending q)"

definition rq_inv :: "RetransmissionQueue \<Rightarrow> bool" where
  "rq_inv q \<longleftrightarrow> (\<forall>e\<in>set (rq_pending q). \<not> en_acked e) \<and>
     rq_inflight_bytes q = frame_bytes (rq_pending q)"

lemma frame_bytes_simps [simp]:
  "frame_bytes [] = 0"
  "frame_bytes (e # es) = length (pp_encoded_frame (en_packet e)) + frame_bytes es"
  "frame_bytes (es @ fs) = frame_bytes es + frame_bytes fs"
  by (simp_all add: frame_bytes_def)

lemma pop_acked_front_eq:
  "pop_acked_front es (frame_bytes es) =
     (dropWhile en_acked es, frame_bytes (dropWhile en_acked es))"
  by (induction es) (auto simp: Let_def)

lemma filter_not_dropWhile:
  "filter (\<lambda>x. \<not> P x) (dropWhile P xs) = filter (\<lambda>x. \<not> P x) xs"
  by (induction xs) auto

lemma rq_erase_acked_eq:
  assumes "rq_inflight_bytes q = frame_bytes (rq_pending q)"
  shows "rq_erase_acked q =
    (let kept = filter (\<lambda>e. \<not> en_acked e) (rq_pending q)
     in q\<lparr>rq_pending := kept, rq_inflight_bytes := frame_bytes kept\<rparr>)"
proof -
  let ?d = "dropWhile en_acked (rq_pending q)"
  have f: "filter (\<lambda>e. \<not> en_acked e) (rq_pending q) = filter (\<lambda>e. \<not> en_acked e) ?d"
    by (simp add: filter_not_dropWhile)
  show ?thesis
  proof (cases "?d = []")
    case True
    with f have "filter (\<lambda>e. \<not> en_acked e) (rq_pending q) = []"
      by simp
    with True show ?thesis
      by (simp add: rq_erase_acked_def assms pop_acked_front_eq Let_def del: dropWhile_eq_Nil_conv)
  next
    case False
    moreover have "filter (\<lambda>e. \<not> en_acked e) ?d = ?d"
      if "length (filter (\<lambda>e. \<not> en_acked e) ?d) = length ?d"
      using that by (metis length_filter_less filter_id_conv less_irrefl)
    ultimately show ?thesis
      by (auto simp add: rq_erase_acked_def assms pop_acked_front_eq f Let_def
          simp del: dropWhile_eq_Nil_conv)
  qed
qed

lemma frame_bytes_acked [simp]:
  "frame_bytes (map (\<lambda>e. if P e then e\<lparr>en_acked := b\<rparr> else e) es) = frame_bytes es"
  by (induction es) auto

lemma mark_acked_eq:
  assumes "rq_inv q"
  shows "mark_acked l m q =
    (let kept = filter (\<lambda>e. \<not> is_acked_by_mask (pp_packet_number (en_packet e)) l m) (rq_pending q)
     in q\<lparr>rq_pending := kept, rq_inflight_bytes := frame_bytes kept\<rparr>)"
proof -
  have "filter (\<lambda>e. \<not> en_acked e) (map (\<lambda>e. if \<not> en_acked e \<and> P e then e\<lparr>en_acked := True\<rparr> else e) es)
      = filter (\<lambda>e. \<not> P e) es" if "\<forall>e\<in>set es. \<not> en_acked e" for es :: "RqEntry list" and P
    using that by (induction es) auto
  with assms show ?thesis
    by (simp add: mark_acked_def rq_erase_acked_eq rq_inv_def Let_def)
qed

lemma collect_loop_keeps:
  assumes "collect_loop now rto k es due = (es', due')"
  shows "map en_acked es' = map en_acked es \<and> frame_bytes es' = frame_bytes es \<and>
    map (\<lambda>e. (pp_packet_number (en_packet e), pp_encoded_frame (en_packet e))) es' =
    map (\<lambda>e. (pp_packet_number (en_packet e), pp_encoded_frame (en_packet e))) es"
  using assms
  by (induction now rto k es due arbitrary: es' due' rule: collect_loop.induct)
    (auto simp: Let_def split: if_splits prod.splits)

text \<open>Which entries are due, and what the queue sends for a due entry.\<close>

definition entry_due :: "u64 \<Rightarrow> u32 \<Rightarrow> RqEntry \<Rightarrow> bool" where
  "entry_due now rto e \<longleftrightarrow> \<not> en_acked e \<and> ucast rto \<le> now - pp_last_sent_unix_ms (en_packet e)"

definition resend :: "u64 \<Rightarrow> RqEntry \<Rightarrow> PendingPacket" where
  "resend now e = (en_packet e)\<lparr>pp_last_sent_unix_ms := now,
     pp_retransmit_count := pp_retransmit_count (en_packet e) + 1\<rparr>"

lemma collect_loop_due:
  assumes "length due < k"
  shows "snd (collect_loop now rto k es due) =
    take k (due @ map (resend now) (filter (entry_due now rto) es))"
  using assms
  by (induction now rto k es due rule: collect_loop.induct)
    (force simp: Let_def resend_def entry_due_def linorder_not_less take_Cons'
      split: prod.splits)+

lemma rq_inv_new [simp]: "rq_inv new_retransmission_queue"
  by (simp add: rq_inv_def new_retransmission_queue_def)

lemma rq_inv_push: "rq_inv q \<Longrightarrow> rq_inv (rq_push n t f q)"
  by (auto simp: rq_inv_def rq_push_def Let_def)

lemma rq_view_push: "f \<noteq> [] \<Longrightarrow> rq_view (rq_push n t f q) = rq_view q @ [(n, f)]"
  by (simp add: rq_view_def rq_push_def Let_def)

lemma rq_inv_mark_acked: "rq_inv q \<Longrightarrow> rq_inv (mark_acked l m q)"
  by (simp add: mark_acked_eq Let_def) (simp add: rq_inv_def)

lemma rq_view_mark_acked:
  "rq_inv q \<Longrightarrow> rq_view (mark_acked l m q) =
     filter (\<lambda>(n, f). \<not> is_acked_by_mask n l m) (rq_view q)"
  by (simp add: mark_acked_eq Let_def rq_view_def filter_map comp_def)

lemma collect_timeouts_keeps:
  assumes "rq_inv q"
  shows "rq_inv (fst (collect_timeouts now rto k q))"
    and "rq_view (fst (collect_timeouts now rto k q)) = rq_view q"
proof -
  obtain es due where c: "collect_loop now rto k (rq_pending q) [] = (es, due)"
    by fastforce
  note keeps = collect_loop_keeps [OF c]
  have "(\<forall>e\<in>set es. \<not> en_acked e) = (\<forall>b\<in>set (map en_acked es). \<not> b)"
    by simp
  then have "\<forall>e\<in>set es. \<not> en_acked e"
    using assms keeps by (simp add: rq_inv_def)
  with assms keeps c show "rq_inv (fst (collect_timeouts now rto k q))"
    by (simp add: rq_inv_def collect_timeouts_def)
  from assms keeps c show "rq_view (fst (collect_timeouts now rto k q)) = rq_view q"
    by (simp add: rq_view_def collect_timeouts_def)
qed

lemma collect_timeouts_due:
  assumes "0 < k" and "0 < rto"
  shows "snd (collect_timeouts now rto k q) =
    take k (map (resend now) (filter (entry_due now rto) (rq_pending q)))"
  using assms collect_loop_due [of "[]" k now rto "rq_pending q"]
  by (auto simp: collect_timeouts_def split: prod.splits)

lemma collect_timeouts_in_view:
  assumes "p \<in> set (snd (collect_timeouts now rto k q))"
  shows "(pp_packet_number p, pp_encoded_frame p) \<in> set (rq_view q)"
proof (cases "0 < k \<and> 0 < rto")
  case True
  with assms have "p \<in> resend now ` set (rq_pending q)"
    by (auto simp: collect_timeouts_due dest!: in_set_takeD)
  then show ?thesis
    by (force simp: rq_view_def resend_def)
next
  case False
  with assms show ?thesis
    by (auto simp: collect_timeouts_def word_gt_0)
qed

interpretation rq: reliable_queue new_retransmission_queue rq_push mark_acked collect_timeouts
  inflight_packets inflight_bytes rq_view rq_inv is_acked_by_mask
proof unfold_locales
  fix q :: RetransmissionQueue
  assume "rq_inv q"
  then show "inflight_bytes q = sum_list (map (length \<circ> snd) (rq_view q))"
    by (simp add: rq_inv_def inflight_bytes_def rq_view_def frame_bytes_def comp_def)
qed (simp_all add: rq_inv_push rq_view_push rq_inv_mark_acked rq_view_mark_acked
      collect_timeouts_keeps collect_timeouts_in_view inflight_packets_def,
    simp_all add: rq_view_def new_retransmission_queue_def)

section \<open>Properties\<close>

text \<open>The operations a sender calls on its queue, in any order.\<close>

inductive rq_reachable :: "RetransmissionQueue \<Rightarrow> bool" where
  rq_start: "rq_reachable new_retransmission_queue"
| rq_reset_step: "rq_reachable q \<Longrightarrow> rq_reachable (rq_reset q)"
| rq_push_step: "rq_reachable q \<Longrightarrow> rq_reachable (rq_push n t f q)"
| rq_ack_step: "rq_reachable q \<Longrightarrow> rq_reachable (mark_acked l m q)"
| rq_timeout_step: "rq_reachable q \<Longrightarrow> rq_reachable (fst (collect_timeouts now rto k q))"

lemma rq_reachable_inv: "rq_reachable q \<Longrightarrow> rq_inv q"
proof (induction rule: rq_reachable.induct)
  case (rq_reset_step q)
  then show ?case by (simp add: rq_inv_def rq_reset_def)
qed (simp_all add: rq_inv_push rq_inv_mark_acked collect_timeouts_keeps)

text \<open>C11. in every state of the queue that any sequence of \<open>reset\<close>, \<open>push\<close>, \<open>mark_acked\<close> and
  \<open>collect_timeouts\<close> reaches, the byte counter, which the code updates by saturating
  subtraction and by a recount, is exactly the number of bytes of the pending frames, and no
  acknowledged entry is left in the queue.
\<close>

theorem inflight_bytes_exact:
  assumes "rq_reachable q"
  shows "inflight_bytes q = sum_list (map (length \<circ> snd) (rq_view q)) \<and>
    (\<forall>e\<in>set (rq_pending q). \<not> en_acked e)"
  using rq_reachable_inv [OF assms] rq.size_view by (simp add: rq_inv_def)

text \<open>A queue of three packets, for the witnesses.\<close>

definition three_packets :: RetransmissionQueue where
  "three_packets = rq_push 3 30 [7, 7, 7] (rq_push 2 20 [8] (rq_push 1 10 [9, 9] new_retransmission_queue))"

lemma three_packets_reachable: "rq_reachable three_packets"
  by (simp add: three_packets_def rq_push_step rq_start)

theorem inflight_bytes_exact_witness:
  "inflight_bytes (mark_acked 2 0 three_packets) =
     sum_list (map (length \<circ> snd) (rq_view (mark_acked 2 0 three_packets))) \<and>
   inflight_bytes (mark_acked 2 0 three_packets) = 5"
  using inflight_bytes_exact [OF rq_ack_step [OF three_packets_reachable], of 2 0]
  by (simp add: three_packets_def) code_simp

text \<open>C12. \<open>mark_acked\<close> removes exactly the entries the acknowledgement covers and keeps every
  other entry, unchanged and in order; its erase loop, its early returns and its recount
  together give the filtered queue.
\<close>

theorem mark_acked_removes_exactly_acked:
  assumes "rq_reachable q"
  shows "rq_pending (mark_acked l m q) =
    filter (\<lambda>e. \<not> is_acked_by_mask (pp_packet_number (en_packet e)) l m) (rq_pending q)"
  using mark_acked_eq [OF rq_reachable_inv [OF assms]] by (simp add: Let_def)

theorem mark_acked_removes_exactly_acked_witness:
  "map (pp_packet_number \<circ> en_packet) (rq_pending (mark_acked 3 4 three_packets)) = [2]"
  unfolding mark_acked_removes_exactly_acked [OF three_packets_reachable, of 3 4] by code_simp

text \<open>\<open>collect_timeouts\<close> returns the first \<open>max_batch\<close> entries whose age has reached the
  timeout, in queue order, each with the new send time and one more retransmission, and
  leaves the packet numbers, the frames and the byte count of the queue as they were.
\<close>

theorem collect_timeouts_first_due:
  assumes "rq_reachable q" and "0 < max_batch" and "0 < rto"
  shows "snd (collect_timeouts now rto max_batch q) =
      take max_batch (map (resend now) (filter (entry_due now rto) (rq_pending q))) \<and>
    rq_view (fst (collect_timeouts now rto max_batch q)) = rq_view q \<and>
    inflight_bytes (fst (collect_timeouts now rto max_batch q)) = inflight_bytes q"
  using assms rq_reachable_inv [OF assms(1)]
  by (simp add: collect_timeouts_due rq.view_timeouts rq.timeouts_keep)

theorem collect_timeouts_first_due_witness:
  "map pp_packet_number (snd (collect_timeouts 100 75 1 three_packets)) = [1] \<and>
   rq_view (fst (collect_timeouts 100 75 1 three_packets)) = rq_view three_packets"
proof -
  have "map pp_packet_number (take 1 (map (resend 100) (filter (entry_due 100 75)
      (rq_pending three_packets)))) = [1]"
    by code_simp
  with collect_timeouts_first_due [OF three_packets_reachable, of 1 75 100] show ?thesis
    by simp
qed

end
