(* ===== verification/Runtime_Metrics.thy ===== *)
theory Runtime_Metrics
  imports Dynaxis_Prelude
begin

text \<open>
  The process-wide RUDP counters of \<open>core/src/runtime_metrics.cpp\<close>: the functions the RUDP
  engine calls. The atomics are modelled by the values one thread at a time leaves in them; a
  compare-and-swap loop that raises a maximum is then the maximum.
\<close>

datatype RudpFallbackReason =
    FrHandshakeTimeout | FrIdleTimeout | FrProtocolError | FrInflightLimit | FrDisabled | FrOther

fun fallback_reason_index :: "RudpFallbackReason \<Rightarrow> nat" where
  "fallback_reason_index FrHandshakeTimeout = 0"
| "fallback_reason_index FrIdleTimeout = 1"
| "fallback_reason_index FrProtocolError = 2"
| "fallback_reason_index FrInflightLimit = 3"
| "fallback_reason_index FrDisabled = 4"
| "fallback_reason_index FrOther = 5"

definition kRudpFallbackReasonCount :: nat where
  "kRudpFallbackReasonCount = 6"

definition kRudpRttBucketUpperBoundsMs :: "u64 list" where
  "kRudpRttBucketUpperBoundsMs = [1, 2, 5, 10, 20, 50, 100, 200, 500, 1000, 2000]"

record RudpCounters =
  rm_handshake_ok_total :: u64
  rm_handshake_fail_total :: u64
  rm_retransmit_total :: u64
  rm_inflight_packets :: u64
  rm_rtt_ms_sum :: u64
  rm_rtt_ms_count :: u64
  rm_rtt_ms_max :: u64
  rm_rtt_ms_bucket_counts :: "u64 list"
  rm_fallback_total :: "u64 list"

definition new_rudp_counters :: RudpCounters where
  "new_rudp_counters =
     \<lparr>rm_handshake_ok_total = 0, rm_handshake_fail_total = 0, rm_retransmit_total = 0,
      rm_inflight_packets = 0, rm_rtt_ms_sum = 0, rm_rtt_ms_count = 0, rm_rtt_ms_max = 0,
      rm_rtt_ms_bucket_counts = replicate (length kRudpRttBucketUpperBoundsMs) 0,
      rm_fallback_total = replicate kRudpFallbackReasonCount 0\<rparr>"

definition normalize_rudp_fallback_index :: "RudpFallbackReason \<Rightarrow> nat" where
  "normalize_rudp_fallback_index reason =
     (let index = fallback_reason_index reason
      in if index < kRudpFallbackReasonCount then index else fallback_reason_index FrOther)"

definition record_rudp_handshake_result :: "bool \<Rightarrow> RudpCounters \<Rightarrow> RudpCounters" where
  "record_rudp_handshake_result ok c =
     (if ok then c\<lparr>rm_handshake_ok_total := rm_handshake_ok_total c + 1\<rparr>
      else c\<lparr>rm_handshake_fail_total := rm_handshake_fail_total c + 1\<rparr>)"

definition record_rudp_retransmit :: "u64 \<Rightarrow> RudpCounters \<Rightarrow> RudpCounters" where
  "record_rudp_retransmit n c =
     (if n = 0 then c else c\<lparr>rm_retransmit_total := rm_retransmit_total c + n\<rparr>)"

definition set_rudp_inflight_packets :: "nat \<Rightarrow> RudpCounters \<Rightarrow> RudpCounters" where
  "set_rudp_inflight_packets packets c = c\<lparr>rm_inflight_packets := word_of_nat packets\<rparr>"

text \<open>The bucket loop: the first bucket whose bound is not below the sample counts it.\<close>

fun bump_bucket :: "u64 list \<Rightarrow> u64 \<Rightarrow> u64 list \<Rightarrow> u64 list" where
  "bump_bucket (bound # bounds) sample (n # ns) =
     (if sample \<le> bound then (n + 1) # ns else n # bump_bucket bounds sample ns)"
| "bump_bucket bounds sample ns = ns"

definition record_rudp_rtt_ms :: "u32 \<Rightarrow> RudpCounters \<Rightarrow> RudpCounters" where
  "record_rudp_rtt_ms rtt_ms c =
     (if rtt_ms = 0 then c
      else
        let sample = ucast rtt_ms;
            c = c\<lparr>rm_rtt_ms_sum := rm_rtt_ms_sum c + sample\<rparr>;
            c = c\<lparr>rm_rtt_ms_count := rm_rtt_ms_count c + 1\<rparr>;
            c = (if rm_rtt_ms_max c < sample then c\<lparr>rm_rtt_ms_max := sample\<rparr> else c)
        in c\<lparr>rm_rtt_ms_bucket_counts :=
              bump_bucket kRudpRttBucketUpperBoundsMs sample (rm_rtt_ms_bucket_counts c)\<rparr>)"

definition record_rudp_fallback :: "RudpFallbackReason \<Rightarrow> RudpCounters \<Rightarrow> RudpCounters" where
  "record_rudp_fallback reason c =
     (let i = normalize_rudp_fallback_index reason
      in c\<lparr>rm_fallback_total := (rm_fallback_total c)[i := rm_fallback_total c ! i + 1]\<rparr>)"

end
