(* ===== verification/Rudp_Engine.thy ===== *)
theory Rudp_Engine
  imports Rudp_Packet Ack_Window Retransmission_Queue Runtime_Metrics "HOL-Library.Sublist"
begin

text \<open>
  The RUDP engine: the peer state and its round-trip estimator
  (\<open>core/include/server/core/net/rudp/rudp_peer_state.hpp\<close>) and the engine
  (\<open>rudp_engine.hpp\<close>, \<open>core/src/net/rudp/rudp_engine.cpp\<close>), which decodes datagrams, runs the
  handshake, delivers payloads through the receive window, keeps reliable packets in the
  retransmission queue and falls back when the peer misbehaves or goes silent.

  Every method takes the engine and returns it with its result. The counters of
  \<open>runtime_metrics\<close> that the methods write are the field \<open>eg_metrics\<close>. A \<open>std::string\<close> that
  has been moved from is empty.
\<close>

section \<open>Peer state\<close>

datatype LifecycleState = LsIdle | LsHelloSent | LsHelloReceived | LsEstablished | LsDraining | LsClosed

record RudpConfig =
  rc_handshake_timeout_ms :: u32
  rc_idle_timeout_ms :: u32
  rc_ack_delay_ms :: u32
  rc_rto_min_ms :: u32
  rc_rto_max_ms :: u32
  rc_max_inflight_packets :: nat
  rc_max_inflight_bytes :: nat
  rc_mtu_payload_bytes :: nat

definition default_rudp_config :: RudpConfig where
  "default_rudp_config =
     \<lparr>rc_handshake_timeout_ms = 1500, rc_idle_timeout_ms = 10000, rc_ack_delay_ms = 10,
      rc_rto_min_ms = 50, rc_rto_max_ms = 2000, rc_max_inflight_packets = 256,
      rc_max_inflight_bytes = 256 * 1024, rc_mtu_payload_bytes = 1200\<rparr>"

record RttEstimator =
  re_initialized :: bool
  re_srtt_ms :: u32
  re_rttvar_ms :: u32
  re_rto_ms :: u32

definition new_rtt_estimator :: RttEstimator where
  "new_rtt_estimator = \<lparr>re_initialized = False, re_srtt_ms = 0, re_rttvar_ms = 0, re_rto_ms = 200\<rparr>"

definition clamp_u32 :: "u32 \<Rightarrow> u32 \<Rightarrow> u32 \<Rightarrow> u32" where
  "clamp_u32 v lo hi = (if v < lo then lo else if hi < v then hi else v)"

text \<open>
  \<open>update\<close>: the error term is computed in \<open>int\<close>; the weighted averages in 64 bits and cast
  back; the candidate timeout in 32 bits, where it wraps.
\<close>

definition rtt_update :: "u32 \<Rightarrow> u32 \<Rightarrow> u32 \<Rightarrow> RttEstimator \<Rightarrow> RttEstimator" where
  "rtt_update sample_ms rto_min_ms rto_max_ms r =
     (if sample_ms = 0 then r
      else
        let r = (if \<not> re_initialized r then
                   r\<lparr>re_initialized := True, re_srtt_ms := sample_ms,
                     re_rttvar_ms := max 1 (sample_ms div 2)\<rparr>
                 else
                   let err = (word_of_int \<bar>sint (re_srtt_ms r) - sint sample_ms\<bar> :: u32);
                       rttvar = ucast ((3 * (ucast (re_rttvar_ms r) :: u64) + ucast err) div 4);
                       srtt = ucast ((7 * (ucast (re_srtt_ms r) :: u64) + ucast sample_ms) div 8)
                   in r\<lparr>re_rttvar_ms := rttvar, re_srtt_ms := srtt\<rparr>);
            candidate = re_srtt_ms r + max 1 (4 * re_rttvar_ms r)
        in r\<lparr>re_rto_ms := clamp_u32 candidate rto_min_ms rto_max_ms\<rparr>)"

record RudpPeerState =
  ps_lifecycle :: LifecycleState
  ps_connection_id :: u32
  ps_next_packet_number :: u32
  ps_last_recv_unix_ms :: u64
  ps_last_send_unix_ms :: u64
  ps_last_ack_emit_unix_ms :: u64
  ps_ack_largest :: u32
  ps_ack_mask :: u64
  ps_fallback_required :: bool
  ps_fallback_reason :: string
  ps_rtt :: RttEstimator

definition new_peer_state :: RudpPeerState where
  "new_peer_state =
     \<lparr>ps_lifecycle = LsIdle, ps_connection_id = 0, ps_next_packet_number = 1,
      ps_last_recv_unix_ms = 0, ps_last_send_unix_ms = 0, ps_last_ack_emit_unix_ms = 0,
      ps_ack_largest = 0, ps_ack_mask = 0, ps_fallback_required = False,
      ps_fallback_reason = '''', ps_rtt = new_rtt_estimator\<rparr>"

definition mark_fallback :: "string \<Rightarrow> RudpPeerState \<Rightarrow> RudpPeerState" where
  "mark_fallback reason s = s\<lparr>ps_fallback_required := True, ps_fallback_reason := reason\<rparr>"

definition peer_state_reset :: "RudpPeerState \<Rightarrow> RudpPeerState" where
  "peer_state_reset s = new_peer_state"

section \<open>The engine\<close>

record ProcessResult =
  pr_parsed :: bool
  pr_consumed :: bool
  pr_handshake_established :: bool
  pr_fallback_required :: bool
  pr_fallback_reason :: string
  pr_egress_datagrams :: "bytes list"
  pr_inner_frames :: "bytes list"
  pr_retransmit_count :: u64

definition new_process_result :: ProcessResult where
  "new_process_result =
     \<lparr>pr_parsed = False, pr_consumed = False, pr_handshake_established = False,
      pr_fallback_required = False, pr_fallback_reason = '''', pr_egress_datagrams = [],
      pr_inner_frames = [], pr_retransmit_count = 0\<rparr>"

record RudpEngine =
  eg_config :: RudpConfig
  eg_state :: RudpPeerState
  eg_ack_window :: AckWindow
  eg_queue :: RetransmissionQueue
  eg_metrics :: RudpCounters

definition new_rudp_engine :: "RudpConfig \<Rightarrow> RudpEngine" where
  "new_rudp_engine config =
     \<lparr>eg_config = config, eg_state = new_peer_state, eg_ack_window = new_ack_window,
      eg_queue = new_retransmission_queue, eg_metrics = new_rudp_counters\<rparr>"

abbreviation upd_state :: "(RudpPeerState \<Rightarrow> RudpPeerState) \<Rightarrow> RudpEngine \<Rightarrow> RudpEngine" where
  "upd_state f e \<equiv> e\<lparr>eg_state := f (eg_state e)\<rparr>"

abbreviation metric :: "(RudpCounters \<Rightarrow> RudpCounters) \<Rightarrow> RudpEngine \<Rightarrow> RudpEngine" where
  "metric f e \<equiv> e\<lparr>eg_metrics := f (eg_metrics e)\<rparr>"

definition now32 :: "u64 \<Rightarrow> u32" where
  "now32 now_unix_ms = ucast (now_unix_ms AND 0xFFFFFFFF)"

definition classify_fallback_reason :: "string \<Rightarrow> RudpFallbackReason" where
  "classify_fallback_reason reason =
     (if reason = ''rudp_handshake_timeout'' then FrHandshakeTimeout
      else if reason = ''rudp_idle_timeout'' then FrIdleTimeout
      else if reason = ''rudp_inflight_limit'' then FrInflightLimit
      else if reason = ''rudp_disabled'' then FrDisabled
      else if reason = ''invalid_rudp_packet'' \<or> reason = ''connection_id_mismatch'' \<or>
              reason = ''rudp_not_established'' \<or> reason = ''peer_closed'' then FrProtocolError
      else FrOther)"

definition engine_reset :: "RudpEngine \<Rightarrow> RudpEngine" where
  "engine_reset e =
     metric (set_rudp_inflight_packets 0)
       (e\<lparr>eg_state := peer_state_reset (eg_state e),
          eg_ack_window := ack_window_reset (eg_ack_window e),
          eg_queue := rq_reset (eg_queue e)\<rparr>)"

definition make_packet :: "RudpEngine \<Rightarrow> u8 \<Rightarrow> u8 \<Rightarrow> u8 \<Rightarrow> u32 \<Rightarrow> u64 \<Rightarrow> bytes \<Rightarrow> bytes" where
  "make_packet e type flags channel packet_number now_unix_ms payload =
     encode_packet
       (default_rudp_header
          \<lparr>rh_type := type, rh_flags := flags, rh_channel := channel,
           rh_connection_id := ps_connection_id (eg_state e), rh_packet_number := packet_number,
           rh_ack_largest := ps_ack_largest (eg_state e), rh_ack_mask := ps_ack_mask (eg_state e),
           rh_ack_delay_ms := ucast (min (rc_ack_delay_ms (eg_config e)) 0xFFFF),
           rh_timestamp_ms := now32 now_unix_ms,
           rh_payload_length := word_of_nat (length payload)\<rparr>) payload"

definition set_fallback :: "string \<Rightarrow> RudpEngine \<times> ProcessResult \<Rightarrow> RudpEngine \<times> ProcessResult" where
  "set_fallback reason er =
     (let (e, result) = er;
          e = upd_state (mark_fallback reason) e;
          e = upd_state (ps_lifecycle_update (\<lambda>_. LsDraining)) e;
          e = metric (record_rudp_fallback (classify_fallback_reason reason)) e;
          result = result\<lparr>pr_fallback_required := True\<rparr>;
          result = result\<lparr>pr_fallback_reason := ps_fallback_reason (eg_state e)\<rparr>
      in (upd_state (ps_fallback_reason_update (\<lambda>_. '''')) e, result))"

definition make_hello :: "u32 \<Rightarrow> u64 \<Rightarrow> RudpEngine \<Rightarrow> RudpEngine \<times> bytes" where
  "make_hello connection_id now_unix_ms e =
     (let e = upd_state (\<lambda>s. s\<lparr>ps_connection_id := connection_id, ps_lifecycle := LsHelloSent,
                                ps_last_send_unix_ms := now_unix_ms\<rparr>) e
      in (e, make_packet e kHello 0 0 0 now_unix_ms []))"

definition make_close :: "u64 \<Rightarrow> RudpEngine \<Rightarrow> RudpEngine \<times> bytes" where
  "make_close now_unix_ms e =
     (let e = upd_state (\<lambda>s. s\<lparr>ps_lifecycle := LsClosed, ps_last_send_unix_ms := now_unix_ms\<rparr>) e
      in (e, make_packet e kClose 0 0 0 now_unix_ms []))"

text \<open>The part of \<open>process_datagram\<close> after the switch: DATA, and every unnamed type byte.\<close>

definition process_data ::
  "RudpHeader \<Rightarrow> bytes \<Rightarrow> u64 \<Rightarrow> RudpEngine \<times> ProcessResult \<Rightarrow> RudpEngine \<times> ProcessResult"
where
  "process_data header payload now_unix_ms er =
     (let (e, result) = er
      in if ps_lifecycle (eg_state e) \<noteq> LsEstablished then
           set_fallback ''rudp_not_established''
             (metric (record_rudp_handshake_result False) e, result)
         else
           let (window, ack) = observe (eg_ack_window e) (rh_packet_number header);
               e = e\<lparr>eg_ack_window := window\<rparr>;
               e = upd_state (\<lambda>s. s\<lparr>ps_ack_largest := ao_ack_largest ack,
                                     ps_ack_mask := ao_ack_mask ack\<rparr>) e
           in if \<not> ao_accepted ack then (e, result)
              else
                let result = (if payload \<noteq> [] then
                                result\<lparr>pr_inner_frames := pr_inner_frames result @ [payload]\<rparr>
                              else result);
                    should_emit_ack =
                      (rh_flags header AND kFlagAckOnly = 0 \<and>
                       now_unix_ms \<ge> ps_last_ack_emit_unix_ms (eg_state e) +
                         ucast (rc_ack_delay_ms (eg_config e)));
                    (e, result) =
                      (if should_emit_ack then
                         (upd_state (ps_last_ack_emit_unix_ms_update (\<lambda>_. now_unix_ms)) e,
                          result\<lparr>pr_egress_datagrams := pr_egress_datagrams result @
                            [make_packet e kData kFlagAckOnly (rh_channel header) 0 now_unix_ms []]\<rparr>)
                       else (e, result))
                in if rh_timestamp_ms header \<noteq> 0 then
                     let sent_ts = (ucast (rh_timestamp_ms header) :: u64);
                         now_ts = now_unix_ms AND 0xFFFFFFFF;
                         sample = (ucast (if now_ts \<ge> sent_ts then now_ts - sent_ts else 0) :: u32);
                         e = upd_state (ps_rtt_update (rtt_update sample
                               (rc_rto_min_ms (eg_config e)) (rc_rto_max_ms (eg_config e)))) e
                     in (metric (record_rudp_rtt_ms sample) e, result)
                   else (e, result))"

text \<open>The switch on the packet type.\<close>

definition process_type ::
  "RudpHeader \<Rightarrow> bytes \<Rightarrow> u64 \<Rightarrow> RudpEngine \<times> ProcessResult \<Rightarrow> RudpEngine \<times> ProcessResult"
where
  "process_type header payload now_unix_ms er =
     (let (e, result) = er
      in if rh_type header = kHello then
           let new_established = (ps_lifecycle (eg_state e) \<noteq> LsEstablished);
               e = upd_state (\<lambda>s. s\<lparr>ps_lifecycle := LsEstablished,
                                     ps_last_send_unix_ms := now_unix_ms\<rparr>) e;
               e = metric (record_rudp_handshake_result True) e
           in (e, result\<lparr>pr_handshake_established := new_established,
                         pr_egress_datagrams := pr_egress_datagrams result @
                           [make_packet e kHelloAck 0 0 0 now_unix_ms []]\<rparr>)
         else if rh_type header = kHelloAck then
           (metric (record_rudp_handshake_result True)
              (upd_state (ps_lifecycle_update (\<lambda>_. LsEstablished)) e),
            result\<lparr>pr_handshake_established := True\<rparr>)
         else if rh_type header = kClose then
           set_fallback ''peer_closed'' (upd_state (ps_lifecycle_update (\<lambda>_. LsClosed)) e, result)
         else if rh_type header = kPing then
           (e, result\<lparr>pr_egress_datagrams := pr_egress_datagrams result @
                 [make_packet e kData kFlagAckOnly 0 0 now_unix_ms []]\<rparr>)
         else process_data header payload now_unix_ms (e, result))"

text \<open>A valid packet: the connection id is learnt and the acknowledgements are applied.\<close>

definition begin_packet :: "RudpHeader \<Rightarrow> RudpEngine \<Rightarrow> RudpEngine" where
  "begin_packet header e =
     (let e = (if ps_connection_id (eg_state e) = 0 then
                 upd_state (ps_connection_id_update (\<lambda>_. rh_connection_id header)) e
               else e);
          e = e\<lparr>eg_queue := mark_acked (rh_ack_largest header) (rh_ack_mask header) (eg_queue e)\<rparr>
      in metric (set_rudp_inflight_packets (inflight_packets (eg_queue e))) e)"

definition process_datagram :: "bytes \<Rightarrow> u64 \<Rightarrow> RudpEngine \<Rightarrow> RudpEngine \<times> ProcessResult" where
  "process_datagram datagram now_unix_ms e =
     (let result = new_process_result
      in if \<not> looks_like_rudp datagram then (e, result)
         else
           let result = result\<lparr>pr_consumed := True\<rparr>
           in case decode_packet datagram of
                None \<Rightarrow> set_fallback ''invalid_rudp_packet''
                          (metric (record_rudp_handshake_result False) e, result)
              | Some (header, payload) \<Rightarrow>
                  if rh_version header \<noteq> 1 then
                    set_fallback ''invalid_rudp_packet''
                      (metric (record_rudp_handshake_result False) e, result)
                  else
                    let result = result\<lparr>pr_parsed := True\<rparr>;
                        e = upd_state (ps_last_recv_unix_ms_update (\<lambda>_. now_unix_ms)) e;
                        cid = ps_connection_id (eg_state e)
                    in if cid \<noteq> 0 \<and> rh_connection_id header \<noteq> 0 \<and> cid \<noteq> rh_connection_id header then
                         set_fallback ''connection_id_mismatch''
                           (metric (record_rudp_handshake_result False) e, result)
                       else
                         process_type header payload now_unix_ms (begin_packet header e, result))"

text \<open>
  The senders return the flag and, when it is true, the datagram written to \<open>out_datagram\<close>.
\<close>

definition queue_reliable_payload ::
  "bytes \<Rightarrow> u8 \<Rightarrow> u64 \<Rightarrow> RudpEngine \<Rightarrow> RudpEngine \<times> bytes option"
where
  "queue_reliable_payload inner_frame channel now_unix_ms e =
     (if ps_lifecycle (eg_state e) \<noteq> LsEstablished then (e, None)
      else if inner_frame = [] then (e, None)
      else if length inner_frame > rc_mtu_payload_bytes (eg_config e) then (e, None)
      else if inflight_packets (eg_queue e) \<ge> rc_max_inflight_packets (eg_config e) then
        (metric (record_rudp_fallback FrInflightLimit) e, None)
      else if inflight_bytes (eg_queue e) + length inner_frame > rc_max_inflight_bytes (eg_config e) then
        (metric (record_rudp_fallback FrInflightLimit) e, None)
      else
        let packet_number = ps_next_packet_number (eg_state e);
            e = upd_state (ps_next_packet_number_update (\<lambda>n. n + 1)) e;
            frame = make_packet e kData 0 channel packet_number now_unix_ms inner_frame;
            e = e\<lparr>eg_queue := rq_push packet_number now_unix_ms frame (eg_queue e)\<rparr>;
            e = metric (set_rudp_inflight_packets (inflight_packets (eg_queue e))) e;
            e = upd_state (ps_last_send_unix_ms_update (\<lambda>_. now_unix_ms)) e
        in (e, Some frame))"

definition queue_unreliable_payload ::
  "bytes \<Rightarrow> u8 \<Rightarrow> u64 \<Rightarrow> RudpEngine \<Rightarrow> RudpEngine \<times> bytes option"
where
  "queue_unreliable_payload inner_frame channel now_unix_ms e =
     (if ps_lifecycle (eg_state e) \<noteq> LsEstablished then (e, None)
      else if inner_frame = [] then (e, None)
      else if length inner_frame > rc_mtu_payload_bytes (eg_config e) then (e, None)
      else
        let packet_number = ps_next_packet_number (eg_state e);
            e = upd_state (ps_next_packet_number_update (\<lambda>n. n + 1)) e;
            e = upd_state (ps_last_send_unix_ms_update (\<lambda>_. now_unix_ms)) e
        in (e, Some (make_packet e kData 0 channel packet_number now_unix_ms inner_frame)))"

definition retransmit_frame :: "bytes \<Rightarrow> bytes" where
  "retransmit_frame frame =
     (if length frame \<ge> kRudpHeaderBytes then frame[27 := frame ! 27 OR kFlagRetransmit] else frame)"

definition poll :: "u64 \<Rightarrow> RudpEngine \<Rightarrow> RudpEngine \<times> ProcessResult" where
  "poll now_unix_ms e =
     (let result = new_process_result; s = eg_state e; c = eg_config e
      in if ps_lifecycle s = LsHelloSent \<and> ps_last_send_unix_ms s > 0 \<and>
            now_unix_ms > ps_last_send_unix_ms s + ucast (rc_handshake_timeout_ms c) then
           set_fallback ''rudp_handshake_timeout'' (e, result)
         else if ps_lifecycle s = LsEstablished \<and> ps_last_recv_unix_ms s > 0 \<and>
            now_unix_ms > ps_last_recv_unix_ms s + ucast (rc_idle_timeout_ms c) then
           set_fallback ''rudp_idle_timeout'' (e, result)
         else
           let (queue, due) = collect_timeouts now_unix_ms (re_rto_ms (ps_rtt s)) 16 (eg_queue e);
               e = e\<lparr>eg_queue := queue\<rparr>
           in if due = [] then (e, result)
              else
                let result = result\<lparr>pr_retransmit_count := word_of_nat (length due)\<rparr>;
                    e = metric (record_rudp_retransmit (pr_retransmit_count result)) e;
                    e = metric (set_rudp_inflight_packets (inflight_packets (eg_queue e))) e
                in (e, result\<lparr>pr_egress_datagrams := pr_egress_datagrams result @
                         map (\<lambda>packet. retransmit_frame (pp_encoded_frame packet)) due\<rparr>))"

section \<open>What each handler keeps\<close>

lemma set_fallback_fields [simp]:
  "eg_config (fst (set_fallback reason er)) = eg_config (fst er)"
  "eg_queue (fst (set_fallback reason er)) = eg_queue (fst er)"
  "eg_ack_window (fst (set_fallback reason er)) = eg_ack_window (fst er)"
  "ps_rtt (eg_state (fst (set_fallback reason er))) = ps_rtt (eg_state (fst er))"
  "ps_ack_largest (eg_state (fst (set_fallback reason er))) = ps_ack_largest (eg_state (fst er))"
  "ps_ack_mask (eg_state (fst (set_fallback reason er))) = ps_ack_mask (eg_state (fst er))"
  "ps_lifecycle (eg_state (fst (set_fallback reason er))) = LsDraining"
  "ps_fallback_required (eg_state (fst (set_fallback reason er)))"
  "pr_inner_frames (snd (set_fallback reason er)) = pr_inner_frames (snd er)"
  "pr_egress_datagrams (snd (set_fallback reason er)) = pr_egress_datagrams (snd er)"
  "pr_fallback_required (snd (set_fallback reason er))"
  "pr_fallback_reason (snd (set_fallback reason er)) = reason"
  by (simp_all add: set_fallback_def Let_def mark_fallback_def split: prod.splits)

text \<open>The peer state repeats the window: what the engine acknowledges is what it has seen.\<close>

definition acks_in_sync :: "RudpEngine \<Rightarrow> bool" where
  "acks_in_sync e \<longleftrightarrow> ps_ack_largest (eg_state e) = aw_largest (eg_ack_window e) \<and>
     ps_ack_mask (eg_state e) = aw_mask (eg_ack_window e)"

definition rto_ok :: "RudpEngine \<Rightarrow> bool" where
  "rto_ok e \<longleftrightarrow> (let rto = re_rto_ms (ps_rtt (eg_state e)); c = eg_config e
     in rto = 200 \<or> rc_rto_min_ms c \<le> rto \<and> rto \<le> rc_rto_max_ms c)"

lemma observe_reports_window:
  "observe w p = (w', ob) \<Longrightarrow> ao_ack_largest ob = aw_largest w' \<and> ao_ack_mask ob = aw_mask w'"
  by (auto simp: observe_def Let_def split: if_splits)

lemma clamp_u32_bounds: "lo \<le> hi \<Longrightarrow> lo \<le> clamp_u32 v lo hi \<and> clamp_u32 v lo hi \<le> hi"
  by (auto simp: clamp_u32_def)

lemma rtt_update_rto:
  assumes "lo \<le> hi"
  shows "re_rto_ms (rtt_update s lo hi r) = re_rto_ms r \<or>
    lo \<le> re_rto_ms (rtt_update s lo hi r) \<and> re_rto_ms (rtt_update s lo hi r) \<le> hi"
  using clamp_u32_bounds [OF assms] by (simp add: rtt_update_def Let_def)

lemma process_data_fields:
  assumes "process_data h p now (e, r) = (e', r')"
  shows "eg_config e' = eg_config e" and "eg_queue e' = eg_queue e"
    and "ps_connection_id (eg_state e') = ps_connection_id (eg_state e)"
  using assms
  by (auto simp: process_data_def Let_def set_fallback_def mark_fallback_def split: prod.splits if_splits)

lemma process_data_window:
  assumes "process_data h p now (e, r) = (e', r')"
  shows "ps_lifecycle (eg_state e) \<noteq> LsEstablished \<and> eg_ack_window e' = eg_ack_window e \<and>
      ps_ack_largest (eg_state e') = ps_ack_largest (eg_state e) \<and>
      ps_ack_mask (eg_state e') = ps_ack_mask (eg_state e) \<and>
      pr_inner_frames r' = pr_inner_frames r \<or>
    ps_lifecycle (eg_state e) = LsEstablished \<and>
      eg_ack_window e' = fst (observe (eg_ack_window e) (rh_packet_number h)) \<and>
      acks_in_sync e' \<and>
      pr_inner_frames r' = pr_inner_frames r @
        (if ao_accepted (snd (observe (eg_ack_window e) (rh_packet_number h))) \<and> p \<noteq> []
         then [p] else [])"
proof (cases "ps_lifecycle (eg_state e) = LsEstablished")
  case True
  obtain w ob where o: "observe (eg_ack_window e) (rh_packet_number h) = (w, ob)" by fastforce
  from True assms observe_reports_window [OF o] show ?thesis
    by (auto simp: process_data_def Let_def o acks_in_sync_def split: if_splits)
next
  case False
  with assms set_fallback_fields show ?thesis
    by (auto simp: process_data_def Let_def set_fallback_def mark_fallback_def)
qed

lemma process_data_rtt:
  assumes "process_data h p now (e, r) = (e', r')"
  shows "ps_rtt (eg_state e') = ps_rtt (eg_state e) \<or>
    (\<exists>sample. ps_rtt (eg_state e') =
       rtt_update sample (rc_rto_min_ms (eg_config e)) (rc_rto_max_ms (eg_config e)) (ps_rtt (eg_state e)))"
proof (cases "ps_lifecycle (eg_state e) = LsEstablished")
  case True
  obtain w ob where o: "observe (eg_ack_window e) (rh_packet_number h) = (w, ob)" by fastforce
  show ?thesis
  proof (cases "ao_accepted ob \<and> rh_timestamp_ms h \<noteq> 0")
    case True2: True
    have "\<exists>sample. ps_rtt (eg_state (fst (process_data h p now (e, r)))) =
       rtt_update sample (rc_rto_min_ms (eg_config e)) (rc_rto_max_ms (eg_config e)) (ps_rtt (eg_state e))"
      unfolding process_data_def using True True2 by (simp add: Let_def o) blast
    with assms show ?thesis by simp
  next
    case False
    with True have "ps_rtt (eg_state (fst (process_data h p now (e, r)))) = ps_rtt (eg_state e)"
      by (auto simp: process_data_def Let_def o)
    with assms show ?thesis by simp
  qed
next
  case False
  then have "ps_rtt (eg_state (fst (process_data h p now (e, r)))) = ps_rtt (eg_state e)"
    by (simp add: process_data_def Let_def)
  with assms show ?thesis by simp
qed

lemma process_data_rto:
  assumes "process_data h p now (e, r) = (e', r')" and "rto_ok e"
    and "rc_rto_min_ms (eg_config e) \<le> rc_rto_max_ms (eg_config e)"
  shows "rto_ok e'"
  using process_data_rtt [OF assms(1)] process_data_fields(1) [OF assms(1)] assms(2)
    rtt_update_rto [OF assms(3), of _ "ps_rtt (eg_state e)"]
  unfolding rto_ok_def Let_def by metis

text \<open>
  A datagram either stops before the switch, leaving queue and window, or reaches the switch
  with its acknowledgements applied and everything else as before.
\<close>

definition switch_input :: "RudpHeader \<Rightarrow> u64 \<Rightarrow> RudpEngine \<Rightarrow> RudpEngine \<times> ProcessResult" where
  "switch_input h now e =
     (begin_packet h (upd_state (ps_last_recv_unix_ms_update (\<lambda>_. now)) e),
      new_process_result\<lparr>pr_consumed := True, pr_parsed := True\<rparr>)"

lemma begin_packet_fields [simp]:
  "eg_config (begin_packet h e) = eg_config e"
  "eg_ack_window (begin_packet h e) = eg_ack_window e"
  "eg_queue (begin_packet h e) = mark_acked (rh_ack_largest h) (rh_ack_mask h) (eg_queue e)"
  "ps_rtt (eg_state (begin_packet h e)) = ps_rtt (eg_state e)"
  "ps_lifecycle (eg_state (begin_packet h e)) = ps_lifecycle (eg_state e)"
  "ps_ack_largest (eg_state (begin_packet h e)) = ps_ack_largest (eg_state e)"
  "ps_ack_mask (eg_state (begin_packet h e)) = ps_ack_mask (eg_state e)"
  by (simp_all add: begin_packet_def Let_def)

definition same_transport :: "RudpEngine \<Rightarrow> RudpEngine \<Rightarrow> bool" where
  "same_transport e e' \<longleftrightarrow> eg_config e' = eg_config e \<and> eg_ack_window e' = eg_ack_window e \<and>
     ps_rtt (eg_state e') = ps_rtt (eg_state e) \<and>
     ps_ack_largest (eg_state e') = ps_ack_largest (eg_state e) \<and>
     ps_ack_mask (eg_state e') = ps_ack_mask (eg_state e)"

lemma set_fallback_keeps:
  "set_fallback reason (e, r) = (e', r') \<Longrightarrow>
     same_transport e e' \<and> eg_queue e' = eg_queue e \<and> pr_inner_frames r' = pr_inner_frames r \<and>
     ps_lifecycle (eg_state e') = LsDraining"
  by (auto simp: set_fallback_def mark_fallback_def Let_def same_transport_def)

lemma process_datagram_cases:
  assumes "process_datagram d now e = (e', r')"
  obtains (stopped) "same_transport e e'" "eg_queue e' = eg_queue e" "pr_inner_frames r' = []"
  | (switched) h p where "decode_packet d = Some (h, p)" "rh_version h = 1"
      "process_type h p now (switch_input h now e) = (e', r')"
proof (cases "\<exists>h p. decode_packet d = Some (h, p) \<and> rh_version h = 1 \<and>
      process_type h p now (switch_input h now e) = (e', r')")
  case True
  then show ?thesis using switched by blast
next
  case False
  then have "same_transport e e' \<and> eg_queue e' = eg_queue e \<and> pr_inner_frames r' = []"
    using assms
    by (auto simp: process_datagram_def Let_def switch_input_def new_process_result_def
        same_transport_def split: if_splits option.splits prod.splits
        dest!: set_fallback_keeps)
  then show ?thesis using stopped by blast
qed

lemma process_type_cases:
  assumes "process_type h p now (e, r) = (e', r')"
  obtains (control) "same_transport e e'" "eg_queue e' = eg_queue e"
      "pr_inner_frames r' = pr_inner_frames r"
  | (data) "process_data h p now (e, r) = (e', r')"
      "rh_type h \<notin> {kHello, kHelloAck, kClose, kPing}"
proof (cases "rh_type h \<in> {kHello, kHelloAck, kClose, kPing}")
  case True
  then have "same_transport e e' \<and> eg_queue e' = eg_queue e \<and> pr_inner_frames r' = pr_inner_frames r"
    using assms
    by (auto simp: process_type_def Let_def same_transport_def split: if_splits
        dest!: set_fallback_keeps)
  then show ?thesis using control by blast
next
  case False
  with assms show ?thesis using data by (auto simp: process_type_def)
qed

lemma switch_input_fields:
  "same_transport e (fst (switch_input h now e))"
  "eg_queue (fst (switch_input h now e)) = mark_acked (rh_ack_largest h) (rh_ack_mask h) (eg_queue e)"
  "ps_lifecycle (eg_state (fst (switch_input h now e))) = ps_lifecycle (eg_state e)"
  "pr_inner_frames (snd (switch_input h now e)) = []"
  by (simp_all add: switch_input_def same_transport_def new_process_result_def)

lemma process_datagram_queue:
  assumes "process_datagram d now e = (e', r)"
  shows "eg_queue e' = eg_queue e \<or> (\<exists>l m. eg_queue e' = mark_acked l m (eg_queue e))"
  using assms
proof (cases rule: process_datagram_cases)
  case (switched h p)
  obtain e1 r1 where s: "switch_input h now e = (e1, r1)" by fastforce
  with switch_input_fields [where e = e and h = h and now = now]
  have q: "eg_queue e1 = mark_acked (rh_ack_largest h) (rh_ack_mask h) (eg_queue e)" by simp
  from switched(3) s have "process_type h p now (e1, r1) = (e', r)" by simp
  then have "eg_queue e' = eg_queue e1"
    by (cases rule: process_type_cases) (auto dest: process_data_fields)
  with q show ?thesis by auto
qed simp

lemma process_datagram_config:
  assumes "process_datagram d now e = (e', r)"
  shows "eg_config e' = eg_config e"
  using assms
proof (cases rule: process_datagram_cases)
  case (switched h p)
  obtain e1 r1 where s: "switch_input h now e = (e1, r1)" by fastforce
  with switch_input_fields(1) [where e = e and h = h and now = now] have c: "eg_config e1 = eg_config e"
    by (simp add: same_transport_def)
  from switched(3) s have "process_type h p now (e1, r1) = (e', r)" by simp
  then have "eg_config e' = eg_config e1"
    by (cases rule: process_type_cases) (auto simp: same_transport_def dest: process_data_fields)
  with c show ?thesis by simp
qed (simp add: same_transport_def)

lemma process_datagram_rto:
  assumes "process_datagram d now e = (e', r)" and ok: "rto_ok e"
    and le: "rc_rto_min_ms (eg_config e) \<le> rc_rto_max_ms (eg_config e)"
  shows "rto_ok e'"
  using assms(1)
proof (cases rule: process_datagram_cases)
  case stopped
  with ok show ?thesis by (simp add: same_transport_def rto_ok_def)
next
  case (switched h p)
  obtain e1 r1 where s: "switch_input h now e = (e1, r1)" by fastforce
  with switch_input_fields(1) [where e = e and h = h and now = now] ok le
  have ok1: "rto_ok e1" "rc_rto_min_ms (eg_config e1) \<le> rc_rto_max_ms (eg_config e1)"
    by (simp_all add: same_transport_def rto_ok_def)
  from switched(3) s have "process_type h p now (e1, r1) = (e', r)" by simp
  then show ?thesis
  proof (cases rule: process_type_cases)
    case control
    with ok1 show ?thesis by (simp add: same_transport_def rto_ok_def)
  next
    case data
    with ok1 show ?thesis by (blast intro: process_data_rto)
  qed
qed

text \<open>
  The receive side of \<open>process_datagram\<close>: the window moves, and a frame is delivered, only
  for a data packet in the established state, and then by \<open>observe\<close>.
\<close>

lemma process_datagram_window:
  assumes "process_datagram d now e = (e', r)"
  obtains (idle) "eg_ack_window e' = eg_ack_window e" "pr_inner_frames r = []"
      "acks_in_sync e' = acks_in_sync e"
  | (observed) h p where "decode_packet d = Some (h, p)"
      "ps_lifecycle (eg_state e) = LsEstablished"
      "rh_type h \<notin> {kHello, kHelloAck, kClose, kPing}"
      "eg_ack_window e' = fst (observe (eg_ack_window e) (rh_packet_number h))"
      "acks_in_sync e'"
      "pr_inner_frames r =
        (if ao_accepted (snd (observe (eg_ack_window e) (rh_packet_number h))) \<and> p \<noteq> []
         then [p] else [])"
  using assms
proof (cases rule: process_datagram_cases)
  case stopped
  then show ?thesis using idle by (simp add: same_transport_def acks_in_sync_def)
next
  case (switched h p)
  obtain e1 r1 where s: "switch_input h now e = (e1, r1)" by fastforce
  note f = switch_input_fields [where e = e and h = h and now = now, unfolded s same_transport_def fst_conv snd_conv]
  from switched(3) s have "process_type h p now (e1, r1) = (e', r)" by simp
  then show ?thesis
  proof (cases rule: process_type_cases)
    case control
    with f show ?thesis using idle by (simp add: same_transport_def acks_in_sync_def)
  next
    case data
    from process_data_window [OF data(1)] f show ?thesis
      using idle observed [OF switched(1) _ data(2)]
      by (elim disjE) (simp_all add: acks_in_sync_def)
  qed
qed

section \<open>Runs of an engine\<close>

datatype EngineOp =
    OpDatagram bytes u64
  | OpPoll u64
  | OpReliable bytes u8 u64
  | OpUnreliable bytes u8 u64
  | OpHello u32 u64
  | OpClose u64
  | OpReset

fun engine_apply :: "EngineOp \<Rightarrow> RudpEngine \<Rightarrow> RudpEngine" where
  "engine_apply (OpDatagram d now) e = fst (process_datagram d now e)"
| "engine_apply (OpPoll now) e = fst (poll now e)"
| "engine_apply (OpReliable p ch now) e = fst (queue_reliable_payload p ch now e)"
| "engine_apply (OpUnreliable p ch now) e = fst (queue_unreliable_payload p ch now e)"
| "engine_apply (OpHello cid now) e = fst (make_hello cid now e)"
| "engine_apply (OpClose now) e = fst (make_close now e)"
| "engine_apply OpReset e = engine_reset e"

fun run_ops :: "EngineOp list \<Rightarrow> RudpEngine \<Rightarrow> RudpEngine" where
  "run_ops [] e = e"
| "run_ops (op # ops) e = run_ops ops (engine_apply op e)"

text \<open>The frames a run hands to the application, with the packet number each came in.\<close>

fun op_delivers :: "EngineOp \<Rightarrow> RudpEngine \<Rightarrow> (u32 \<times> bytes) list" where
  "op_delivers (OpDatagram d now) e =
     map (Pair (rh_packet_number (rudp_read_header d))) (pr_inner_frames (snd (process_datagram d now e)))"
| "op_delivers _ e = []"

fun deliveries :: "EngineOp list \<Rightarrow> RudpEngine \<Rightarrow> (u32 \<times> bytes) list" where
  "deliveries [] e = []"
| "deliveries (op # ops) e = op_delivers op e @ deliveries ops (engine_apply op e)"

lemma queue_reliable_cases:
  assumes "queue_reliable_payload p ch now e = (e', out)"
  obtains (refused) "out = None" "eg_queue e' = eg_queue e" "eg_state e' = eg_state e"
      "eg_config e' = eg_config e" "eg_ack_window e' = eg_ack_window e"
  | (sent) f where "out = Some f" "eg_config e' = eg_config e" "eg_ack_window e' = eg_ack_window e"
      "f = make_packet e kData 0 ch (ps_next_packet_number (eg_state e)) now p"
      "eg_queue e' = rq_push (ps_next_packet_number (eg_state e)) now f (eg_queue e)"
      "eg_state e' = eg_state e\<lparr>ps_next_packet_number := ps_next_packet_number (eg_state e) + 1,
         ps_last_send_unix_ms := now\<rparr>"
      "ps_lifecycle (eg_state e) = LsEstablished" "p \<noteq> []"
      "length p \<le> rc_mtu_payload_bytes (eg_config e)"
      "inflight_packets (eg_queue e) < rc_max_inflight_packets (eg_config e)"
      "inflight_bytes (eg_queue e) + length p \<le> rc_max_inflight_bytes (eg_config e)"
  using assms
  by (auto simp: queue_reliable_payload_def Let_def make_packet_def split: if_splits)

lemma queue_unreliable_fields:
  "eg_queue (fst (queue_unreliable_payload p ch now e)) = eg_queue e"
  "eg_config (fst (queue_unreliable_payload p ch now e)) = eg_config e"
  "eg_ack_window (fst (queue_unreliable_payload p ch now e)) = eg_ack_window e"
  "ps_rtt (eg_state (fst (queue_unreliable_payload p ch now e))) = ps_rtt (eg_state e)"
  "ps_lifecycle (eg_state (fst (queue_unreliable_payload p ch now e))) = ps_lifecycle (eg_state e)"
  by (simp_all add: queue_unreliable_payload_def Let_def)

lemma poll_fields:
  "eg_queue (fst (poll now e)) = eg_queue e \<or>
     eg_queue (fst (poll now e)) = fst (collect_timeouts now (re_rto_ms (ps_rtt (eg_state e))) 16 (eg_queue e))"
  "eg_config (fst (poll now e)) = eg_config e"
  "eg_ack_window (fst (poll now e)) = eg_ack_window e"
  "ps_rtt (eg_state (fst (poll now e))) = ps_rtt (eg_state e)"
  "ps_lifecycle (eg_state (fst (poll now e))) \<in> {ps_lifecycle (eg_state e), LsDraining}"
  by (auto simp: poll_def Let_def split: prod.splits)

lemmas engine_op_defs = make_hello_def make_close_def engine_reset_def Let_def peer_state_reset_def

text \<open>The invariant of the send side: the queue is well formed and within its limits.\<close>

definition inflight_ok :: "RudpEngine \<Rightarrow> bool" where
  "inflight_ok e \<longleftrightarrow> rq_inv (eg_queue e) \<and>
     inflight_packets (eg_queue e) \<le> rc_max_inflight_packets (eg_config e) \<and>
     inflight_bytes (eg_queue e) \<le> rc_max_inflight_bytes (eg_config e) + kRudpHeaderBytes"

lemma make_packet_length [simp]: "length (make_packet e t f ch n now p) = kRudpHeaderBytes + length p"
  by (simp add: make_packet_def)

lemma inflight_ok_datagram:
  assumes "inflight_ok e"
  shows "inflight_ok (fst (process_datagram d now e))"
proof -
  obtain e' r where p: "process_datagram d now e = (e', r)" by fastforce
  have "inflight_ok e'"
    using process_datagram_queue [OF p] process_datagram_config [OF p] assms
    by (auto simp: inflight_ok_def rq.invar_ack
        intro: order_trans [OF rq.ack_shrinks(1)] order_trans [OF rq.ack_shrinks(2)])
  with p show ?thesis by simp
qed

lemma inflight_ok_reliable:
  assumes "inflight_ok e"
  shows "inflight_ok (fst (queue_reliable_payload p ch now e))"
proof -
  obtain e' out where q: "queue_reliable_payload p ch now e = (e', out)" by fastforce
  then have "inflight_ok e'"
  proof (cases rule: queue_reliable_cases)
    case refused
    with assms show ?thesis by (simp add: inflight_ok_def)
  next
    case (sent f)
    have len: "length f = kRudpHeaderBytes + length p" using sent(4) by simp
    then have ne: "f \<noteq> []" by (auto simp: kRudpHeaderBytes_def)
    with len sent assms show ?thesis
      by (simp add: inflight_ok_def rq.invar_push rq.push_grows)
  qed
  with q show ?thesis by simp
qed

lemma inflight_ok_poll:
  assumes "inflight_ok e"
  shows "inflight_ok (fst (poll now e))"
  using assms poll_fields(1,2) [of now e]
  by (auto simp: inflight_ok_def rq.invar_timeouts rq.timeouts_keep)

lemma inflight_ok_apply: "inflight_ok e \<Longrightarrow> inflight_ok (engine_apply op e)"
proof (cases op)
  case OpReset
  assume "inflight_ok e"
  then show ?thesis
    by (simp add: OpReset inflight_ok_def engine_op_defs rq_reset_def rq_inv_def
        inflight_packets_def inflight_bytes_def)
qed (simp_all add: inflight_ok_datagram inflight_ok_poll inflight_ok_reliable,
    simp_all add: inflight_ok_def queue_unreliable_fields engine_op_defs)

lemma config_apply: "eg_config (engine_apply op e) = eg_config e"
proof (cases op)
  case (OpDatagram d now)
  then show ?thesis
    by (simp add: process_datagram_config [OF prod.collapse [symmetric]])
next
  case (OpReliable p ch now)
  obtain e' out where "queue_reliable_payload p ch now e = (e', out)" by fastforce
  with OpReliable show ?thesis by (auto elim: queue_reliable_cases)
qed (simp_all add: poll_fields queue_unreliable_fields engine_op_defs)

lemma run_ops_inv:
  assumes "\<And>op e. P e \<Longrightarrow> P (engine_apply op e)"
  shows "P e \<Longrightarrow> P (run_ops ops e)"
  by (induction ops arbitrary: e) (simp_all add: assms)

lemma config_run: "eg_config (run_ops ops e) = eg_config e"
  by (induction ops arbitrary: e) (simp_all add: config_apply)

lemma inflight_ok_new: "inflight_ok (new_rudp_engine c)"
  by (simp add: inflight_ok_def new_rudp_engine_def inflight_packets_def inflight_bytes_def)
    (simp add: new_retransmission_queue_def)

text \<open>C13. Flow control. Whatever sequence of datagrams, polls, sends, handshakes, closes and resets
  an engine with configuration \<open>c\<close> goes through, at most \<open>max_inflight_packets\<close> packets are
  in flight; the bytes in flight, which are exactly the bytes of the pending frames, exceed
  \<open>max_inflight_bytes\<close> by at most one packet header, since the admission test counts the
  payload of the new packet and the queue counts its whole frame.
\<close>

theorem engine_inflight_bounded:
  "let q = eg_queue (run_ops ops (new_rudp_engine c))
   in inflight_packets q \<le> rc_max_inflight_packets c \<and>
      inflight_bytes q \<le> rc_max_inflight_bytes c + kRudpHeaderBytes \<and>
      inflight_bytes q = sum_list (map (length \<circ> snd) (rq_view q))"
proof -
  have "inflight_ok (run_ops ops (new_rudp_engine c))"
    by (rule run_ops_inv [where P = inflight_ok]) (simp_all add: inflight_ok_apply inflight_ok_new)
  moreover have "eg_config (run_ops ops (new_rudp_engine c)) = c"
    by (simp add: config_run new_rudp_engine_def)
  ultimately show ?thesis
    using rq.size_view unfolding inflight_ok_def Let_def by metis
qed


lemma make_packet_ne [simp]: "make_packet e t f ch n now p \<noteq> []"
  using make_packet_length [of e t f ch n now p]
  by (auto simp: kRudpHeaderBytes_def simp del: make_packet_length)

text \<open>Deliveries follow the receive window, so its at-most-once lemma carries over.\<close>

abbreviation window_obs :: "AckWindow \<Rightarrow> u32 \<Rightarrow> AckWindow \<times> bool" where
  "window_obs w p \<equiv> map_prod id ao_accepted (observe w p)"

lemma window_apply:
  assumes "op \<noteq> OpReset" and "\<And>d now. op \<noteq> OpDatagram d now"
  shows "eg_ack_window (engine_apply op e) = eg_ack_window e \<and> op_delivers op e = []"
proof (cases op)
  case (OpReliable p ch now)
  obtain e' out where "queue_reliable_payload p ch now e = (e', out)" by fastforce
  with OpReliable show ?thesis by (auto elim: queue_reliable_cases)
qed (use assms in \<open>simp_all add: poll_fields queue_unreliable_fields engine_op_defs\<close>)

lemma deliveries_follow_window:
  assumes "OpReset \<notin> set ops"
  shows "\<exists>ps. subseq (map fst (deliveries ops e)) (accepted_run window_obs (eg_ack_window e) ps)"
  using assms
proof (induction ops arbitrary: e)
  case Nil
  then show ?case by simp
next
  case (Cons op ops)
  then obtain ps where ps: "subseq (map fst (deliveries ops (engine_apply op e)))
      (accepted_run window_obs (eg_ack_window (engine_apply op e)) ps)"
    using Cons.IH Cons.prems by (meson list.set_intros(2))
  show ?case
  proof (cases op)
    case (OpDatagram d now)
    obtain e' r where p: "process_datagram d now e = (e', r)" by fastforce
    then show ?thesis
    proof (cases rule: process_datagram_window)
      case idle
      with OpDatagram ps p show ?thesis by (intro exI [of _ ps]) (simp add: id_def)
    next
      case (observed h payload)
      have "rudp_read_header d = h" using decode_packet_SomeD(1) [OF observed(1)] by simp
      moreover obtain w' ob where "observe (eg_ack_window e) (rh_packet_number h) = (w', ob)"
        by fastforce
      ultimately have "subseq (map fst (deliveries (op # ops) e))
          (accepted_run window_obs (eg_ack_window e) (rh_packet_number h # ps))"
        using OpDatagram ps p observed by (auto simp: id_def)
      then show ?thesis by blast
    qed
  qed (use ps Cons.prems window_apply [of op e] in \<open>auto simp: id_def intro!: exI [of _ ps]\<close>)
qed

text \<open>
  C14. At-most-once delivery. Over any run of an engine without a reset, no two frames handed
  to the application come from the same packet number, however the network duplicates,
  reorders or forges datagrams and whatever local operations happen in between.
\<close>

theorem engine_delivers_at_most_once:
  assumes "OpReset \<notin> set ops"
  shows "distinct (map fst (deliveries ops (new_rudp_engine c)))"
proof -
  obtain ps where "subseq (map fst (deliveries ops (new_rudp_engine c)))
      (accepted_run window_obs new_ack_window ps)"
    using deliveries_follow_window [OF assms, of "new_rudp_engine c"]
    by (auto simp: new_rudp_engine_def)
  then show ?thesis using rw.accepted_once distinct_nthsI by (metis subseq_conv_nths)
qed

definition hello_datagram :: bytes where
  "hello_datagram = encode_packet (default_rudp_header\<lparr>rh_type := kHello, rh_connection_id := 9\<rparr>) []"

definition data_datagram :: "u32 \<Rightarrow> bytes \<Rightarrow> bytes" where
  "data_datagram n p = encode_packet
     (default_rudp_header\<lparr>rh_connection_id := 9, rh_packet_number := n\<rparr>) p"

definition duplicated_run :: "EngineOp list" where
  "duplicated_run = [OpDatagram hello_datagram 100, OpDatagram (data_datagram 2 [5]) 101,
     OpDatagram (data_datagram 2 [5]) 104]"

definition small_rudp_config :: RudpConfig where
  "small_rudp_config =
     \<lparr>rc_handshake_timeout_ms = 1500, rc_idle_timeout_ms = 10000, rc_ack_delay_ms = 10,
      rc_rto_min_ms = 50, rc_rto_max_ms = 2000, rc_max_inflight_packets = 4,
      rc_max_inflight_bytes = 64, rc_mtu_payload_bytes = 16\<rparr>"

theorem engine_delivers_at_most_once_witness:
  "distinct (map fst (deliveries duplicated_run (new_rudp_engine small_rudp_config))) \<and>
   deliveries duplicated_run (new_rudp_engine small_rudp_config) = [(2, [5])]"
proof
  show "distinct (map fst (deliveries duplicated_run (new_rudp_engine small_rudp_config)))"
    by (rule engine_delivers_at_most_once) (simp add: duplicated_run_def)
  show "deliveries duplicated_run (new_rudp_engine small_rudp_config) = [(2, [5])]"
    by code_simp
qed

lemma rto_ok_apply:
  assumes "rto_ok e" and "rc_rto_min_ms (eg_config e) \<le> rc_rto_max_ms (eg_config e)"
  shows "rto_ok (engine_apply op e)"
proof (cases op)
  case (OpDatagram d now)
  with assms process_datagram_rto [OF prod.collapse [symmetric]] show ?thesis by simp
next
  case (OpReliable p ch now)
  obtain e' out where "queue_reliable_payload p ch now e = (e', out)" by fastforce
  with OpReliable assms show ?thesis by (auto simp: rto_ok_def elim: queue_reliable_cases)
next
  case OpReset
  then show ?thesis
    by (simp add: rto_ok_def engine_op_defs new_peer_state_def new_rtt_estimator_def)
qed (use assms in \<open>simp_all add: rto_ok_def poll_fields queue_unreliable_fields engine_op_defs\<close>)

text \<open>Retransmission timeout. With \<open>rto_min_ms \<le> rto_max_ms\<close>, the timeout of an engine is
  at every moment the initial 200 ms or within the configured bounds, for every sequence of
  timestamps, including those whose 32-bit arithmetic wraps.
\<close>

theorem engine_rto_in_range:
  assumes "rc_rto_min_ms c \<le> rc_rto_max_ms c"
  shows "let rto = re_rto_ms (ps_rtt (eg_state (run_ops ops (new_rudp_engine c))))
    in rto = 200 \<or> rc_rto_min_ms c \<le> rto \<and> rto \<le> rc_rto_max_ms c"
proof -
  let ?P = "\<lambda>e. eg_config e = c \<and> rto_ok e"
  have "?P (run_ops ops (new_rudp_engine c))"
  proof (rule run_ops_inv [where P = ?P])
    fix op e assume "?P e"
    with assms show "?P (engine_apply op e)" using config_apply rto_ok_apply by metis
  next
    show "?P (new_rudp_engine c)"
      by (simp add: new_rudp_engine_def rto_ok_def new_peer_state_def new_rtt_estimator_def)
  qed
  then show ?thesis by (auto simp: rto_ok_def Let_def)
qed


theorem engine_rto_in_range_witness:
  "let rto = re_rto_ms (ps_rtt (eg_state (run_ops [OpHello 7 1] (new_rudp_engine default_rudp_config))))
   in rto = 200 \<or> 50 \<le> rto \<and> rto \<le> 2000"
  using engine_rto_in_range [of default_rudp_config "[OpHello 7 1]"]
  by (simp add: default_rudp_config_def)

end
