(* ===== verification/Rudp_Protocol.thy ===== *)
theory Rudp_Protocol
  imports Rudp_Engine
begin

text \<open>
  Properties of two RUDP engines that talk to each other: what an acknowledgement says, that a
  reliable payload arrives and its acknowledgement releases it, what a retransmitted datagram
  is, and that nothing new passes without a handshake.
\<close>

section \<open>Acknowledgements\<close>

text \<open>C15. What an acknowledgement means. When the receiver's window represents the set \<open>R\<close> of
  accepted packet numbers, the acknowledgement it sends makes the sender drop exactly the
  packets up to the largest number that are in \<open>R\<close> or at least 64 below the largest. The
  second case is a loss: the sender drops a packet that the receiver may never have accepted.
\<close>

theorem is_acked_by_mask_exact:
  assumes "window_rep w R" and "aw_initialized w"
  shows "is_acked_by_mask n (aw_largest w) (aw_mask w) \<longleftrightarrow>
    n \<le> aw_largest w \<and> (unat n \<in> R \<or> unat n + 64 \<le> unat (aw_largest w))"
proof -
  let ?l = "aw_largest w"
  have R: "unat ?l \<in> R" "\<And>d. d < 64 \<Longrightarrow> bit (aw_mask w) d \<longleftrightarrow> d \<le> unat ?l \<and> unat ?l - d \<in> R"
    using assms by (simp_all add: window_rep_def)
  consider "n > ?l" | "n = ?l" | (lt) "n < ?l" by fastforce
  then show ?thesis
  proof cases
    case lt
    then have sub: "unat (?l - n) = unat ?l - unat n" and le: "unat n < unat ?l"
      by (simp_all add: unat_sub_le order_less_imp_le word_less_nat_alt [symmetric])
    then have ge: "?l - n \<ge> 64 \<longleftrightarrow> unat n + 64 \<le> unat ?l"
      by (auto simp: word_le_nat_alt)
    show ?thesis
    proof (cases "?l - n \<ge> 64")
      case True
      with lt ge show ?thesis by (auto simp: is_acked_by_mask_def)
    next
      case False
      with ge sub have "unat (?l - n) < 64" by simp
      then have "bit (aw_mask w) (unat (?l - n)) \<longleftrightarrow> unat n \<in> R"
        using R(2) le by (simp add: sub)
      with False ge lt show ?thesis
        by (auto simp: is_acked_by_mask_def Let_def and_exp_eq_0_iff_not_bit)
    qed
  qed (use R(1) in \<open>auto simp: is_acked_by_mask_def\<close>)
qed

theorem is_acked_by_mask_exact_witness:
  "let w = fst (observe (fst (observe new_ack_window 1)) 70)
   in is_acked_by_mask 2 (aw_largest w) (aw_mask w) \<and> \<not> is_acked_by_mask 69 (aw_largest w) (aw_mask w)"
proof -
  let ?w = "fst (observe (fst (observe new_ack_window 1)) 70)"
  have 1: "window_rep (fst (observe new_ack_window 1)) {1}"
    using observe_cases [of new_ack_window "{}" 1 "fst (observe new_ack_window 1)"
        "snd (observe new_ack_window 1)"]
    by (simp add: window_rep_def new_ack_window_def observe_def)
  have w: "?w = \<lparr>aw_initialized = True, aw_largest = 70, aw_mask = 1\<rparr>"
    by code_simp
  have "window_rep ?w {1, 70}"
    using window_rep_newer [OF 1, of 70] unfolding w
    by (simp add: observe_def new_ack_window_def Let_def insert_commute)
  then show ?thesis
    using is_acked_by_mask_exact [of ?w "{1, 70}" 2] is_acked_by_mask_exact [of ?w "{1, 70}" 69]
    by (simp add: w Let_def)
qed


section \<open>A reliable payload and its acknowledgement\<close>

lemma looks_like_make_packet [simp]: "looks_like_rudp (make_packet e t f ch n now p)"
  by (simp add: make_packet_def encode_packet_magic default_rudp_header_def)

lemma decode_make_packet:
  assumes "length p \<le> 0xFFFF"
  obtains h where "decode_packet (make_packet e t f ch n now p) = Some (h, p)"
    "rh_version h = 1" "rh_type h = t" "rh_flags h = f" "rh_packet_number h = n"
    "rh_connection_id h = ps_connection_id (eg_state e)"
    "rh_ack_largest h = ps_ack_largest (eg_state e)" "rh_ack_mask h = ps_ack_mask (eg_state e)"
  using that assms
  by (simp add: make_packet_def decode_encode_packet default_rudp_header_def)

lemma kData_not_control [simp]: "kData \<notin> {kHello, kHelloAck, kClose, kPing}"
  by (simp add: kData_def kHello_def kHelloAck_def kClose_def kPing_def)

text \<open>A datagram of the same connection reaches the switch.\<close>

lemma process_datagram_valid:
  assumes "looks_like_rudp d" and "decode_packet d = Some (h, p)" and "rh_version h = 1"
    and "rh_connection_id h = ps_connection_id (eg_state e)"
  shows "process_datagram d now e = process_type h p now (switch_input h now e)"
  using assms by (simp add: process_datagram_def switch_input_def Let_def)

lemma process_type_data:
  "rh_type h = kData \<Longrightarrow> process_type h p now er = process_data h p now er"
  by (cases er) (simp add: process_type_def kData_def kHello_def kHelloAck_def kClose_def kPing_def)

lemma observe_accepted_acks:
  assumes "observe w n = (w', ob)" and "ao_accepted ob"
  shows "is_acked_by_mask n (ao_ack_largest ob) (ao_ack_mask ob)"
proof -
  have "is_acked_by_mask n n m" for m by (simp add: is_acked_by_mask_def)
  moreover have "is_acked_by_mask n (aw_largest w) (aw_mask w OR push_bit (unat (aw_largest w - n)) 1)"
    if "\<not> n > aw_largest w" "aw_largest w - n < 64"
  proof -
    have "unat (aw_largest w - n) < 64" using that(2) by (simp add: word_less_nat_alt)
    with that show ?thesis
      by (auto simp: is_acked_by_mask_def Let_def and_exp_eq_0_iff_not_bit bit_mask_or)
  qed
  ultimately show ?thesis
    using assms by (auto simp: observe_def Let_def not_le split: if_splits)
qed

lemma process_data_accepts:
  assumes "ps_lifecycle (eg_state e) = LsEstablished"
    and "observe (eg_ack_window e) (rh_packet_number h) = (w, ob)" and "ao_accepted ob"
    and "payload \<noteq> []" and "rh_flags h AND kFlagAckOnly = 0"
    and "now \<ge> ps_last_ack_emit_unix_ms (eg_state e) + ucast (rc_ack_delay_ms (eg_config e))"
    and "process_data h payload now (e, r) = (e', r')"
  shows "pr_inner_frames r' = pr_inner_frames r @ [payload] \<and>
    pr_egress_datagrams r' = pr_egress_datagrams r @
      [make_packet (upd_state (\<lambda>s. s\<lparr>ps_ack_largest := ao_ack_largest ob,
          ps_ack_mask := ao_ack_mask ob\<rparr>) (e\<lparr>eg_ack_window := w\<rparr>))
        kData kFlagAckOnly (rh_channel h) 0 now []]"
  using assms by (auto simp: process_data_def Let_def split: if_splits)


lemma switch_input_peer:
  "ps_last_ack_emit_unix_ms (eg_state (fst (switch_input h now e))) =
     ps_last_ack_emit_unix_ms (eg_state e)"
  "rh_connection_id h = ps_connection_id (eg_state e) \<Longrightarrow>
     ps_connection_id (eg_state (fst (switch_input h now e))) = ps_connection_id (eg_state e)"
  "pr_egress_datagrams (snd (switch_input h now e)) = []"
  by (simp_all add: switch_input_def begin_packet_def Let_def new_process_result_def)

text \<open>The receiver's side: the payload is delivered and the answer acknowledges its number.\<close>

lemma receive_reliable:
  assumes d: "d = make_packet s kData 0 ch n now payload"
    and pl: "payload \<noteq> []" "length payload \<le> 0xFFFF"
    and r: "ps_lifecycle (eg_state r) = LsEstablished"
      "ps_connection_id (eg_state r) = ps_connection_id (eg_state s)"
    and fresh: "ao_accepted (snd (observe (eg_ack_window r) n))"
    and due: "now' \<ge> ps_last_ack_emit_unix_ms (eg_state r) + ucast (rc_ack_delay_ms (eg_config r))"
  obtains r' res r1 where "process_datagram d now' r = (r', res)"
    "pr_inner_frames res = [payload]"
    "pr_egress_datagrams res = [make_packet r1 kData kFlagAckOnly (rh_channel (rudp_read_header d)) 0 now' []]"
    "ps_connection_id (eg_state r1) = ps_connection_id (eg_state s)"
    "is_acked_by_mask n (ps_ack_largest (eg_state r1)) (ps_ack_mask (eg_state r1))"
proof -
  obtain h where h: "decode_packet d = Some (h, payload)" "rh_version h = 1" "rh_type h = kData"
      "rh_flags h = 0" "rh_packet_number h = n" "rh_connection_id h = ps_connection_id (eg_state s)"
    using decode_make_packet [OF pl(2), of s kData 0 ch n now thesis] d by blast
  have rd: "rudp_read_header d = h" using decode_packet_SomeD(1) [OF h(1)] by simp
  obtain e1 r1 where s: "switch_input h now' r = (e1, r1)" by fastforce
  note f = switch_input_fields [where e = r and h = h and now = now', unfolded s same_transport_def
      fst_conv snd_conv]
  note g = switch_input_peer [where e = r and h = h and now = now', unfolded s fst_conv snd_conv]
  obtain w ob where o: "observe (eg_ack_window r) n = (w, ob)" by fastforce
  obtain r' res where p: "process_data h payload now' (e1, r1) = (r', res)" by fastforce
  have pd: "process_datagram d now' r = (r', res)"
    using process_datagram_valid [OF _ h(1,2), of r now'] d h r s p
    by (simp add: process_type_data)
  have acc: "ao_accepted ob" using fresh o by simp
  let ?r1 = "upd_state (\<lambda>s. s\<lparr>ps_ack_largest := ao_ack_largest ob,
          ps_ack_mask := ao_ack_mask ob\<rparr>) (e1\<lparr>eg_ack_window := w\<rparr>)"
  have pa: "pr_inner_frames res = pr_inner_frames r1 @ [payload] \<and>
    pr_egress_datagrams res = pr_egress_datagrams r1 @
      [make_packet ?r1 kData kFlagAckOnly (rh_channel h) 0 now' []]"
    using f g r due o acc pl h by (intro process_data_accepts [OF _ _ _ _ _ _ p]) simp_all
  with f g h r observe_accepted_acks [OF o acc] pd rd show ?thesis
    by (intro that [of r' res ?r1]) simp_all
qed

text \<open>C16. A reliable payload arrives and its acknowledgement releases it. A sender \<open>s\<close>, in any
  state its operations can reach, queues a payload and gets the datagram \<open>d\<close>; \<open>d\<close> is then in
  its retransmission queue. An established receiver of the same connection that has not seen
  the packet number delivers exactly that payload and, its acknowledgement delay being over,
  answers with one datagram; processing this answer removes \<open>d\<close> from the sender's queue.
\<close>

theorem reliable_payload_delivered_and_released:
  assumes s: "s = run_ops ops (new_rudp_engine c)" and mtu: "rc_mtu_payload_bytes c \<le> 0xFFFF"
    and sent: "queue_reliable_payload payload ch now s = (s', Some d)"
    and r: "ps_lifecycle (eg_state r) = LsEstablished"
      "ps_connection_id (eg_state r) = ps_connection_id (eg_state s)"
    and fresh: "ao_accepted (snd (observe (eg_ack_window r) (ps_next_packet_number (eg_state s))))"
    and due: "now' \<ge> ps_last_ack_emit_unix_ms (eg_state r) + ucast (rc_ack_delay_ms (eg_config r))"
  shows "(ps_next_packet_number (eg_state s), d) \<in> set (rq_view (eg_queue s')) \<and>
    (\<exists>a. pr_inner_frames (snd (process_datagram d now' r)) = [payload] \<and>
      pr_egress_datagrams (snd (process_datagram d now' r)) = [a] \<and>
      (ps_next_packet_number (eg_state s), d) \<notin>
        set (rq_view (eg_queue (fst (process_datagram a now'' s')))))"
proof -
  let ?n = "ps_next_packet_number (eg_state s)"
  have inv: "rq_inv (eg_queue s)" and cfg: "eg_config s = c"
    using run_ops_inv [of inflight_ok, OF inflight_ok_apply inflight_ok_new] s
    by (auto simp: inflight_ok_def config_run new_rudp_engine_def)
  from sent obtain q: "d = make_packet s kData 0 ch ?n now payload"
      "eg_queue s' = rq_push ?n now d (eg_queue s)" "payload \<noteq> []"
      "ps_connection_id (eg_state s') = ps_connection_id (eg_state s)"
      and len: "length payload \<le> rc_mtu_payload_bytes c"
    by (cases rule: queue_reliable_cases) (auto simp: cfg)
  from len mtu have len: "length payload \<le> 0xFFFF" by simp
  from receive_reliable [OF q(1,3) len r fresh due] obtain r' res r1 where
    p: "process_datagram d now' r = (r', res)" "pr_inner_frames res = [payload]"
      "pr_egress_datagrams res =
        [make_packet r1 kData kFlagAckOnly (rh_channel (rudp_read_header d)) 0 now' []]"
      "ps_connection_id (eg_state r1) = ps_connection_id (eg_state s)"
      "is_acked_by_mask ?n (ps_ack_largest (eg_state r1)) (ps_ack_mask (eg_state r1))" .
  let ?a = "make_packet r1 kData kFlagAckOnly (rh_channel (rudp_read_header d)) 0 now' []"
  have inv': "rq_inv (eg_queue s')" using inv q(2) by (simp add: rq.invar_push)
  obtain h where h: "decode_packet ?a = Some (h, [])" "rh_version h = 1" "rh_type h = kData"
      "rh_connection_id h = ps_connection_id (eg_state s')"
      "rh_ack_largest h = ps_ack_largest (eg_state r1)" "rh_ack_mask h = ps_ack_mask (eg_state r1)"
    using decode_make_packet [of "[]" r1 kData kFlagAckOnly "rh_channel (rudp_read_header d)" 0 now' thesis]
      p(4) q(4) by auto
  obtain e1 re1 where si: "switch_input h now'' s' = (e1, re1)" by fastforce
  obtain s2 re2 where pd: "process_data h [] now'' (e1, re1) = (s2, re2)" by fastforce
  have "process_datagram ?a now'' s' = (s2, re2)"
    using process_datagram_valid [OF _ h(1,2,4), of now''] h(3) si pd by (simp add: process_type_data)
  moreover have "eg_queue s2 = mark_acked (rh_ack_largest h) (rh_ack_mask h) (eg_queue s')"
    using process_data_fields(2) [OF pd] switch_input_fields(2) [of h now'' s'] si by simp
  ultimately have "(?n, d) \<notin> set (rq_view (eg_queue (fst (process_datagram ?a now'' s'))))"
    using rq.view_ack [OF inv'] h(5,6) p(5) by simp
  moreover have "(?n, d) \<in> set (rq_view (eg_queue s'))"
    using rq.view_push [OF inv, of d] q(1,2) by simp
  ultimately show ?thesis using p(1,2,3) by auto
qed


definition established_peer :: RudpEngine where
  "established_peer = run_ops [OpDatagram hello_datagram 100] (new_rudp_engine small_rudp_config)"

lemma established_peer_eval:
  "established_peer =
     new_rudp_engine small_rudp_config
       \<lparr>eg_state := new_peer_state\<lparr>ps_lifecycle := LsEstablished, ps_connection_id := 9,
          ps_last_recv_unix_ms := 100, ps_last_send_unix_ms := 100\<rparr>,
        eg_metrics := new_rudp_counters\<lparr>rm_handshake_ok_total := 1\<rparr>\<rparr>"
  by code_simp

lemma established_peer_sends:
  "snd (queue_reliable_payload [5] 0 200 established_peer) \<noteq> None"
  "ps_lifecycle (eg_state established_peer) = LsEstablished"
  "ps_next_packet_number (eg_state established_peer) = 1"
  "ao_accepted (snd (observe (eg_ack_window established_peer) 1))"
  "210 \<ge> ps_last_ack_emit_unix_ms (eg_state established_peer) +
     ucast (rc_ack_delay_ms (eg_config established_peer))"
  by (simp_all add: established_peer_eval queue_reliable_payload_def new_rudp_engine_def Let_def
      small_rudp_config_def new_peer_state_def inflight_packets_def inflight_bytes_def
      new_retransmission_queue_def new_ack_window_def observe_def)

theorem reliable_payload_delivered_and_released_witness:
  "\<exists>s' d a. queue_reliable_payload [5] 0 200 established_peer = (s', Some d) \<and>
     pr_inner_frames (snd (process_datagram d 210 established_peer)) = [[5]] \<and>
     pr_egress_datagrams (snd (process_datagram d 210 established_peer)) = [a] \<and>
     (1, d) \<in> set (rq_view (eg_queue s')) \<and>
     (1, d) \<notin> set (rq_view (eg_queue (fst (process_datagram a 220 s'))))"
proof -
  obtain s' d where "queue_reliable_payload [5] 0 200 established_peer = (s', Some d)"
    using established_peer_sends(1)
    by (cases "queue_reliable_payload [5] 0 200 established_peer") auto
  then show ?thesis
    using reliable_payload_delivered_and_released [OF established_peer_def, of "[5]" 0 200 s' d
        established_peer 210 220] established_peer_sends
    by (auto simp: small_rudp_config_def)
qed

section \<open>Retransmission\<close>

lemma read_header_set_flags:
  assumes "kRudpHeaderBytes \<le> length bs"
  shows "rudp_read_header (bs[27 := x]) = rudp_read_header bs\<lparr>rh_flags := x\<rparr>"
  using assms
  by (simp add: rudp_read_header_def read_be16_def read_be32_def kRudpHeaderBytes_def Let_def)

lemma decode_retransmit_frame:
  assumes "decode_packet f = Some (h, p)"
  shows "decode_packet (retransmit_frame f) = Some (h\<lparr>rh_flags := rh_flags h OR kFlagRetransmit\<rparr>, p)"
proof -
  note d = decode_packet_SomeD [OF assms]
  have fl: "rh_flags h = f ! 27" by (simp add: d(1) rudp_read_header_def Let_def)
  have rt: "retransmit_frame f = f[27 := f ! 27 OR kFlagRetransmit]"
    using d(3) by (simp add: retransmit_frame_def)
  have hd: "rudp_read_header (retransmit_frame f) = h\<lparr>rh_flags := rh_flags h OR kFlagRetransmit\<rparr>"
    unfolding rt read_header_set_flags [OF d(3)] fl by (simp only: d(1))
  have "drop kRudpHeaderBytes (retransmit_frame f) = p"
    by (simp add: rt d(2) kRudpHeaderBytes_def)
  moreover have "length f = kRudpHeaderBytes + unat (rh_payload_length h)"
    using d(2,3,4) by (metis le_add_diff_inverse length_drop)
  ultimately show ?thesis
    using d(3,4) unfolding decode_packet_def hd Let_def by (simp add: rt)
qed

text \<open>Every queued frame is the encoding of a data packet with the number it is queued under.\<close>

definition data_frame :: "u32 \<times> bytes \<Rightarrow> bool" where
  "data_frame nf \<longleftrightarrow> (\<exists>h p. decode_packet (snd nf) = Some (h, p) \<and> rh_packet_number h = fst nf \<and>
     rh_type h = kData \<and> rh_flags h = 0 \<and> p \<noteq> [])"

definition frames_ok :: "RudpEngine \<Rightarrow> bool" where
  "frames_ok e \<longleftrightarrow> inflight_ok e \<and> (\<forall>nf\<in>set (rq_view (eg_queue e)). data_frame nf)"

lemma frames_ok_apply:
  assumes "frames_ok e" and "rc_mtu_payload_bytes (eg_config e) \<le> 0xFFFF"
  shows "frames_ok (engine_apply op e)"
proof -
  have ok: "inflight_ok (engine_apply op e)" and inv: "rq_inv (eg_queue e)"
    using assms inflight_ok_apply by (auto simp: frames_ok_def inflight_ok_def)
  have "\<forall>nf\<in>set (rq_view (eg_queue (engine_apply op e))). data_frame nf"
  proof (cases op)
    case (OpDatagram d now)
    obtain e' r where "process_datagram d now e = (e', r)" by fastforce
    with OpDatagram assms process_datagram_queue [OF this] inv show ?thesis
      by (auto simp: frames_ok_def rq.view_ack)
  next
    case (OpPoll now)
    with assms poll_fields(1) [of now e] inv show ?thesis
      by (auto simp: frames_ok_def rq.view_timeouts)
  next
    case (OpReliable p ch now)
    obtain e' out where "queue_reliable_payload p ch now e = (e', out)" by fastforce
    then show ?thesis
    proof (cases rule: queue_reliable_cases)
      case (sent f)
      from sent(9) assms(2) have "length p \<le> 0xFFFF" by simp
      from decode_make_packet [OF this, of e kData 0 ch "ps_next_packet_number (eg_state e)" now] sent
      have "data_frame (ps_next_packet_number (eg_state e), f)"
        by (metis data_frame_def fst_conv snd_conv)
      with sent OpReliable assms inv \<open>queue_reliable_payload p ch now e = (e', out)\<close> show ?thesis
        by (auto simp: frames_ok_def rq.view_push)
    qed (use OpReliable assms \<open>queue_reliable_payload p ch now e = (e', out)\<close> in
        \<open>simp add: frames_ok_def\<close>)
  qed (use assms in \<open>simp_all add: frames_ok_def queue_unreliable_fields engine_op_defs rq_view_def
        rq_reset_def\<close>)
  with ok show ?thesis by (simp add: frames_ok_def)
qed

lemma poll_egress:
  "pr_egress_datagrams (snd (poll now e)) \<in>
     {[], map (\<lambda>p. retransmit_frame (pp_encoded_frame p))
       (snd (collect_timeouts now (re_rto_ms (ps_rtt (eg_state e))) 16 (eg_queue e)))}"
  by (auto simp: poll_def Let_def new_process_result_def split: prod.splits)

text \<open>C17. Retransmissions are the queued packets. In every state an engine reaches (with a payload
  limit that fits the 16-bit length field), \<open>poll\<close> sends at most 16 datagrams, each of which
  decodes to the header and payload of a packet that is in the queue, the only difference
  being the retransmit flag; so the receiver's window sees the same packet number again.
\<close>

theorem poll_resends_queued_packets:
  assumes e: "e = run_ops ops (new_rudp_engine c)" and mtu: "rc_mtu_payload_bytes c \<le> 0xFFFF"
  shows "length (pr_egress_datagrams (snd (poll now e))) \<le> 16 \<and>
    (\<forall>g\<in>set (pr_egress_datagrams (snd (poll now e))). \<exists>n f h p.
       (n, f) \<in> set (rq_view (eg_queue e)) \<and> decode_packet f = Some (h, p) \<and>
       rh_packet_number h = n \<and> p \<noteq> [] \<and>
       decode_packet g = Some (h\<lparr>rh_flags := kFlagRetransmit\<rparr>, p))"
proof -
  let ?P = "\<lambda>e. eg_config e = c \<and> frames_ok e"
  have "?P e" unfolding e
  proof (rule run_ops_inv [where P = ?P])
    show "?P (new_rudp_engine c)"
      using inflight_ok_new [of c] by (simp add: new_rudp_engine_def frames_ok_def rq.view_empty)
  next
    fix op e assume "?P e"
    with mtu show "?P (engine_apply op e)" using config_apply frames_ok_apply by metis
  qed
  then have fr: "\<And>nf. nf \<in> set (rq_view (eg_queue e)) \<Longrightarrow> data_frame nf"
    and inv: "rq_inv (eg_queue e)"
    by (auto simp: frames_ok_def inflight_ok_def)
  let ?due = "snd (collect_timeouts now (re_rto_ms (ps_rtt (eg_state e))) 16 (eg_queue e))"
  have "length ?due \<le> 16"
    using collect_timeouts_due [of 16 "re_rto_ms (ps_rtt (eg_state e))" now "eg_queue e"]
    by (cases "re_rto_ms (ps_rtt (eg_state e)) = 0")
      (simp_all add: word_gt_0, simp add: collect_timeouts_def)
  moreover have "\<exists>n f h p. (n, f) \<in> set (rq_view (eg_queue e)) \<and> decode_packet f = Some (h, p) \<and>
       rh_packet_number h = n \<and> p \<noteq> [] \<and>
       decode_packet (retransmit_frame (pp_encoded_frame pk)) = Some (h\<lparr>rh_flags := kFlagRetransmit\<rparr>, p)"
    if "pk \<in> set ?due" for pk
  proof -
    have v: "(pp_packet_number pk, pp_encoded_frame pk) \<in> set (rq_view (eg_queue e))"
      using rq.due_in_view [OF inv that] .
    from fr [OF v] obtain h p where "decode_packet (pp_encoded_frame pk) = Some (h, p)"
        "rh_packet_number h = pp_packet_number pk" "rh_flags h = 0" "p \<noteq> []"
      by (auto simp: data_frame_def)
    with v decode_retransmit_frame [OF this(1)] show ?thesis by auto
  qed
  ultimately show ?thesis using poll_egress [of now e] by auto
qed


theorem poll_resends_queued_packets_witness:
  "let e = run_ops [OpDatagram hello_datagram 100, OpReliable [5] 0 200] (new_rudp_engine small_rudp_config)
   in length (pr_egress_datagrams (snd (poll 5000 e))) \<le> 16 \<and>
      pr_egress_datagrams (snd (poll 5000 e)) \<noteq> [] \<and>
      (\<exists>n f h p. (n, f) \<in> set (rq_view (eg_queue e)) \<and> decode_packet f = Some (h, p) \<and>
         rh_packet_number h = n \<and> p \<noteq> [] \<and>
         decode_packet (hd (pr_egress_datagrams (snd (poll 5000 e)))) =
           Some (h\<lparr>rh_flags := kFlagRetransmit\<rparr>, p))"
proof -
  let ?ops = "[OpDatagram hello_datagram 100, OpReliable [5] 0 200]"
  let ?e = "run_ops ?ops (new_rudp_engine small_rudp_config)"
  have "?e = fst (queue_reliable_payload [5] 0 200 established_peer)"
    by (simp add: established_peer_def)
  then have "pr_egress_datagrams (snd (poll 5000 ?e)) \<noteq> []"
    by (simp add: established_peer_eval queue_reliable_payload_def new_rudp_engine_def Let_def
        small_rudp_config_def new_peer_state_def inflight_packets_def inflight_bytes_def
        new_retransmission_queue_def poll_def collect_timeouts_def rq_push_def new_rtt_estimator_def
        new_process_result_def)
  then show ?thesis
    using poll_resends_queued_packets [OF refl, of small_rudp_config 5000 ?ops]
    by (fastforce simp: small_rudp_config_def Let_def)
qed

section \<open>No payload without a handshake\<close>

fun is_handshake :: "EngineOp \<Rightarrow> bool" where
  "is_handshake (OpDatagram d now) \<longleftrightarrow> rh_type (rudp_read_header d) \<in> {kHello, kHelloAck}"
| "is_handshake _ \<longleftrightarrow> False"

lemma set_fallback_not_established [simp]:
  "set_fallback reason er = (e', r') \<Longrightarrow> ps_lifecycle (eg_state e') \<noteq> LsEstablished"
  using set_fallback_fields(7) [of reason er] by simp

lemma process_datagram_not_established:
  assumes "ps_lifecycle (eg_state e) \<noteq> LsEstablished"
    and "rh_type (rudp_read_header d) \<notin> {kHello, kHelloAck}"
  shows "ps_lifecycle (eg_state (fst (process_datagram d now e))) \<noteq> LsEstablished"
proof -
  have "ps_lifecycle (eg_state (fst (process_type h p now er))) \<noteq> LsEstablished"
    if "ps_lifecycle (eg_state (fst er)) \<noteq> LsEstablished" "rh_type h \<notin> {kHello, kHelloAck}" for h p er
    using that by (cases er) (simp add: process_type_def process_data_def Let_def)
  moreover have "h = rudp_read_header d" if "decode_packet d = Some (h, p)" for h p
    using decode_packet_SomeD(1) [OF that] .
  ultimately show ?thesis
    using assms by (auto simp: process_datagram_def Let_def split: option.splits)
qed

lemma not_established_apply:
  assumes "ps_lifecycle (eg_state e) \<noteq> LsEstablished" and "\<not> is_handshake op"
  shows "ps_lifecycle (eg_state (engine_apply op e)) \<noteq> LsEstablished \<and> op_delivers op e = []"
proof (cases op)
  case (OpDatagram d now)
  obtain e' r where p: "process_datagram d now e = (e', r)" by fastforce
  then have "pr_inner_frames r = []"
    by (cases rule: process_datagram_window) (use assms in auto)
  with OpDatagram assms p process_datagram_not_established [of e d now] show ?thesis by auto
next
  case (OpReliable p ch now)
  obtain e' out where "queue_reliable_payload p ch now e = (e', out)" by fastforce
  with OpReliable assms show ?thesis by (auto elim: queue_reliable_cases)
next
  case (OpPoll now)
  with assms poll_fields(5) [of now e] show ?thesis by auto
qed (use assms in \<open>simp_all add: queue_unreliable_fields engine_op_defs new_peer_state_def\<close>)

text \<open>Every datagram that a run sends, in order: the answers to datagrams, the retransmissions of \<open>poll\<close>, the
  packets of the two queue calls, and the HELLO and CLOSE packets.\<close>

fun op_sends :: "EngineOp \<Rightarrow> RudpEngine \<Rightarrow> bytes list" where
  "op_sends (OpDatagram d now) e = pr_egress_datagrams (snd (process_datagram d now e))"
| "op_sends (OpPoll now) e = pr_egress_datagrams (snd (poll now e))"
| "op_sends (OpReliable p ch now) e = (case snd (queue_reliable_payload p ch now e) of None \<Rightarrow> [] | Some d \<Rightarrow> [d])"
| "op_sends (OpUnreliable p ch now) e = (case snd (queue_unreliable_payload p ch now e) of None \<Rightarrow> [] | Some d \<Rightarrow> [d])"
| "op_sends (OpHello cid now) e = [snd (make_hello cid now e)]"
| "op_sends (OpClose now) e = [snd (make_close now e)]"
| "op_sends OpReset e = []"

fun sends :: "EngineOp list \<Rightarrow> RudpEngine \<Rightarrow> bytes list" where
  "sends [] e = []"
| "sends (op # ops) e = op_sends op e @ sends ops (engine_apply op e)"

lemma set_fallback_egress [simp]:
  "pr_egress_datagrams (snd (set_fallback reason er)) = pr_egress_datagrams (snd er)"
  by (simp add: set_fallback_def Let_def split: prod.splits)

lemma process_type_egress:
  "list_all (\<lambda>d. length d = kRudpHeaderBytes) (pr_egress_datagrams (snd er)) \<Longrightarrow>
   list_all (\<lambda>d. length d = kRudpHeaderBytes) (pr_egress_datagrams (snd (process_type h p now er)))"
  by (cases er) (simp add: process_type_def process_data_def Let_def split: prod.splits)

lemma process_datagram_egress:
  "list_all (\<lambda>d. length d = kRudpHeaderBytes) (pr_egress_datagrams (snd (process_datagram d now e)))"
  by (simp add: process_datagram_def Let_def new_process_result_def process_type_egress split: option.splits)

text \<open>Outside the established state an operation that is no handshake sends bare headers and packets that are in
  the queue already, and puts nothing into the queue.\<close>

lemma not_established_sends:
  assumes "ps_lifecycle (eg_state e) \<noteq> LsEstablished" "rq_inv (eg_queue e)"
  shows "\<forall>d \<in> set (op_sends op e). length d = kRudpHeaderBytes \<or> d \<in> retransmit_frame ` snd ` set (rq_view (eg_queue e))"
proof (cases op)
  case (OpDatagram d now)
  then show ?thesis using process_datagram_egress [of d now e] by (simp add: list_all_iff)
next
  case (OpPoll now)
  have "d \<in> retransmit_frame ` snd ` set (rq_view (eg_queue e))" if "d \<in> set (pr_egress_datagrams (snd (poll now e)))" for d
    using that poll_egress [of now e] collect_timeouts_in_view by (force simp: image_iff)
  then show ?thesis using OpPoll by simp
qed (use assms in \<open>simp_all add: queue_reliable_payload_def queue_unreliable_payload_def make_hello_def make_close_def Let_def\<close>)

lemma not_established_queue:
  assumes "ps_lifecycle (eg_state e) \<noteq> LsEstablished" "rq_inv (eg_queue e)"
  shows "set (rq_view (eg_queue (engine_apply op e))) \<subseteq> set (rq_view (eg_queue e))"
proof (cases op)
  case (OpDatagram d now)
  obtain e' r where p: "process_datagram d now e = (e', r)" by fastforce
  show ?thesis using process_datagram_queue [OF p] OpDatagram p assms(2) by (auto simp: rq_view_mark_acked)
next
  case (OpPoll now)
  then show ?thesis using poll_fields(1) [of now e] collect_timeouts_keeps(2) [OF assms(2)] by auto
next
  case OpReset
  then show ?thesis by (simp add: engine_op_defs rq_reset_def rq_view_def)
qed (use assms in \<open>simp_all add: queue_reliable_payload_def queue_unreliable_payload_def make_hello_def make_close_def Let_def\<close>)

lemma not_established_run:
  assumes "ps_lifecycle (eg_state e) \<noteq> LsEstablished" "inflight_ok e" "\<forall>op\<in>set ops. \<not> is_handshake op"
  shows "deliveries ops e = [] \<and>
    (\<forall>d \<in> set (sends ops e). length d = kRudpHeaderBytes \<or> d \<in> retransmit_frame ` snd ` set (rq_view (eg_queue e)))"
  using assms
proof (induction ops arbitrary: e)
  case (Cons op ops)
  let ?e = "engine_apply op e"
  have inv: "rq_inv (eg_queue e)" using Cons.prems(2) by (simp add: inflight_ok_def)
  have n: "ps_lifecycle (eg_state ?e) \<noteq> LsEstablished \<and> op_delivers op e = []"
    using Cons.prems by (intro not_established_apply) simp_all
  then have "deliveries ops ?e = [] \<and>
    (\<forall>d \<in> set (sends ops ?e). length d = kRudpHeaderBytes \<or> d \<in> retransmit_frame ` snd ` set (rq_view (eg_queue ?e)))"
    using Cons.prems inflight_ok_apply by (intro Cons.IH) simp_all
  moreover have "retransmit_frame ` snd ` set (rq_view (eg_queue ?e)) \<subseteq> retransmit_frame ` snd ` set (rq_view (eg_queue e))"
    using not_established_queue [OF Cons.prems(1) inv] by (intro image_mono)
  ultimately show ?case
    using n not_established_sends [OF Cons.prems(1) inv, of op] by (simp only: deliveries.simps sends.simps set_append) blast
qed simp

text \<open>
  C18. Nothing new goes through without a handshake. Take any state an engine can reach that is not established (a
  new engine, one that has fallen back, one that has closed) and any run from there in which no HELLO and no
  HELLO_ACK datagram arrives. The run delivers no frame, and every datagram that any of its operations sends is a
  bare header without payload or the retransmission of a packet that was in the queue already at the start. The
  queue of a new engine is empty, so a new engine sends no payload at all.
\<close>

theorem no_payload_without_handshake:
  assumes "e = run_ops before (new_rudp_engine c)" and "ps_lifecycle (eg_state e) \<noteq> LsEstablished"
    and "\<forall>op\<in>set ops. \<not> is_handshake op"
  shows "deliveries ops e = [] \<and>
    (\<forall>d \<in> set (sends ops e). length d = kRudpHeaderBytes \<or> d \<in> retransmit_frame ` snd ` set (rq_view (eg_queue e))) \<and>
    (before = [] \<longrightarrow> rq_view (eg_queue e) = [])"
proof -
  have "inflight_ok e" unfolding assms(1) by (rule run_ops_inv [where P = inflight_ok]) (simp_all add: inflight_ok_apply inflight_ok_new)
  from not_established_run [OF assms(2) this assms(3)]
  show ?thesis by (simp add: assms(1) new_rudp_engine_def rq.view_empty)
qed

theorem no_payload_without_handshake_witness:
  "deliveries [OpDatagram (data_datagram 2 [5]) 101, OpPoll 7, OpReliable [5] 0 9] (new_rudp_engine small_rudp_config) = [] \<and>
   list_all (\<lambda>d. length d = kRudpHeaderBytes)
     (sends [OpDatagram (data_datagram 2 [5]) 101, OpPoll 7, OpReliable [5] 0 9] (new_rudp_engine small_rudp_config))"
proof -
  have e: "new_rudp_engine small_rudp_config = run_ops [] (new_rudp_engine small_rudp_config)" by simp
  have "ps_lifecycle (eg_state (new_rudp_engine small_rudp_config)) \<noteq> LsEstablished"
    by (simp add: new_rudp_engine_def new_peer_state_def)
  moreover have "\<forall>op\<in>set [OpDatagram (data_datagram 2 [5]) 101, OpPoll 7, OpReliable [5] 0 9]. \<not> is_handshake op"
    by (simp add: data_datagram_def encode_packet_def rudp_read_encode_header default_rudp_header_def kData_def
        kHello_def kHelloAck_def)
  ultimately show ?thesis using no_payload_without_handshake [OF e] by (fastforce simp: list_all_iff)
qed

end
