(* ===== verification/Direct_Bind.thy ===== *)
theory Direct_Bind
  imports Packet_Codec
begin

text \<open>
  The payloads of the direct UDP bind of \<open>core/include/server/core/realtime/direct_bind.hpp\<close>.
  The decoders write the fields of their \<open>out\<close> argument as they go, so a decoder returns its
  flag and the record it leaves in \<open>out\<close>, also when it fails half way.
\<close>

record DirectBindRequest =
  dq_session_id :: bytes
  dq_nonce :: u64
  dq_expires_unix_ms :: u64
  dq_token :: bytes

record DirectBindTicket =
  dt_session_id :: bytes
  dt_nonce :: u64
  dt_expires_unix_ms :: u64
  dt_token :: bytes

record DirectBindResponse =
  dr_code :: u16
  dr_ticket :: DirectBindTicket
  dr_message :: bytes

definition write_be64 :: "u64 \<Rightarrow> bytes" where
  "write_be64 v =
     [ucast (drop_bit 56 v AND 0xFF), ucast (drop_bit 48 v AND 0xFF),
      ucast (drop_bit 40 v AND 0xFF), ucast (drop_bit 32 v AND 0xFF),
      ucast (drop_bit 24 v AND 0xFF), ucast (drop_bit 16 v AND 0xFF),
      ucast (drop_bit 8 v AND 0xFF), ucast (v AND 0xFF)]"

text \<open>Eight bytes as one big-endian integer.\<close>

definition join64 :: "u8 \<Rightarrow> u8 \<Rightarrow> u8 \<Rightarrow> u8 \<Rightarrow> u8 \<Rightarrow> u8 \<Rightarrow> u8 \<Rightarrow> u8 \<Rightarrow> u64" where
  "join64 a b c d e f g h =
     push_bit 56 (ucast a) OR push_bit 48 (ucast b) OR push_bit 40 (ucast c) OR
     push_bit 32 (ucast d) OR push_bit 24 (ucast e) OR push_bit 16 (ucast f) OR
     push_bit 8 (ucast g) OR ucast h"

definition read_be64 :: "bytes \<Rightarrow> (u64 \<times> bytes) option" where
  "read_be64 inp =
     (if length inp < 8 then None
      else Some (join64 (inp ! 0) (inp ! 1) (inp ! 2) (inp ! 3) (inp ! 4) (inp ! 5) (inp ! 6) (inp ! 7),
                 drop 8 inp))"

definition encode_direct_bind_request_payload :: "DirectBindRequest \<Rightarrow> bytes" where
  "encode_direct_bind_request_payload request =
     (let payload = [];
          payload = write_lp_utf8 payload (dq_session_id request);
          payload = payload @ write_be64 (dq_nonce request);
          payload = payload @ write_be64 (dq_expires_unix_ms request)
      in write_lp_utf8 payload (dq_token request))"

text \<open>
  One step \<open>if (!read(in, out.field)) return false;\<close> of a decoder: read a value, store it in
  \<open>out\<close> and go on, or stop with \<open>out\<close> as it is. The decoders end with \<open>return in.empty();\<close>.
\<close>

definition read_into ::
  "(bytes \<Rightarrow> ('a \<times> bytes) option) \<Rightarrow> ('a \<Rightarrow> 'r \<Rightarrow> 'r) \<Rightarrow> ('r \<times> bytes \<Rightarrow> bool \<times> 'r) \<Rightarrow> 'r \<times> bytes \<Rightarrow> bool \<times> 'r"
where
  "read_into read store next = (\<lambda>(out, inp).
     case read inp of None \<Rightarrow> (False, out) | Some (v, rest) \<Rightarrow> next (store v out, rest))"

definition return_in_empty :: "'r \<times> bytes \<Rightarrow> bool \<times> 'r" where
  "return_in_empty = (\<lambda>(out, inp). (inp = [], out))"

definition decode_direct_bind_request_payload ::
  "bytes \<Rightarrow> DirectBindRequest \<Rightarrow> bool \<times> DirectBindRequest"
where
  "decode_direct_bind_request_payload payload out =
     read_into read_lp_utf8 (\<lambda>v out. out\<lparr>dq_session_id := v\<rparr>)
      (read_into read_be64 (\<lambda>v out. out\<lparr>dq_nonce := v\<rparr>)
       (read_into read_be64 (\<lambda>v out. out\<lparr>dq_expires_unix_ms := v\<rparr>)
        (read_into read_lp_utf8 (\<lambda>v out. out\<lparr>dq_token := v\<rparr>)
         return_in_empty))) (out, payload)"

definition encode_direct_bind_response_payload :: "u16 \<Rightarrow> DirectBindTicket \<Rightarrow> bytes \<Rightarrow> bytes" where
  "encode_direct_bind_response_payload code ticket message =
     (let payload = [];
          payload = payload @ write_be16 code;
          payload = write_lp_utf8 payload (dt_session_id ticket);
          payload = payload @ write_be64 (dt_nonce ticket);
          payload = payload @ write_be64 (dt_expires_unix_ms ticket);
          payload = write_lp_utf8 payload (dt_token ticket)
      in write_lp_utf8 payload message)"

definition decode_direct_bind_response_payload ::
  "bytes \<Rightarrow> DirectBindResponse \<Rightarrow> bool \<times> DirectBindResponse"
where
  "decode_direct_bind_response_payload payload out =
     (if length payload < 2 then (False, out)
      else
        read_into read_lp_utf8 (\<lambda>v out. out\<lparr>dr_ticket := dr_ticket out\<lparr>dt_session_id := v\<rparr>\<rparr>)
         (read_into read_be64 (\<lambda>v out. out\<lparr>dr_ticket := dr_ticket out\<lparr>dt_nonce := v\<rparr>\<rparr>)
          (read_into read_be64 (\<lambda>v out. out\<lparr>dr_ticket := dr_ticket out\<lparr>dt_expires_unix_ms := v\<rparr>\<rparr>)
           (read_into read_lp_utf8 (\<lambda>v out. out\<lparr>dr_ticket := dr_ticket out\<lparr>dt_token := v\<rparr>\<rparr>)
            (read_into read_lp_utf8 (\<lambda>v out. out\<lparr>dr_message := v\<rparr>)
             return_in_empty)))) (out\<lparr>dr_code := read_be16 payload\<rparr>, drop 2 payload))"

section \<open>The fields as codecs\<close>

lemma bit_join64:
  "bit (join64 a b c d e f g h) n \<longleftrightarrow>
    (if n < 8 then bit h n else if n < 16 then bit g (n - 8) else if n < 24 then bit f (n - 16)
     else if n < 32 then bit e (n - 24) else if n < 40 then bit d (n - 32)
     else if n < 48 then bit c (n - 40) else if n < 56 then bit b (n - 48)
     else n < 64 \<and> bit a (n - 56))"
proof -
  consider "n < 8" | "8 \<le> n" "n < 16" | "16 \<le> n" "n < 24" | "24 \<le> n" "n < 32"
      | "32 \<le> n" "n < 40" | "40 \<le> n" "n < 48" | "48 \<le> n" "n < 56" | "56 \<le> n" "n < 64" | "64 \<le> n"
      by fastforce
  then show ?thesis by cases (auto simp: join64_def bit_simps)
qed

lemma write_be64_join: "write_be64 (join64 a b c d e f g h) = [a, b, c, d, e, f, g, h]"
  by (simp add: write_be64_def) (intro conjI bit_word_eqI; simp add: bit_simps bit_join64)

lemma join64_write:
  "join64 (write_be64 v ! 0) (write_be64 v ! 1) (write_be64 v ! 2) (write_be64 v ! 3)
     (write_be64 v ! 4) (write_be64 v ! 5) (write_be64 v ! 6) (write_be64 v ! 7) = v"
  by (rule bit_word_eqI) (auto simp: bit_join64 write_be64_def bit_simps)

interpretation be64: byte_codec write_be64 read_be64 "\<lambda>_. True"
proof (unfold_locales, goal_cases)
  case (1 x rest)
  have "length (write_be64 x) = 8" by (simp add: write_be64_def)
  then show ?case
    using join64_write [of x] by (simp add: read_be64_def nth_append)
next
  case (2 bs x rest)
  then have len: "8 \<le> length bs" and rest: "rest = drop 8 bs"
    and x: "x = join64 (bs ! 0) (bs ! 1) (bs ! 2) (bs ! 3) (bs ! 4) (bs ! 5) (bs ! 6) (bs ! 7)"
    by (auto simp: read_be64_def split: if_splits)
  have "take 8 bs = [bs ! 0, bs ! 1, bs ! 2, bs ! 3, bs ! 4, bs ! 5, bs ! 6, bs ! 7]"
    using len by (intro nth_equalityI) (auto simp: less_Suc_eq numeral_eq_Suc)
  then show ?case
    using x rest by (metis write_be64_join append_take_drop_id)
qed

context byte_codec
begin

lemma read_into_True:
  "read_into dec store next (out, bs) = (True, r) \<longleftrightarrow>
     (\<exists>x rest. wf x \<and> bs = enc x @ rest \<and> next (store x out, rest) = (True, r))"
proof -
  have "read_into dec store next (out, bs) = (True, r) \<longleftrightarrow>
      (\<exists>x rest. dec bs = Some (x, rest) \<and> next (store x out, rest) = (True, r))"
    by (auto simp: read_into_def split: option.splits)
  then show ?thesis by (simp add: dec_iff)
qed

end

lemmas bind_fields = lp.read_into_True be64.read_into_True

text \<open>C19. Direct bind request. Decoding succeeds with the request \<open>r\<close>, whatever the output record
  held before, exactly when the strings of \<open>r\<close> are at most 65535 bytes of valid UTF-8 and the
  payload is the encoding of \<open>r\<close>: nothing truncated, padded or malformed is accepted.
\<close>

theorem direct_bind_request_exact:
  "decode_direct_bind_request_payload payload out = (True, r) \<longleftrightarrow>
     lp_wf (dq_session_id r) \<and> lp_wf (dq_token r) \<and> payload = encode_direct_bind_request_payload r"
proof -
  have "decode_direct_bind_request_payload payload out = (True, r) \<longleftrightarrow>
     (\<exists>sid nonce expires token. lp_wf sid \<and> lp_wf token \<and>
        payload = write_lp_utf8 [] sid @ write_be64 nonce @ write_be64 expires @ write_lp_utf8 [] token \<and>
        r = \<lparr>dq_session_id = sid, dq_nonce = nonce, dq_expires_unix_ms = expires, dq_token = token\<rparr>)"
    by (cases out; cases r)
      (auto simp: decode_direct_bind_request_payload_def bind_fields return_in_empty_def)
  then show ?thesis
    by (cases r) (auto simp: encode_direct_bind_request_payload_def Let_def
        write_lp_utf8_append [of "_ @ _"] write_lp_utf8_append [of "write_lp_utf8 _ _"])
qed

text \<open>Direct bind response. The same for the response: its code, ticket and message decode
  exactly from their encoding.
\<close>

theorem direct_bind_response_exact:
  "decode_direct_bind_response_payload payload out = (True, r) \<longleftrightarrow>
     lp_wf (dt_session_id (dr_ticket r)) \<and> lp_wf (dt_token (dr_ticket r)) \<and> lp_wf (dr_message r) \<and>
     payload = encode_direct_bind_response_payload (dr_code r) (dr_ticket r) (dr_message r)"
proof -
  have two: "2 \<le> length payload \<longleftrightarrow> (\<exists>code rest. payload = write_be16 code @ rest)"
    using write_read_be16_take [of payload] by (metis append_take_drop_id le_add1 length_append length_write_be16)
  have "decode_direct_bind_response_payload payload out = (True, r) \<longleftrightarrow>
     (\<exists>code sid nonce expires token message. lp_wf sid \<and> lp_wf token \<and> lp_wf message \<and>
        payload = write_be16 code @ write_lp_utf8 [] sid @ write_be64 nonce @ write_be64 expires @
          write_lp_utf8 [] token @ write_lp_utf8 [] message \<and>
        r = \<lparr>dr_code = code, dr_ticket = \<lparr>dt_session_id = sid, dt_nonce = nonce,
             dt_expires_unix_ms = expires, dt_token = token\<rparr>, dr_message = message\<rparr>)"
  proof (cases "2 \<le> length payload")
    case True
    then obtain code rest where p: "payload = write_be16 code @ rest" using two by blast
    have inj: "write_be16 c @ s = write_be16 c' @ s' \<longleftrightarrow> c = c' \<and> s = s'" for c s c' s'
      by (metis append_eq_append_conv length_write_be16 read_write_be16)
    have tk: "t\<lparr>dt_session_id := a, dt_nonce := b, dt_expires_unix_ms := c, dt_token := d\<rparr> =
        \<lparr>dt_session_id = a, dt_nonce = b, dt_expires_unix_ms = c, dt_token = d\<rparr>"
      for t :: DirectBindTicket and a b c d by (cases t) simp
    show ?thesis
      by (cases out; cases r)
        (force simp: p inj tk decode_direct_bind_response_payload_def bind_fields return_in_empty_def)
  next
    case False
    then show ?thesis by (auto simp: decode_direct_bind_response_payload_def)
  qed
  then show ?thesis
    by (cases r; cases "dr_ticket r") (auto simp: encode_direct_bind_response_payload_def Let_def
        write_lp_utf8_append [of "_ @ _"] write_lp_utf8_append [of "write_lp_utf8 _ _"])
qed

end
