(* ===== verification/Text_Prelude.thy ===== *)
theory Text_Prelude
  imports Dynaxis_Prelude
begin

text \<open>
  Text helpers the components share: the number syntax of \<open>std::from_chars\<close> and
  \<open>std::to_string\<close>, ASCII trimming, and splitting at a separator.
\<close>

section \<open>Text on the wire\<close>

text \<open>\<open>std::string\<close> values that travel on the wire are byte lists there and strings here.\<close>

definition chars_of :: "bytes \<Rightarrow> string" where
  "chars_of = map (\<lambda>b. char_of (unat b))"

definition octets_of :: "string \<Rightarrow> bytes" where
  "octets_of = map of_char"

section \<open>Numbers\<close>

definition digit_value :: "nat \<Rightarrow> char \<Rightarrow> nat option" where
  "digit_value base c =
     (let n = (of_char c :: nat);
          v = (if 48 \<le> n \<and> n \<le> 57 then n - 48
               else if 97 \<le> n \<and> n \<le> 122 then n - 87
               else if 65 \<le> n \<and> n \<le> 90 then n - 55 else base)
      in if v < base then Some v else None)"

definition is_digit :: "nat \<Rightarrow> char \<Rightarrow> bool" where
  "is_digit base c \<longleftrightarrow> digit_value base c \<noteq> None"

definition digits_value :: "nat \<Rightarrow> string \<Rightarrow> nat" where
  "digits_value base ds = foldl (\<lambda>acc c. acc * base + the (digit_value base c)) 0 ds"

text \<open>
  \<open>std::from_chars\<close> for an unsigned type with greatest value \<open>limit\<close>: the longest run of
  digits is read; an empty run and a value out of range are errors, and the rest of the text
  is what the returned pointer points to.
\<close>

definition from_chars :: "nat \<Rightarrow> nat \<Rightarrow> string \<Rightarrow> (nat \<times> string) option" where
  "from_chars limit base s =
     (let ds = takeWhile (is_digit base) s
      in if ds = [] then None
         else if digits_value base ds > limit then None
         else Some (digits_value base ds, dropWhile (is_digit base) s))"

definition digit_char :: "nat \<Rightarrow> char" where
  "digit_char d = char_of (48 + d)"

fun to_string :: "nat \<Rightarrow> string" where
  "to_string n = (if n < 10 then [digit_char n] else to_string (n div 10) @ [digit_char (n mod 10)])"

declare to_string.simps [simp del]

lemma digit_value_char [simp]: "d < 10 \<Longrightarrow> digit_value 10 (digit_char d) = Some d"
  by (simp add: digit_value_def digit_char_def of_char_of take_bit_eq_mod Let_def)

lemma digits_value_snoc [simp]:
  "digits_value base (ds @ [c]) = digits_value base ds * base + the (digit_value base c)"
  by (simp add: digits_value_def)

lemma to_string_nonempty [simp]: "to_string n \<noteq> []"
  by (subst to_string.simps) simp

lemma to_string_digits: "c \<in> set (to_string n) \<Longrightarrow> is_digit 10 c"
proof (induction n rule: to_string.induct)
  case (1 n)
  then show ?case
    by (cases "n < 10") (auto simp: to_string.simps [of n] is_digit_def)
qed

lemma digits_value_to_string [simp]: "digits_value 10 (to_string n) = n"
proof (induction n rule: to_string.induct)
  case (1 n)
  then show ?case
    by (cases "n < 10") (simp_all add: to_string.simps [of n], simp add: digits_value_def)
qed

lemma from_chars_to_string:
  assumes "n \<le> limit" and "rest = [] \<or> \<not> is_digit 10 (hd rest)"
  shows "from_chars limit 10 (to_string n @ rest) = Some (n, rest)"
proof -
  have "takeWhile (is_digit 10) rest = []" and "dropWhile (is_digit 10) rest = rest"
    using assms(2) by (cases rest; simp)+
  then show ?thesis
    using assms(1) to_string_digits by (simp add: from_chars_def takeWhile_append dropWhile_append)
qed

section \<open>Trimming and splitting\<close>

definition is_ascii_space :: "char \<Rightarrow> bool" where
  "is_ascii_space c \<longleftrightarrow> c = CHR '' '' \<or> c = CHR 0x09 \<or> c = CHR 0x0D \<or> c = CHR 0x0A"

definition trim_with :: "(char \<Rightarrow> bool) \<Rightarrow> string \<Rightarrow> string" where
  "trim_with sp s = rev (dropWhile sp (rev (dropWhile sp s)))"

lemma dropWhile_hd_id: "s = [] \<or> \<not> sp (hd s) \<Longrightarrow> dropWhile sp s = s"
  by (cases s) auto

lemma trim_with_id:
  "s = [] \<or> \<not> sp (hd s) \<and> \<not> sp (last s) \<Longrightarrow> trim_with sp s = s"
  using dropWhile_hd_id [of s sp] dropWhile_hd_id [of "rev s" sp]
  by (auto simp: trim_with_def hd_rev)

lemma trim_with_ends: "trim_with sp s = [] \<or> \<not> sp (hd (trim_with sp s)) \<and> \<not> sp (last (trim_with sp s))"
proof -
  let ?t = "dropWhile sp s"
  have "trim_with sp s = [] \<or> hd (trim_with sp s) = hd ?t \<and> \<not> sp (last (trim_with sp s))"
  proof (cases "dropWhile sp (rev ?t)")
    case (Cons c cs)
    then have "\<not> sp c" by (metis hd_dropWhile list.distinct(1) list.sel(1))
    moreover have "\<exists>zs. ?t = rev (c # cs) @ zs"
      using takeWhile_dropWhile_id [of sp "rev ?t"] Cons
      by (metis rev_append rev_rev_ident)
    ultimately show ?thesis using Cons
      by (auto simp: trim_with_def hd_append split: if_splits)
  qed (simp add: trim_with_def)
  moreover have "?t \<noteq> [] \<Longrightarrow> \<not> sp (hd ?t)" by (rule hd_dropWhile)
  moreover have "?t = [] \<Longrightarrow> trim_with sp s = []" by (auto simp: trim_with_def dest: set_dropWhileD)
  ultimately show ?thesis by metis
qed

lemma trim_with_idem [simp]: "trim_with sp (trim_with sp s) = trim_with sp s"
  by (rule trim_with_id) (rule trim_with_ends)

fun split_at :: "char \<Rightarrow> string \<Rightarrow> string list" where
  "split_at sep [] = [[]]"
| "split_at sep (c # cs) =
     (if c = sep then [] # split_at sep cs
      else (case split_at sep cs of [] \<Rightarrow> [[c]] | t # ts \<Rightarrow> (c # t) # ts))"

lemma split_at_nonempty [simp]: "split_at sep s \<noteq> []"
  by (cases s) (auto split: list.splits)

lemma split_at_break:
  "split_at sep s = takeWhile (\<lambda>c. c \<noteq> sep) s #
     (case dropWhile (\<lambda>c. c \<noteq> sep) s of [] \<Rightarrow> [] | _ # rest \<Rightarrow> split_at sep rest)"
  by (induction s) auto

section \<open>Names of enumerations\<close>

text \<open>
  The contract of a pair of functions that print an enumeration value and read it back: what
  the control plane stores as text is read as the value that was stored, and nothing else.
\<close>

locale named_enum =
  fixes name_of :: "'e \<Rightarrow> string" and parse_of :: "string \<Rightarrow> 'e option"
  assumes parse_name: "parse_of (name_of x) = Some x"
    and parse_sound: "parse_of s = Some x \<Longrightarrow> s = name_of x"
begin

lemma parse_iff: "parse_of s = Some x \<longleftrightarrow> s = name_of x"
  using parse_name parse_sound by blast

lemma name_inj: "name_of x = name_of y \<Longrightarrow> x = y"
  using parse_name by (metis option.inject)

lemma parse_unknown: "parse_of s = None \<longleftrightarrow> s \<notin> range name_of"
  using parse_iff by (metis not_None_eq rangeE rangeI)

end

end
