(* ===== verification/Direct_Transport.thy ===== *)
theory Direct_Transport
  imports Text_Prelude
begin

text \<open>
  Direct transport decisions: the rollout policy and attach decision of
  \<open>core/include/server/core/realtime/transport_policy.hpp\<close>, the delivery decision of
  \<open>direct_delivery.hpp\<close> and the quality tracker of \<open>transport_quality.hpp\<close>.
\<close>

section \<open>Rollout policy\<close>

definition trim_ascii :: "string \<Rightarrow> string" where
  "trim_ascii value = trim_with is_ascii_space value"

definition parse_u16_token :: "string \<Rightarrow> u16 option" where
  "parse_u16_token token =
     (let token = trim_ascii token
      in if token = [] then None
         else
           let hex = length token > 2 \<and> token ! 0 = CHR ''0'' \<and>
                     (token ! 1 = CHR ''x'' \<or> token ! 1 = CHR ''X'');
               base = (if hex then 16 else 10);
               token = (if hex then drop 2 token else token)
           in if token = [] then None
              else (case from_chars (2 ^ 32 - 1) base token of
                      None \<Rightarrow> None
                    | Some (parsed, rest) \<Rightarrow>
                        if rest \<noteq> [] \<or> parsed > 0xFFFF then None else Some (word_of_nat parsed)))"

definition fnv_byte :: "u64 \<Rightarrow> u8 \<Rightarrow> u64" where
  "fnv_byte hash b = (hash XOR ucast b) * 1099511628211"

definition fnv1a64 :: "string \<Rightarrow> u64 \<Rightarrow> u64" where
  "fnv1a64 session_id nonce =
     (let hash = foldl (\<lambda>hash c. fnv_byte hash (of_char c)) 1469598103934665603 session_id
      in foldl (\<lambda>hash shift. fnv_byte hash (ucast (drop_bit shift nonce AND 0xFF))) hash
           [0, 8, 16, 24, 32, 40, 48, 56])"

text \<open>The loop over the comma-separated list; the argument is the text from \<open>begin\<close> on.\<close>

function parse_allowlist_loop :: "string \<Rightarrow> u16 set \<Rightarrow> u16 set" where
  "parse_allowlist_loop csv out =
     (let token = takeWhile (\<lambda>c. c \<noteq> CHR '','') csv;
          out = (case parse_u16_token token of None \<Rightarrow> out | Some opcode \<Rightarrow> insert opcode out)
      in case dropWhile (\<lambda>c. c \<noteq> CHR '','') csv of
           [] \<Rightarrow> out
         | _ # rest \<Rightarrow> parse_allowlist_loop rest out)"
  by pat_completeness auto
termination
proof (relation "measure (length \<circ> fst)", goal_cases)
  case (2 csv out token x c rest)
  then have "length (c # rest) \<le> length csv" by (metis length_dropWhile_le)
  then show ?case by simp
qed simp

declare parse_allowlist_loop.simps [simp del]

definition parse_direct_opcode_allowlist :: "string \<Rightarrow> u16 set" where
  "parse_direct_opcode_allowlist csv = parse_allowlist_loop csv {}"

record DirectTransportRolloutPolicy =
  rp_enabled :: bool
  rp_canary_percent :: u32
  rp_opcode_allowlist :: "u16 set"

definition session_selected :: "DirectTransportRolloutPolicy \<Rightarrow> string \<Rightarrow> u64 \<Rightarrow> bool" where
  "session_selected policy session_id nonce =
     (if \<not> rp_enabled policy \<or> rp_canary_percent policy = 0 then False
      else if rp_canary_percent policy \<ge> 100 then True
      else (ucast (fnv1a64 session_id nonce mod 100) :: u32) < rp_canary_percent policy)"

definition opcode_allowed :: "DirectTransportRolloutPolicy \<Rightarrow> u16 \<Rightarrow> bool" where
  "opcode_allowed policy opcode \<longleftrightarrow>
     rp_opcode_allowlist policy \<noteq> {} \<and> opcode \<in> rp_opcode_allowlist policy"

datatype DirectAttachMode = AmUdpOnly | AmRudpCanary

datatype DirectAttachReason = ArRolloutDisabled | ArAllowlistEmpty | ArCanaryMiss | ArCanarySelected

record DirectAttachDecision =
  ad_mode :: DirectAttachMode
  ad_reason :: DirectAttachReason

definition evaluate_direct_attach ::
  "DirectTransportRolloutPolicy \<Rightarrow> string \<Rightarrow> u64 \<Rightarrow> DirectAttachDecision"
where
  "evaluate_direct_attach policy session_id nonce =
     (if \<not> rp_enabled policy then \<lparr>ad_mode = AmUdpOnly, ad_reason = ArRolloutDisabled\<rparr>
      else if rp_opcode_allowlist policy = {} then
        \<lparr>ad_mode = AmUdpOnly, ad_reason = ArAllowlistEmpty\<rparr>
      else if \<not> session_selected policy session_id nonce then
        \<lparr>ad_mode = AmUdpOnly, ad_reason = ArCanaryMiss\<rparr>
      else \<lparr>ad_mode = AmRudpCanary, ad_reason = ArCanarySelected\<rparr>)"

section \<open>Delivery decision\<close>

datatype DirectDeliveryRoute = DrTcpFallback | DrUdp | DrRudp

datatype DirectDeliveryReason =
    DyMessageNotEligible | DyNotUdpBound | DyUdpDirect | DyRudpDirect | DyRudpFallbackLatched
  | DyRudpHandshakePendingUdp

record DirectDeliveryContext =
  dc_direct_path_enabled_for_message :: bool
  dc_udp_bound :: bool
  dc_rudp_selected :: bool
  dc_rudp_fallback_to_tcp :: bool
  dc_rudp_established :: bool

record DirectDeliveryDecision =
  dd_route :: DirectDeliveryRoute
  dd_reason :: DirectDeliveryReason

definition evaluate_direct_delivery :: "DirectDeliveryContext \<Rightarrow> DirectDeliveryDecision" where
  "evaluate_direct_delivery context =
     (if \<not> dc_direct_path_enabled_for_message context \<or> \<not> dc_udp_bound context then
        \<lparr>dd_route = DrTcpFallback,
         dd_reason = (if dc_direct_path_enabled_for_message context then DyNotUdpBound
                      else DyMessageNotEligible)\<rparr>
      else if \<not> dc_rudp_selected context then \<lparr>dd_route = DrUdp, dd_reason = DyUdpDirect\<rparr>
      else if dc_rudp_fallback_to_tcp context then
        \<lparr>dd_route = DrTcpFallback, dd_reason = DyRudpFallbackLatched\<rparr>
      else if dc_rudp_established context then \<lparr>dd_route = DrRudp, dd_reason = DyRudpDirect\<rparr>
      else \<lparr>dd_route = DrUdp, dd_reason = DyRudpHandshakePendingUdp\<rparr>)"

definition select_direct_delivery_route :: "DirectDeliveryContext \<Rightarrow> DirectDeliveryRoute" where
  "select_direct_delivery_route context = dd_route (evaluate_direct_delivery context)"

section \<open>Transport quality\<close>

record UpdateResult =
  ur_accepted :: bool
  ur_duplicate :: bool
  ur_reordered :: bool
  ur_estimated_lost_packets :: u64
  ur_jitter_ms :: u64

record UdpSequencedMetrics =
  um_initialized :: bool
  um_last_seq :: u32
  um_last_recv_ms :: u64
  um_last_interarrival_ms :: u64

definition new_update_result :: UpdateResult where
  "new_update_result = \<lparr>ur_accepted = False, ur_duplicate = False, ur_reordered = False,
     ur_estimated_lost_packets = 0, ur_jitter_ms = 0\<rparr>"

definition new_sequenced_metrics :: UdpSequencedMetrics where
  "new_sequenced_metrics = \<lparr>um_initialized = False, um_last_seq = 0, um_last_recv_ms = 0,
     um_last_interarrival_ms = 0\<rparr>"

definition sequenced_reset :: "UdpSequencedMetrics \<Rightarrow> UdpSequencedMetrics" where
  "sequenced_reset m = m\<lparr>um_initialized := False, um_last_seq := 0, um_last_recv_ms := 0,
     um_last_interarrival_ms := 0\<rparr>"

definition on_packet :: "UdpSequencedMetrics \<Rightarrow> u32 \<Rightarrow> u64 \<Rightarrow> UdpSequencedMetrics \<times> UpdateResult" where
  "on_packet m seq recv_unix_ms =
     (if \<not> um_initialized m then
        (\<lparr>um_initialized = True, um_last_seq = seq, um_last_recv_ms = recv_unix_ms,
          um_last_interarrival_ms = 0\<rparr>, new_update_result\<lparr>ur_accepted := True\<rparr>)
      else if seq = um_last_seq m then (m, new_update_result\<lparr>ur_duplicate := True\<rparr>)
      else if seq < um_last_seq m then (m, new_update_result\<lparr>ur_reordered := True\<rparr>)
      else
        let result = new_update_result\<lparr>ur_accepted := True\<rparr>;
            result = (if seq > um_last_seq m + 1 then
                        result\<lparr>ur_estimated_lost_packets := ucast (seq - um_last_seq m - 1)\<rparr>
                      else result);
            (m, result) =
              (if um_last_recv_ms m \<noteq> 0 then
                 if recv_unix_ms \<ge> um_last_recv_ms m then
                   let interarrival_ms = recv_unix_ms - um_last_recv_ms m;
                       last = um_last_interarrival_ms m;
                       result = (if last \<noteq> 0 then
                                   result\<lparr>ur_jitter_ms := (if interarrival_ms \<ge> last
                                     then interarrival_ms - last else last - interarrival_ms)\<rparr>
                                 else result)
                   in (m\<lparr>um_last_interarrival_ms := interarrival_ms\<rparr>, result)
                 else (m\<lparr>um_last_interarrival_ms := 0\<rparr>, result)
               else (m, result))
        in (m\<lparr>um_last_seq := seq, um_last_recv_ms := recv_unix_ms\<rparr>, result))"

section \<open>Properties of the rollout policy\<close>

lemma parse_allowlist_loop_split:
  "parse_allowlist_loop csv out =
     out \<union> {opcode. \<exists>token\<in>set (split_at CHR '','' csv). parse_u16_token token = Some opcode}"
proof (induction "length csv" arbitrary: csv out rule: less_induct)
  case less
  let ?tok = "takeWhile (\<lambda>c. c \<noteq> CHR '','') csv"
  let ?out = "case parse_u16_token ?tok of None \<Rightarrow> out | Some opcode \<Rightarrow> insert opcode out"
  have out: "?out = out \<union> {opcode. parse_u16_token ?tok = Some opcode}"
    by (auto split: option.splits)
  show ?case
  proof (cases "dropWhile (\<lambda>c. c \<noteq> CHR '','') csv")
    case Nil
    show ?thesis
      unfolding parse_allowlist_loop.simps [of csv] split_at_break [of _ csv] Nil Let_def out by simp
  next
    case (Cons c rest)
    then have "length rest < length csv"
      by (metis length_dropWhile_le length_Cons Suc_le_lessD)
    from less [OF this] show ?thesis
      unfolding parse_allowlist_loop.simps [of csv] split_at_break [of _ csv] Cons Let_def out by auto
  qed
qed

text \<open>
  What a piece of the setting may look like, as a grammar: blanks around a literal, which is a decimal number or
  \<open>0x\<close> with a hexadecimal number; leading zeros and both cases of the letters are allowed.
\<close>

definition digit_of :: "nat \<Rightarrow> char \<Rightarrow> nat \<Rightarrow> bool" where
  "digit_of base c v \<longleftrightarrow> v < base \<and> (c = ''0123456789abcdef'' ! v \<or> c = ''0123456789ABCDEF'' ! v)"

inductive writes_number :: "nat \<Rightarrow> string \<Rightarrow> nat \<Rightarrow> bool" for base where
  wn_digit: "digit_of base c v \<Longrightarrow> writes_number base [c] v"
| wn_more: "writes_number base ds n \<Longrightarrow> digit_of base c v \<Longrightarrow> writes_number base (ds @ [c]) (n * base + v)"

inductive writes_literal :: "string \<Rightarrow> nat \<Rightarrow> bool" where
  wl_decimal: "writes_number 10 ds n \<Longrightarrow> writes_literal ds n"
| wl_hex: "writes_number 16 ds n \<Longrightarrow> x = CHR ''x'' \<or> x = CHR ''X'' \<Longrightarrow> writes_literal (CHR ''0'' # x # ds) n"

inductive writes_opcode :: "string \<Rightarrow> nat \<Rightarrow> bool" where
  "set l \<union> set r \<subseteq> {CHR '' '', CHR 0x09, CHR 0x0A, CHR 0x0D} \<Longrightarrow> writes_literal t n \<Longrightarrow> writes_opcode (l @ t @ r) n"

lemma digit_of_value: "base \<in> {10, 16} \<Longrightarrow> digit_of base c v \<longleftrightarrow> digit_value base c = Some v"
proof
  assume base: "base \<in> {10, 16}" and "digit_of base c v"
  then have v: "v < base" "c = ''0123456789abcdef'' ! v \<or> c = ''0123456789ABCDEF'' ! v" by (simp_all add: digit_of_def)
  then have "v \<in> set [0..<16]" using base by auto
  then show "digit_value base c = Some v" using v base by (simp add: upt_rec) (auto simp: digit_value_def)
next
  assume base: "base \<in> {10, 16}" and d: "digit_value base c = Some v"
  let ?n = "of_char c :: nat"
  have "v < base" "?n = v + 48 \<and> v < 10 \<or> ?n = v + 87 \<and> 10 \<le> v \<or> ?n = v + 55 \<and> 10 \<le> v"
    using d base by (auto simp: digit_value_def Let_def split: if_splits)
  moreover have "c = char_of ?n" by simp
  ultimately have "c = char_of (v + 48) \<and> v < 10 \<or> c = char_of (v + 87) \<and> 10 \<le> v \<or> c = char_of (v + 55) \<and> 10 \<le> v"
    by metis
  moreover have "v \<in> set [0..<16]" using \<open>v < base\<close> base by auto
  ultimately show "digit_of base c v" using \<open>v < base\<close>
    by (simp add: upt_rec) (auto simp: digit_of_def char_of_def bit_Suc_0_iff)
qed

lemma digits_value_single: "digits_value base [c] = the (digit_value base c)"
  by (simp add: digits_value_def)

lemma writes_number_iff:
  assumes "base \<in> {10, 16}"
  shows "writes_number base ds n \<longleftrightarrow> ds \<noteq> [] \<and> list_all (is_digit base) ds \<and> digits_value base ds = n"
proof
  assume "writes_number base ds n"
  then show "ds \<noteq> [] \<and> list_all (is_digit base) ds \<and> digits_value base ds = n"
    by induction (auto simp: digit_of_value [OF assms] is_digit_def digits_value_single)
next
  show "ds \<noteq> [] \<and> list_all (is_digit base) ds \<and> digits_value base ds = n \<Longrightarrow> writes_number base ds n"
  proof (induction ds arbitrary: n rule: rev_induct)
    case (snoc c ds)
    then obtain v where v: "digit_of base c v" by (auto simp: digit_of_value [OF assms] is_digit_def)
    show ?case
    proof (cases "ds = []")
      case True
      then show ?thesis using snoc.prems v by (auto simp: digit_of_value [OF assms] digits_value_single intro: wn_digit)
    next
      case False
      then have "writes_number base ds (digits_value base ds)" using snoc by simp
      from wn_more [OF this v] show ?thesis using snoc.prems v by (simp add: digit_of_value [OF assms])
    qed
  qed simp
qed

lemma digit_not_blank: "is_digit base c \<Longrightarrow> \<not> is_ascii_space c"
  by (auto simp: is_ascii_space_def is_digit_def digit_value_def Let_def split: if_splits)

lemma number_ends:
  "base \<in> {10, 16} \<Longrightarrow> writes_number base ds n \<Longrightarrow>
     ds \<noteq> [] \<and> \<not> is_ascii_space (hd ds) \<and> \<not> is_ascii_space (last ds)"
  unfolding writes_number_iff list_all_iff by (meson digit_not_blank hd_in_set last_in_set)

lemma literal_ends:
  "writes_literal t n \<Longrightarrow> t \<noteq> [] \<and> \<not> is_ascii_space (hd t) \<and> \<not> is_ascii_space (last t)"
proof (induction rule: writes_literal.induct)
  case (wl_decimal ds n)
  then show ?case using number_ends [of 10 ds n] by simp
next
  case (wl_hex ds n x)
  then show ?case using number_ends [of 16 ds n] by (simp add: is_ascii_space_def)
qed

lemma trim_ascii_blanks:
  assumes "set l \<union> set r \<subseteq> {CHR '' '', CHR 0x09, CHR 0x0A, CHR 0x0D}"
    and "t \<noteq> []" "\<not> is_ascii_space (hd t)" "\<not> is_ascii_space (last t)"
  shows "trim_ascii (l @ t @ r) = t"
proof -
  have sp: "\<forall>c \<in> set l. is_ascii_space c" "\<forall>c \<in> set (rev r). is_ascii_space c"
    using assms(1) by (auto simp: is_ascii_space_def)
  have "dropWhile is_ascii_space (l @ t @ r) = t @ r"
    using sp(1) assms(2,3) by (simp add: dropWhile_append2 dropWhile_hd_id)
  moreover have "dropWhile is_ascii_space (rev r @ rev t) = rev t"
    using dropWhile_append2 [of "rev r" is_ascii_space "rev t"] sp(2) assms(2,4)
    by (simp add: dropWhile_hd_id [of "rev t"] hd_rev)
  ultimately show ?thesis by (simp add: trim_ascii_def trim_with_def)
qed

lemma trim_ascii_surrounded:
  "\<exists>l r. token = l @ trim_ascii token @ r \<and> set l \<union> set r \<subseteq> {CHR '' '', CHR 0x09, CHR 0x0A, CHR 0x0D}"
proof -
  let ?d = "dropWhile is_ascii_space token"
  have "token = takeWhile is_ascii_space token @ ?d" by simp
  also have "?d = trim_ascii token @ rev (takeWhile is_ascii_space (rev ?d))"
    using takeWhile_dropWhile_id [of is_ascii_space "rev ?d"]
    by (metis rev_append rev_rev_ident trim_ascii_def trim_with_def)
  finally have "token = takeWhile is_ascii_space token @ trim_ascii token @ rev (takeWhile is_ascii_space (rev ?d))" .
  moreover have "set (takeWhile is_ascii_space xs) \<subseteq> {CHR '' '', CHR 0x09, CHR 0x0A, CHR 0x0D}" for xs
    by (auto simp: is_ascii_space_def dest: set_takeWhileD)
  ultimately show ?thesis by (metis Un_least set_rev)
qed

text \<open>On a text without blanks around it the parser accepts exactly the literals of 16-bit numbers.\<close>

lemma from_chars_whole:
  "from_chars limit base ds = Some (n, []) \<longleftrightarrow>
     ds \<noteq> [] \<and> list_all (is_digit base) ds \<and> digits_value base ds = n \<and> n \<le> limit"
proof (cases "list_all (is_digit base) ds")
  case True
  then have all: "takeWhile (is_digit base) ds = ds" "dropWhile (is_digit base) ds = []" by (simp_all add: list_all_iff)
  show ?thesis unfolding from_chars_def Let_def all using True by auto
next
  case False
  then have "dropWhile (is_digit base) ds \<noteq> []" by (simp add: list_all_iff)
  then show ?thesis using False by (auto simp: from_chars_def Let_def)
qed

lemma accept_u16:
  "(case r of None \<Rightarrow> None
     | Some (parsed, rest) \<Rightarrow> if rest \<noteq> [] \<or> parsed > 0xFFFF then None else Some (word_of_nat parsed)) = Some (opcode :: u16) \<longleftrightarrow>
   r = Some (unat opcode, [])"
proof -
  have "n \<le> 0xFFFF \<and> word_of_nat n = opcode \<longleftrightarrow> n = unat opcode" for n
    using unat_less_65536 [of opcode] by (auto simp: unat_of_nat take_bit_nat_eq_self simp del: unat_less_65536)
  then show ?thesis using unat_less_65536 [of opcode] by (auto simp: not_less simp del: unat_less_65536 split: option.splits)
qed

lemma accept_number:
  assumes "base \<in> {10, 16}"
  shows "from_chars (2 ^ 32 - 1) base ds = Some (unat (opcode :: u16), []) \<longleftrightarrow> writes_number base ds (unat opcode)"
  using unat_less_65536 [of opcode] by (simp add: from_chars_whole writes_number_iff [OF assms] del: unat_less_65536)

lemma parse_u16_token_literal:
  assumes "trim_ascii token = token"
  shows "parse_u16_token token = Some opcode \<longleftrightarrow> writes_literal token (unat opcode)"
proof (cases "\<exists>x y ds. token = CHR ''0'' # x # y # ds \<and> (x = CHR ''x'' \<or> x = CHR ''X'')")
  case True
  then obtain x y ds where token: "token = CHR ''0'' # x # y # ds" "x = CHR ''x'' \<or> x = CHR ''X''" by blast
  have "\<not> is_digit 10 x" using token(2) by (auto simp: is_digit_def digit_value_def)
  then have "\<not> writes_number 10 token (unat opcode)" by (simp add: writes_number_iff token)
  then have "writes_literal token (unat opcode) \<longleftrightarrow> writes_number 16 (y # ds) (unat opcode)"
    using token by (auto simp: writes_literal.simps)
  moreover have "parse_u16_token token = Some opcode \<longleftrightarrow>
      from_chars (2 ^ 32 - 1) 16 (y # ds) = Some (unat opcode, [])"
    using token unfolding parse_u16_token_def assms Let_def by (simp add: accept_u16)
  ultimately show ?thesis using accept_number [of 16] accept_number [of 10] by blast
next
  case False
  then have hex: "\<not> (length token > 2 \<and> token ! 0 = CHR ''0'' \<and> (token ! 1 = CHR ''x'' \<or> token ! 1 = CHR ''X''))"
    by (cases token rule: remdups_adj.cases) (auto simp: neq_Nil_conv)
  have "\<not> (\<exists>ds x. token = CHR ''0'' # x # ds \<and> (x = CHR ''x'' \<or> x = CHR ''X'') \<and> writes_number 16 ds (unat opcode))"
    using False by (auto simp: writes_number_iff neq_Nil_conv)
  then have "writes_literal token (unat opcode) \<longleftrightarrow> writes_number 10 token (unat opcode)"
    by (auto simp: writes_literal.simps)
  moreover have "parse_u16_token token = Some opcode \<longleftrightarrow> from_chars (2 ^ 32 - 1) 10 token = Some (unat opcode, [])"
  proof (cases "token = []")
    case False
    then show ?thesis unfolding parse_u16_token_def assms Let_def if_not_P [OF hex] by (simp only: accept_u16 if_False)
  qed (simp add: parse_u16_token_def trim_ascii_def trim_with_def from_chars_whole)
  ultimately show ?thesis using accept_number [of 16] accept_number [of 10] by blast
qed

lemma parse_u16_token_iff: "parse_u16_token token = Some opcode \<longleftrightarrow> writes_opcode token (unat opcode)"
proof -
  have "parse_u16_token token = parse_u16_token (trim_ascii token)" by (simp add: parse_u16_token_def trim_ascii_def)
  then have "parse_u16_token token = Some opcode \<longleftrightarrow> writes_literal (trim_ascii token) (unat opcode)"
    by (simp add: parse_u16_token_literal trim_ascii_def)
  moreover have "writes_opcode token (unat opcode) \<longleftrightarrow> writes_literal (trim_ascii token) (unat opcode)"
    using trim_ascii_surrounded [of token] literal_ends trim_ascii_blanks by (metis writes_opcode.simps)
  ultimately show ?thesis by simp
qed

text \<open>C20. Opcode allowlist. The set read from a comma-separated setting holds exactly the opcodes that some piece
  between the commas writes: a decimal number or \<open>0x\<close> with a hexadecimal number, with blanks around it, whose
  value fits 16 bits. Every other piece is skipped and does not affect the pieces after it.
\<close>

theorem parse_allowlist_exact:
  "opcode \<in> parse_direct_opcode_allowlist csv \<longleftrightarrow>
     (\<exists>token. token \<in> set (split_at CHR '','' csv) \<and> writes_opcode token (unat opcode))"
  by (auto simp: parse_direct_opcode_allowlist_def parse_allowlist_loop_split parse_u16_token_iff)

text \<open>Canary rollout. A session attaches over RUDP exactly when the rollout is enabled, some
  opcode is allowed and the session is selected; selection is monotone in the percentage, so
  raising it never removes a session, and 100 percent selects every session.
\<close>

theorem canary_rollout_monotone:
  assumes "rp_canary_percent p \<le> rp_canary_percent q" and "rp_enabled p = rp_enabled q"
    and "rp_opcode_allowlist p = rp_opcode_allowlist q"
    and "ad_mode (evaluate_direct_attach p sid nonce) = AmRudpCanary"
  shows "ad_mode (evaluate_direct_attach q sid nonce) = AmRudpCanary"
proof -
  have e: "rp_enabled q" "rp_opcode_allowlist q \<noteq> {}" "session_selected p sid nonce"
    using assms by (auto simp: evaluate_direct_attach_def split: if_splits)
  have "session_selected q sid nonce"
  proof (cases "rp_canary_percent q \<ge> 100")
    case True
    with e show ?thesis by (auto simp: session_selected_def)
  next
    case False
    with assms(1) have "\<not> rp_canary_percent p \<ge> 100" by auto
    with e(3) have "0 < rp_canary_percent p"
        "(ucast (fnv1a64 sid nonce mod 100) :: u32) < rp_canary_percent p"
      by (auto simp: session_selected_def word_gt_0 split: if_splits)
    with assms(1) have "0 < rp_canary_percent q"
        "(ucast (fnv1a64 sid nonce mod 100) :: u32) < rp_canary_percent q" by auto
    with False e(1) show ?thesis by (auto simp: session_selected_def)
  qed
  with e show ?thesis by (simp add: evaluate_direct_attach_def)
qed


theorem canary_rollout_monotone_witness:
  "let p = \<lparr>rp_enabled = True, rp_canary_percent = 100, rp_opcode_allowlist = {7}\<rparr>
   in ad_mode (evaluate_direct_attach (p\<lparr>rp_canary_percent := 120\<rparr>) ''s'' 5) = AmRudpCanary"
proof -
  let ?p = "\<lparr>rp_enabled = True, rp_canary_percent = 100, rp_opcode_allowlist = {7}\<rparr>"
  have "ad_mode (evaluate_direct_attach ?p ''s'' 5) = AmRudpCanary"
    by (simp add: evaluate_direct_attach_def session_selected_def)
  then show ?thesis
    using canary_rollout_monotone [of ?p "?p\<lparr>rp_canary_percent := 120\<rparr>" "''s''" 5]
    by (simp add: Let_def)
qed

section \<open>Properties of the delivery decision\<close>

text \<open>
  Delivery route: RUDP carries a message exactly when the message is eligible, the peer is
  bound, RUDP was selected for it, no fallback is latched and the handshake is complete; UDP
  carries it exactly when it is eligible and bound and either RUDP was not selected or its
  handshake is pending without a fallback; TCP carries everything else. A latched fallback
  of a selected session therefore never leaves TCP.
\<close>

theorem delivery_route_exact:
  "select_direct_delivery_route c =
     (if dc_direct_path_enabled_for_message c \<and> dc_udp_bound c \<and>
         \<not> (dc_rudp_selected c \<and> dc_rudp_fallback_to_tcp c)
      then if dc_rudp_selected c \<and> dc_rudp_established c then DrRudp else DrUdp
      else DrTcpFallback)"
  by (simp add: select_direct_delivery_route_def evaluate_direct_delivery_def)

section \<open>Properties of the quality tracker\<close>

text \<open>The accepted packets of a run, each with the losses reported for it.\<close>

fun quality_run :: "UdpSequencedMetrics \<Rightarrow> (u32 \<times> u64) list \<Rightarrow> (u32 \<times> u64) list" where
  "quality_run m [] = []"
| "quality_run m ((seq, t) # ps) =
     (case on_packet m seq t of (m', r) \<Rightarrow>
        if ur_accepted r then (seq, ur_estimated_lost_packets r) # quality_run m' ps
        else quality_run m' ps)"

lemma on_packet_first:
  "\<not> um_initialized m \<Longrightarrow> on_packet m seq t = (m', r) \<Longrightarrow>
     ur_accepted r \<and> ur_estimated_lost_packets r = 0 \<and> um_initialized m' \<and> um_last_seq m' = seq"
  by (auto simp: on_packet_def new_update_result_def)

lemma on_packet_next:
  assumes "um_initialized m" and "on_packet m seq t = (m', r)"
  shows "if um_last_seq m < seq
    then ur_accepted r \<and> um_initialized m' \<and> um_last_seq m' = seq \<and>
      unat (um_last_seq m) + unat (ur_estimated_lost_packets r) + 1 = unat seq
    else m' = m \<and> \<not> ur_accepted r"
proof (cases "um_last_seq m < seq")
  case True
  let ?l = "um_last_seq m"
  have lt: "unat ?l < unat seq" using True by (simp add: word_less_nat_alt)
  have "Suc (unat ?l) < 4294967296" using lt unat_less_32 [of seq] by linarith
  then have suc: "unat (?l + 1) = unat ?l + 1"
    by (simp add: unat_word_ariths)
  have sub: "unat (seq - ?l - 1) = unat seq - unat ?l - 1"
  proof -
    have "unat (seq - ?l) = unat seq - unat ?l" using True by (intro unat_sub_le) simp
    moreover have "1 \<le> seq - ?l" using calculation lt by (simp add: word_le_nat_alt)
    ultimately show ?thesis by (simp add: unat_sub_le)
  qed
  have lost: "unat (ur_estimated_lost_packets r) = unat seq - unat ?l - 1"
    using assms True sub suc lt
    by (auto simp: on_packet_def new_update_result_def Let_def word_less_nat_alt
        split: if_splits)
  have "ur_accepted r \<and> um_initialized m' \<and> um_last_seq m' = seq"
    using assms True by (auto simp: on_packet_def Let_def new_update_result_def split: if_splits)
  with lost lt True show ?thesis by simp
next
  case False
  with assms show ?thesis
    by (auto simp: on_packet_def new_update_result_def not_less split: if_splits)
qed

lemma quality_run_next:
  assumes "um_initialized m"
  shows "sorted_wrt (<) (um_last_seq m # map fst (quality_run m ps)) \<and>
    unat (um_last_seq m) + (\<Sum>(s, l)\<leftarrow>quality_run m ps. unat l + 1) =
      unat (last (um_last_seq m # map fst (quality_run m ps)))"
  using assms
proof (induction ps arbitrary: m)
  case (Cons p ps)
  obtain seq t where p: "p = (seq, t)" by fastforce
  obtain m' r where o: "on_packet m seq t = (m', r)" by fastforce
  note n = on_packet_next [OF Cons.prems o]
  show ?case
  proof (cases "um_last_seq m < seq")
    case True
    with n Cons.IH [of m'] show ?thesis by (auto simp: p o)
  next
    case False
    with n Cons.IH [of m] Cons.prems show ?thesis by (simp add: p o)
  qed
qed simp

text \<open>Sequence tracking. From a fresh tracker, whatever arrives, the accepted sequence numbers
  are strictly increasing, and the losses reported account exactly for the gaps: the accepted
  packets and the reported losses together are all the numbers from the first accepted one to
  the last.
\<close>

theorem quality_losses_account_for_gaps:
  "let acc = quality_run new_sequenced_metrics ps
   in sorted_wrt (<) (map fst acc) \<and>
      (\<Sum>(s, l)\<leftarrow>acc. unat l + 1) =
        (if acc = [] then 0 else unat (fst (last acc)) - unat (fst (hd acc)) + 1)"
proof (cases ps)
  case (Cons p qs)
  obtain seq t where p: "p = (seq, t)" by fastforce
  obtain m' r where o: "on_packet new_sequenced_metrics seq t = (m', r)" by fastforce
  note f = on_packet_first [OF _ o]
  then have f: "ur_accepted r" "ur_estimated_lost_packets r = 0" "um_initialized m'" "um_last_seq m' = seq"
    by (simp_all add: new_sequenced_metrics_def)
  from quality_run_next [OF f(3), of qs] f show ?thesis
    by (auto simp: Cons p o Let_def last_map)
qed simp

end
