(* ===== verification/Keyed_Index.thy ===== *)
theory Keyed_Index
  imports Text_Prelude
begin

text \<open>
  The \<open>std::unordered_map\<close> indices of the code: \<open>emplace\<close> keeps the first value of a key,
  \<open>find\<close> and \<open>erase\<close> work by key. The order in which such a map is iterated is not specified,
  so code that iterates one takes the order as an argument, a function that permutes the list
  of values.

  The locale \<open>keyed_index\<close> states what the callers rely on; its lemmas describe the index
  built from a list, which is what every evaluation in the topology code starts with.
\<close>

type_synonym ('k, 'v) idx = "('k \<times> 'v) list"

definition idx_empty :: "('k, 'v) idx" where
  "idx_empty = []"

definition idx_find :: "('k, 'v) idx \<Rightarrow> 'k \<Rightarrow> 'v option" where
  "idx_find m k = map_of m k"

definition idx_emplace :: "'k \<Rightarrow> 'v \<Rightarrow> ('k, 'v) idx \<Rightarrow> ('k, 'v) idx" where
  "idx_emplace k v m = (if idx_find m k = None then m @ [(k, v)] else m)"

definition idx_erase :: "'k \<Rightarrow> ('k, 'v) idx \<Rightarrow> ('k, 'v) idx" where
  "idx_erase k m = filter (\<lambda>e. fst e \<noteq> k) m"

definition idx_update :: "'k \<Rightarrow> ('v \<Rightarrow> 'v) \<Rightarrow> ('k, 'v) idx \<Rightarrow> ('k, 'v) idx" where
  "idx_update k f m = map (\<lambda>e. if fst e = k then (fst e, f (snd e)) else e) m"

definition idx_values :: "('k, 'v) idx \<Rightarrow> 'v list" where
  "idx_values m = map snd m"

text \<open>The loop \<open>for (x : xs) index.emplace(key(x), x)\<close>.\<close>

definition index_by :: "('v \<Rightarrow> 'k) \<Rightarrow> 'v list \<Rightarrow> ('k, 'v) idx" where
  "index_by key xs = foldl (\<lambda>m x. idx_emplace (key x) x m) idx_empty xs"

text \<open>An iteration order: it lists the same values, each as often.\<close>

definition iteration_order :: "('v list \<Rightarrow> 'v list) \<Rightarrow> bool" where
  "iteration_order it \<longleftrightarrow> (\<forall>vs. mset (it vs) = mset vs)"

lemma iteration_order_set: "iteration_order it \<Longrightarrow> set (it vs) = set vs"
  by (metis iteration_order_def set_mset_mset)

lemma iteration_order_length: "iteration_order it \<Longrightarrow> length (it vs) = length vs"
  by (metis iteration_order_def size_mset)

lemma iteration_order_id [simp]: "iteration_order id" "iteration_order (\<lambda>vs. vs)"
  by (simp_all add: iteration_order_def)

section \<open>The contract of an index\<close>

locale keyed_index =
  fixes empty :: 'm and find :: "'m \<Rightarrow> 'k \<Rightarrow> 'v option"
    and emplace :: "'k \<Rightarrow> 'v \<Rightarrow> 'm \<Rightarrow> 'm" and erase :: "'k \<Rightarrow> 'm \<Rightarrow> 'm"
    and vals :: "'m \<Rightarrow> 'v list" and invar :: "'m \<Rightarrow> bool"
  assumes invar_empty: "invar empty" and invar_emplace: "invar m \<Longrightarrow> invar (emplace k v m)"
    and invar_erase: "invar m \<Longrightarrow> invar (erase k m)"
    and find_empty: "find empty k = None"
    and find_emplace: "find (emplace k v m) k' =
          (if k' = k \<and> find m k = None then Some v else find m k')"
    and find_erase: "find (erase k m) k' = (if k' = k then None else find m k')"
    and vals_find: "invar m \<Longrightarrow> v \<in> set (vals m) \<longleftrightarrow> (\<exists>k. find m k = Some v)"
    and length_vals: "invar m \<Longrightarrow> length (vals m) = card {k. find m k \<noteq> None}"
begin

lemma find_emplace_all:
  "find (foldl (\<lambda>m x. emplace (key x) x m) m xs) k =
     (case find m k of Some v \<Rightarrow> Some v | None \<Rightarrow> List.find (\<lambda>x. key x = k) xs)"
  by (induction xs arbitrary: m) (auto simp: find_emplace split: option.splits)

lemma invar_emplace_all: "invar m \<Longrightarrow> invar (foldl (\<lambda>m x. emplace (key x) x m) m xs)"
  by (induction xs arbitrary: m) (simp_all add: invar_emplace)

lemma find_erase_all:
  "find (foldl (\<lambda>m k. erase k m) m ks) k = (if k \<in> set ks then None else find m k)"
  by (induction ks arbitrary: m) (auto simp: find_erase)

lemma invar_erase_all: "invar m \<Longrightarrow> invar (foldl (\<lambda>m k. erase k m) m ks)"
  by (induction ks arbitrary: m) (simp_all add: invar_erase)

end

definition idx_invar :: "('k, 'v) idx \<Rightarrow> bool" where
  "idx_invar m \<longleftrightarrow> distinct (map fst m)"

lemma idx_find_values:
  "idx_invar m \<Longrightarrow> v \<in> set (idx_values m) \<longleftrightarrow> (\<exists>k. idx_find m k = Some v)"
  by (force simp: idx_invar_def idx_values_def idx_find_def)

interpretation idx: keyed_index idx_empty idx_find idx_emplace idx_erase idx_values idx_invar
proof (unfold_locales, goal_cases)
  case (2 m k v)
  then show ?case by (auto simp: idx_invar_def idx_emplace_def idx_find_def map_of_eq_None_iff)
next
  case (5 k v m k')
  show ?case
    by (auto simp: idx_emplace_def idx_find_def map_add_def split: option.splits)
next
  case (6 k m k')
  show ?case
    by (induction m) (auto simp: idx_erase_def idx_find_def)
next
  case (7 m v)
  then show ?case by (rule idx_find_values)
next
  case (8 m)
  have "{k. idx_find m k \<noteq> None} = fst ` set m"
    by (auto simp: idx_find_def map_of_eq_None_iff)
  with 8 distinct_card [of "map fst m"] show ?case
    by (simp add: idx_values_def idx_invar_def)
qed (auto simp: idx_invar_def idx_empty_def idx_find_def idx_erase_def distinct_map_filter)

lemma find_index_by: "idx_find (index_by key xs) k = List.find (\<lambda>x. key x = k) xs"
  by (simp add: index_by_def idx.find_emplace_all idx.find_empty)

lemma invar_index_by [simp]: "idx_invar (index_by key xs)"
  by (simp add: index_by_def idx.invar_emplace_all idx.invar_empty)

text \<open>With pairwise different keys the index holds every element under its key.\<close>

lemma find_distinct:
  assumes "distinct (map key xs)"
  shows "List.find (\<lambda>x. key x = k) xs = Some x \<longleftrightarrow> x \<in> set xs \<and> key x = k"
  using assms by (induction xs) (auto simp: rev_image_eqI)

lemma find_None_iff_key: "List.find (\<lambda>x. key x = k) xs = None \<longleftrightarrow> k \<notin> key ` set xs"
  by (induction xs) auto

lemma find_Some_key: "List.find (\<lambda>x. key x = k) xs = Some x \<Longrightarrow> x \<in> set xs \<and> key x = k"
  by (induction xs) (auto split: if_splits)

lemma index_by_distinct:
  assumes "distinct (map key xs)"
  shows "index_by key xs = map (\<lambda>x. (key x, x)) xs"
proof -
  have "foldl (\<lambda>m x. idx_emplace (key x) x m) m xs = m @ map (\<lambda>x. (key x, x)) xs"
    if "distinct (map fst m @ map key xs)" for m
    using that
  proof (induction xs arbitrary: m)
    case (Cons x xs)
    then have "idx_emplace (key x) x m = m @ [(key x, x)]"
      by (auto simp: idx_emplace_def idx_find_def map_of_eq_None_iff)
    with Cons show ?case by simp
  qed simp
  from this [of "[]"] assms show ?thesis by (simp add: index_by_def idx_empty_def)
qed

lemma idx_erase_all:
  "foldl (\<lambda>m k. idx_erase k m) m ks = filter (\<lambda>e. fst e \<notin> set ks) m"
  by (induction ks arbitrary: m) (auto simp: idx_erase_def intro: filter_cong)

section \<open>Assignment and traversal\<close>

text \<open>\<open>m[k] = v\<close>, and a loop that changes every stored value.\<close>

definition idx_put :: "'k \<Rightarrow> 'v \<Rightarrow> ('k, 'v) idx \<Rightarrow> ('k, 'v) idx" where
  "idx_put k v m = (if idx_find m k = None then m @ [(k, v)] else idx_update k (\<lambda>_. v) m)"

definition idx_map :: "('v \<Rightarrow> 'v) \<Rightarrow> ('k, 'v) idx \<Rightarrow> ('k, 'v) idx" where
  "idx_map f m = map (\<lambda>e. (fst e, f (snd e))) m"

lemma idx_find_update [simp]:
  "idx_find (idx_update k f m) k' = (if k' = k then map_option f (idx_find m k) else idx_find m k')"
  by (induction m) (auto simp: idx_update_def idx_find_def)

lemma idx_invar_update [simp]: "idx_invar (idx_update k f m) = idx_invar m"
  by (simp add: idx_update_def idx_invar_def comp_def if_distrib [of fst] cong: if_cong)

lemma idx_find_put [simp]: "idx_find (idx_put k v m) k' = (if k' = k then Some v else idx_find m k')"
  by (auto simp: idx_put_def) (auto simp: idx_find_def map_add_def split: option.splits)

lemma idx_invar_put [simp]: "idx_invar m \<Longrightarrow> idx_invar (idx_put k v m)"
  by (auto simp: idx_put_def) (auto simp: idx_invar_def idx_find_def map_of_eq_None_iff)

lemma idx_find_map [simp]: "idx_find (idx_map f m) k = map_option f (idx_find m k)"
  by (induction m) (auto simp: idx_map_def idx_find_def)

lemma idx_invar_map [simp]: "idx_invar (idx_map f m) = idx_invar m"
  by (simp add: idx_map_def idx_invar_def comp_def)

lemma idx_find_mem: "idx_find m k = Some v \<Longrightarrow> (k, v) \<in> set m"
  by (simp add: idx_find_def map_of_SomeD)

lemma idx_mem_find: "idx_invar m \<Longrightarrow> (k, v) \<in> set m \<longleftrightarrow> idx_find m k = Some v"
  by (simp add: idx_invar_def idx_find_def)

end
