(* ===== verification/Topology.thy ===== *)
theory Topology
  imports Keyed_Index
begin

text \<open>
  The world topology of \<open>core/include/server/core/worlds/topology.hpp\<close>, first half: the desired
  topology document, the pools observed from instance heartbeats, their reconciliation and the
  actuation plan derived from it. Unsigned counters are 32-bit words and wrap; \<open>replica_delta\<close>
  is a 32-bit word read as a signed number.

  The two functions that iterate an \<open>unordered_map\<close> take the iteration order \<open>it\<close>.
\<close>

section \<open>Documents\<close>

record DesiredTopologyPool =
  dp_world_id :: string
  dp_shard :: string
  dp_replicas :: u32
  dp_capacity_class :: string
  dp_placement_tags :: "string list"

record DesiredTopologyDocument =
  dd_topology_id :: string
  dd_revision :: u64
  dd_updated_at_ms :: u64
  dd_pools :: "DesiredTopologyPool list"

record ObservedTopologyInstance =
  oi_instance_id :: string
  oi_role :: string
  oi_world_id :: string
  oi_shard :: string
  oi_ready :: bool

record ObservedTopologyPool =
  op_world_id :: string
  op_shard :: string
  op_instances :: u32
  op_ready_instances :: u32

datatype TopologyPoolStatus =
    TpsAligned | TpsMissingObservedPool | TpsUnderReplicated | TpsOverReplicated
  | TpsNoReadyInstances | TpsUndeclaredObservedPool

fun topology_pool_status_name :: "TopologyPoolStatus \<Rightarrow> string" where
  "topology_pool_status_name TpsAligned = ''aligned''"
| "topology_pool_status_name TpsMissingObservedPool = ''missing_observed_pool''"
| "topology_pool_status_name TpsUnderReplicated = ''under_replicated''"
| "topology_pool_status_name TpsOverReplicated = ''over_replicated''"
| "topology_pool_status_name TpsNoReadyInstances = ''no_ready_instances''"
| "topology_pool_status_name TpsUndeclaredObservedPool = ''undeclared_observed_pool''"

record ReconciledTopologyPool =
  rt_world_id :: string
  rt_shard :: string
  rt_desired_replicas :: u32
  rt_observed_instances :: u32
  rt_ready_instances :: u32
  rt_status :: TopologyPoolStatus

record TopologyReconciliationSummary =
  ts_desired_present :: bool
  ts_desired_pools :: u32
  ts_observed_pools :: u32
  ts_aligned_pools :: u32
  ts_missing_pools :: u32
  ts_under_replicated_pools :: u32
  ts_over_replicated_pools :: u32
  ts_undeclared_pools :: u32
  ts_no_ready_pools :: u32

record TopologyReconciliation =
  tr_summary :: TopologyReconciliationSummary
  tr_pools :: "ReconciledTopologyPool list"

datatype TopologyActuationActionKind =
    TakScaleOutPool | TakScaleInPool | TakRestorePoolReadiness | TakObserveUndeclaredPool

fun topology_actuation_action_kind_name :: "TopologyActuationActionKind \<Rightarrow> string" where
  "topology_actuation_action_kind_name TakScaleOutPool = ''scale_out_pool''"
| "topology_actuation_action_kind_name TakScaleInPool = ''scale_in_pool''"
| "topology_actuation_action_kind_name TakRestorePoolReadiness = ''restore_pool_readiness''"
| "topology_actuation_action_kind_name TakObserveUndeclaredPool = ''observe_undeclared_pool''"

definition parse_topology_actuation_action_kind :: "string \<Rightarrow> TopologyActuationActionKind option" where
  "parse_topology_actuation_action_kind name =
     (if name = ''scale_out_pool'' then Some TakScaleOutPool
      else if name = ''scale_in_pool'' then Some TakScaleInPool
      else if name = ''restore_pool_readiness'' then Some TakRestorePoolReadiness
      else if name = ''observe_undeclared_pool'' then Some TakObserveUndeclaredPool
      else None)"

record TopologyActuationAction =
  ta_world_id :: string
  ta_shard :: string
  ta_status :: TopologyPoolStatus
  ta_action :: TopologyActuationActionKind
  ta_desired_replicas :: u32
  ta_observed_instances :: u32
  ta_ready_instances :: u32
  ta_replica_delta :: i32
  ta_actionable :: bool

record TopologyActuationPlanSummary =
  pl_desired_present :: bool
  pl_actions_total :: u32
  pl_actionable_actions :: u32
  pl_scale_out_actions :: u32
  pl_scale_in_actions :: u32
  pl_readiness_recovery_actions :: u32
  pl_observe_only_actions :: u32

record TopologyActuationPlan =
  tp_summary :: TopologyActuationPlanSummary
  tp_actions :: "TopologyActuationAction list"

definition new_reconciliation_summary :: TopologyReconciliationSummary where
  "new_reconciliation_summary =
     \<lparr>ts_desired_present = False, ts_desired_pools = 0, ts_observed_pools = 0, ts_aligned_pools = 0,
      ts_missing_pools = 0, ts_under_replicated_pools = 0, ts_over_replicated_pools = 0,
      ts_undeclared_pools = 0, ts_no_ready_pools = 0\<rparr>"

definition new_plan_summary :: TopologyActuationPlanSummary where
  "new_plan_summary =
     \<lparr>pl_desired_present = False, pl_actions_total = 0, pl_actionable_actions = 0,
      pl_scale_out_actions = 0, pl_scale_in_actions = 0, pl_readiness_recovery_actions = 0,
      pl_observe_only_actions = 0\<rparr>"

definition make_pool_key :: "string \<Rightarrow> string \<Rightarrow> string" where
  "make_pool_key world_id shard = world_id @ [CHR 0x0A] @ shard"

section \<open>Observed pools\<close>

definition collect_instance ::
  "(string, ObservedTopologyPool) idx \<Rightarrow> ObservedTopologyInstance \<Rightarrow> (string, ObservedTopologyPool) idx"
where
  "collect_instance pool_index inst =
     (if oi_role inst \<noteq> ''server'' then pool_index
      else if oi_world_id inst = [] \<or> oi_shard inst = [] then pool_index
      else
        let key = make_pool_key (oi_world_id inst) (oi_shard inst);
            pool_index = idx_emplace key
              \<lparr>op_world_id = oi_world_id inst, op_shard = oi_shard inst, op_instances = 0,
               op_ready_instances = 0\<rparr> pool_index;
            pool_index = idx_update key (\<lambda>pool. pool\<lparr>op_instances := op_instances pool + 1\<rparr>) pool_index
        in if oi_ready inst then
             idx_update key (\<lambda>pool. pool\<lparr>op_ready_instances := op_ready_instances pool + 1\<rparr>) pool_index
           else pool_index)"

definition collect_observed_pools ::
  "(ObservedTopologyPool list \<Rightarrow> ObservedTopologyPool list) \<Rightarrow> ObservedTopologyInstance list \<Rightarrow>
   ObservedTopologyPool list"
where
  "collect_observed_pools it instances =
     it (idx_values (foldl collect_instance idx_empty instances))"

section \<open>Reconciliation\<close>

definition reconcile_desired_pool ::
  "TopologyReconciliation \<times> (string, ObservedTopologyPool) idx \<Rightarrow> DesiredTopologyPool \<Rightarrow>
   TopologyReconciliation \<times> (string, ObservedTopologyPool) idx"
where
  "reconcile_desired_pool st desired_pool =
     (let (out, observed_index) = st;
          s = tr_summary out;
          reconciled = \<lparr>rt_world_id = dp_world_id desired_pool, rt_shard = dp_shard desired_pool,
            rt_desired_replicas = dp_replicas desired_pool, rt_observed_instances = 0,
            rt_ready_instances = 0, rt_status = TpsAligned\<rparr>;
          key = make_pool_key (dp_world_id desired_pool) (dp_shard desired_pool);
          (reconciled, s, observed_index) =
            (case idx_find observed_index key of
               Some pool \<Rightarrow>
                 (let reconciled = reconciled\<lparr>rt_observed_instances := op_instances pool,
                        rt_ready_instances := op_ready_instances pool\<rparr>;
                      (reconciled, s) =
                        (if op_instances pool = 0 then
                           (reconciled\<lparr>rt_status := TpsMissingObservedPool\<rparr>,
                            s\<lparr>ts_missing_pools := ts_missing_pools s + 1\<rparr>)
                         else if op_ready_instances pool = 0 then
                           (reconciled\<lparr>rt_status := TpsNoReadyInstances\<rparr>,
                            s\<lparr>ts_no_ready_pools := ts_no_ready_pools s + 1\<rparr>)
                         else if op_instances pool < dp_replicas desired_pool then
                           (reconciled\<lparr>rt_status := TpsUnderReplicated\<rparr>,
                            s\<lparr>ts_under_replicated_pools := ts_under_replicated_pools s + 1\<rparr>)
                         else if op_instances pool > dp_replicas desired_pool then
                           (reconciled\<lparr>rt_status := TpsOverReplicated\<rparr>,
                            s\<lparr>ts_over_replicated_pools := ts_over_replicated_pools s + 1\<rparr>)
                         else
                           (reconciled\<lparr>rt_status := TpsAligned\<rparr>,
                            s\<lparr>ts_aligned_pools := ts_aligned_pools s + 1\<rparr>))
                  in (reconciled, s, idx_erase key observed_index))
             | None \<Rightarrow>
                 (reconciled\<lparr>rt_status := TpsMissingObservedPool\<rparr>,
                  s\<lparr>ts_missing_pools := ts_missing_pools s + 1\<rparr>, observed_index))
      in (out\<lparr>tr_summary := s, tr_pools := tr_pools out @ [reconciled]\<rparr>, observed_index))"

definition reconcile_undeclared_pool ::
  "TopologyReconciliation \<Rightarrow> ObservedTopologyPool \<Rightarrow> TopologyReconciliation"
where
  "reconcile_undeclared_pool out observed_pool =
     (let reconciled = \<lparr>rt_world_id = op_world_id observed_pool, rt_shard = op_shard observed_pool,
            rt_desired_replicas = 0, rt_observed_instances = op_instances observed_pool,
            rt_ready_instances = op_ready_instances observed_pool,
            rt_status = TpsUndeclaredObservedPool\<rparr>;
          s = tr_summary out
      in out\<lparr>tr_summary := s\<lparr>ts_undeclared_pools := ts_undeclared_pools s + 1\<rparr>,
             tr_pools := tr_pools out @ [reconciled]\<rparr>)"

abbreviation observed_key :: "ObservedTopologyPool \<Rightarrow> string" where
  "observed_key pool \<equiv> make_pool_key (op_world_id pool) (op_shard pool)"

abbreviation desired_key :: "DesiredTopologyPool \<Rightarrow> string" where
  "desired_key pool \<equiv> make_pool_key (dp_world_id pool) (dp_shard pool)"

definition reconcile_topology ::
  "(ObservedTopologyPool list \<Rightarrow> ObservedTopologyPool list) \<Rightarrow> DesiredTopologyDocument option \<Rightarrow>
   ObservedTopologyPool list \<Rightarrow> TopologyReconciliation"
where
  "reconcile_topology it desired_topology observed_pools =
     (let s = new_reconciliation_summary
            \<lparr>ts_desired_present := desired_topology \<noteq> None,
             ts_observed_pools := word_of_nat (length observed_pools)\<rparr>;
          observed_index = index_by observed_key observed_pools;
          (out, observed_index) =
            (case desired_topology of
               Some desired \<Rightarrow>
                 foldl reconcile_desired_pool
                   (\<lparr>tr_summary = s\<lparr>ts_desired_pools := word_of_nat (length (dd_pools desired))\<rparr>,
                     tr_pools = []\<rparr>, observed_index) (dd_pools desired)
             | None \<Rightarrow> (\<lparr>tr_summary = s, tr_pools = []\<rparr>, observed_index))
      in foldl reconcile_undeclared_pool out (it (idx_values observed_index)))"

section \<open>The actuation plan\<close>

definition plan_pool :: "TopologyActuationPlan \<Rightarrow> ReconciledTopologyPool \<Rightarrow> TopologyActuationPlan" where
  "plan_pool out pool =
     (if rt_status pool = TpsAligned then out
      else
        let action = \<lparr>ta_world_id = rt_world_id pool, ta_shard = rt_shard pool,
              ta_status = rt_status pool, ta_action = TakObserveUndeclaredPool,
              ta_desired_replicas = rt_desired_replicas pool,
              ta_observed_instances = rt_observed_instances pool,
              ta_ready_instances = rt_ready_instances pool, ta_replica_delta = 0,
              ta_actionable = False\<rparr>;
            s = tp_summary out;
            (action, s) =
              (case rt_status pool of
                 TpsMissingObservedPool \<Rightarrow>
                   (action\<lparr>ta_action := TakScaleOutPool,
                      ta_replica_delta := rt_desired_replicas pool - rt_observed_instances pool,
                      ta_actionable := True\<rparr>,
                    s\<lparr>pl_scale_out_actions := pl_scale_out_actions s + 1,
                      pl_actionable_actions := pl_actionable_actions s + 1\<rparr>)
               | TpsUnderReplicated \<Rightarrow>
                   (action\<lparr>ta_action := TakScaleOutPool,
                      ta_replica_delta := rt_desired_replicas pool - rt_observed_instances pool,
                      ta_actionable := True\<rparr>,
                    s\<lparr>pl_scale_out_actions := pl_scale_out_actions s + 1,
                      pl_actionable_actions := pl_actionable_actions s + 1\<rparr>)
               | TpsOverReplicated \<Rightarrow>
                   (action\<lparr>ta_action := TakScaleInPool,
                      ta_replica_delta := rt_observed_instances pool - rt_desired_replicas pool,
                      ta_actionable := True\<rparr>,
                    s\<lparr>pl_scale_in_actions := pl_scale_in_actions s + 1,
                      pl_actionable_actions := pl_actionable_actions s + 1\<rparr>)
               | TpsNoReadyInstances \<Rightarrow>
                   (action\<lparr>ta_action := TakRestorePoolReadiness, ta_actionable := True\<rparr>,
                    s\<lparr>pl_readiness_recovery_actions := pl_readiness_recovery_actions s + 1,
                      pl_actionable_actions := pl_actionable_actions s + 1\<rparr>)
               | TpsUndeclaredObservedPool \<Rightarrow>
                   (action\<lparr>ta_action := TakObserveUndeclaredPool,
                      ta_replica_delta := rt_observed_instances pool\<rparr>,
                    s\<lparr>pl_observe_only_actions := pl_observe_only_actions s + 1\<rparr>)
               | TpsAligned \<Rightarrow> (action, s))
        in out\<lparr>tp_summary := s, tp_actions := tp_actions out @ [action]\<rparr>)"

definition plan_topology_actuation ::
  "(ObservedTopologyPool list \<Rightarrow> ObservedTopologyPool list) \<Rightarrow> DesiredTopologyDocument option \<Rightarrow>
   ObservedTopologyPool list \<Rightarrow> TopologyActuationPlan"
where
  "plan_topology_actuation it desired_topology observed_pools =
     (let reconciliation = reconcile_topology it desired_topology observed_pools;
          out = \<lparr>tp_summary = new_plan_summary
                  \<lparr>pl_desired_present := ts_desired_present (tr_summary reconciliation)\<rparr>,
                 tp_actions = []\<rparr>;
          out = foldl plan_pool out (tr_pools reconciliation)
      in out\<lparr>tp_summary := (tp_summary out)
               \<lparr>pl_actions_total := word_of_nat (length (tp_actions out))\<rparr>\<rparr>)"

section \<open>Names and keys\<close>

interpretation action_kind: named_enum topology_actuation_action_kind_name
  parse_topology_actuation_action_kind
proof (unfold_locales, goal_cases)
  case (1 x)
  show ?case by (cases x) (simp_all add: parse_topology_actuation_action_kind_def)
next
  case (2 s x)
  then show ?case
    by (auto simp: parse_topology_actuation_action_kind_def split: if_splits)
qed

lemma make_pool_key_inj:
  assumes "CHR 0x0A \<notin> set w" and "CHR 0x0A \<notin> set w'"
  shows "make_pool_key w s = make_pool_key w' s' \<longleftrightarrow> w = w' \<and> s = s'"
proof -
  have "takeWhile (\<lambda>c. c \<noteq> CHR 0x0A) (make_pool_key v t) = v"
    and "dropWhile (\<lambda>c. c \<noteq> CHR 0x0A) (make_pool_key v t) = CHR 0x0A # t"
    if "CHR 0x0A \<notin> set v" for v t
    using that by (auto simp: make_pool_key_def takeWhile_append dropWhile_append)
  with assms show ?thesis by (metis list.inject)
qed

section \<open>Observed pools count the instances\<close>

definition eligible :: "ObservedTopologyInstance \<Rightarrow> bool" where
  "eligible i \<longleftrightarrow> oi_role i = ''server'' \<and> oi_world_id i \<noteq> [] \<and> oi_shard i \<noteq> []"

abbreviation instance_key :: "ObservedTopologyInstance \<Rightarrow> string" where
  "instance_key i \<equiv> make_pool_key (oi_world_id i) (oi_shard i)"

definition members :: "ObservedTopologyInstance list \<Rightarrow> string \<Rightarrow> ObservedTopologyInstance list" where
  "members is k = filter (\<lambda>i. eligible i \<and> instance_key i = k) is"

definition pool_of :: "ObservedTopologyInstance list \<Rightarrow> ObservedTopologyPool" where
  "pool_of ms = \<lparr>op_world_id = oi_world_id (hd ms), op_shard = oi_shard (hd ms),
     op_instances = word_of_nat (length ms), op_ready_instances = word_of_nat (length (filter oi_ready ms))\<rparr>"

lemma collect_instance_find:
  "idx_find (collect_instance m i) k =
     (if eligible i \<and> instance_key i = k then
        Some (let p = (case idx_find m k of Some p \<Rightarrow> p | None \<Rightarrow>
                \<lparr>op_world_id = oi_world_id i, op_shard = oi_shard i, op_instances = 0, op_ready_instances = 0\<rparr>)
              in p\<lparr>op_instances := op_instances p + 1,
                   op_ready_instances := op_ready_instances p + (if oi_ready i then 1 else 0)\<rparr>)
      else idx_find m k)"
  by (auto simp: collect_instance_def eligible_def Let_def idx.find_emplace split: option.splits)

lemma collect_instance_invar: "idx_invar m \<Longrightarrow> idx_invar (collect_instance m i)"
  by (simp add: collect_instance_def Let_def idx.invar_emplace)

lemma collect_find:
  "idx_find (foldl collect_instance idx_empty is) k =
     (if members is k = [] then None else Some (pool_of (members is k)))"
proof (induction "is" rule: rev_induct)
  case (snoc i "is")
  then show ?case
    by (auto simp: collect_instance_find members_def pool_of_def Let_def hd_append
        simp del: filter_filter)
qed (simp add: members_def idx.find_empty)

lemma collect_invar: "idx_invar (foldl collect_instance idx_empty is)"
  by (induction "is" rule: rev_induct) (simp_all add: idx.invar_empty collect_instance_invar)

text \<open>
  C30. Observed pools. Provided no world id contains the separator, the pools collected from
  the heartbeats are, in some order, one pool for each world and shard that has an eligible
  instance (a server with a world and a shard), and its counters are the numbers of eligible
  and of ready instances of that world and shard. Instances of other roles and instances
  without a world or shard are not counted.
\<close>

theorem collect_observed_pools_counts:
  assumes "iteration_order it" and "\<forall>i\<in>set is. CHR 0x0A \<notin> set (oi_world_id i)"
  shows "set (collect_observed_pools it is) =
      (\<lambda>i. \<lparr>op_world_id = oi_world_id i, op_shard = oi_shard i,
         op_instances = word_of_nat (length (filter (\<lambda>j. eligible j \<and>
           oi_world_id j = oi_world_id i \<and> oi_shard j = oi_shard i) is)),
         op_ready_instances = word_of_nat (length (filter (\<lambda>j. eligible j \<and>
           oi_world_id j = oi_world_id i \<and> oi_shard j = oi_shard i \<and> oi_ready j) is))\<rparr>) ` {i \<in> set is. eligible i} \<and>
    length (collect_observed_pools it is) =
      card ((\<lambda>i. (oi_world_id i, oi_shard i)) ` {i \<in> set is. eligible i})"
proof -
  let ?m = "foldl collect_instance idx_empty is"
  let ?E = "{i \<in> set is. eligible i}"
  have inj: "instance_key i = instance_key j \<longleftrightarrow> oi_world_id i = oi_world_id j \<and> oi_shard i = oi_shard j"
    if "i \<in> set is" "j \<in> set is" for i j
    using assms(2) that by (intro make_pool_key_inj) auto
  have mem: "members is (instance_key i) = filter (\<lambda>j. eligible j \<and>
      oi_world_id j = oi_world_id i \<and> oi_shard j = oi_shard i) is" if "i \<in> set is" for i
    unfolding members_def using inj [OF _ that] by (intro filter_cong) auto
  have hd: "oi_world_id (hd (members is (instance_key i))) = oi_world_id i \<and>
      oi_shard (hd (members is (instance_key i))) = oi_shard i \<and> members is (instance_key i) \<noteq> []"
    if "i \<in> ?E" for i
  proof -
    have ne: "members is (instance_key i) \<noteq> []" using that mem by (auto simp: filter_empty_conv)
    then obtain h where h: "hd (members is (instance_key i)) = h" "h \<in> set (members is (instance_key i))"
      using hd_in_set by blast
    with ne that show ?thesis by (simp add: mem)
  qed
  have find: "idx_find ?m k = Some p \<longleftrightarrow> (\<exists>i\<in>?E. k = instance_key i \<and> p = pool_of (members is k))" for k p
    by (auto simp: collect_find members_def filter_empty_conv)
  have "set (collect_observed_pools it is) = (\<lambda>i. pool_of (members is (instance_key i))) ` ?E"
    using collect_invar [of "is"] find
    by (auto simp: collect_observed_pools_def iteration_order_set [OF assms(1)] idx.vals_find) blast
  also have "\<dots> = (\<lambda>i. \<lparr>op_world_id = oi_world_id i, op_shard = oi_shard i,
         op_instances = word_of_nat (length (filter (\<lambda>j. eligible j \<and>
           oi_world_id j = oi_world_id i \<and> oi_shard j = oi_shard i) is)),
         op_ready_instances = word_of_nat (length (filter (\<lambda>j. eligible j \<and>
           oi_world_id j = oi_world_id i \<and> oi_shard j = oi_shard i \<and> oi_ready j) is))\<rparr>) ` ?E"
    using hd by (intro image_cong refl) (auto simp: pool_of_def mem)
  finally have 1: "set (collect_observed_pools it is) = \<dots>" .
  have "{k. idx_find ?m k \<noteq> None} = instance_key ` ?E" using find by auto
  moreover have "card (instance_key ` ?E) = card ((\<lambda>i. (oi_world_id i, oi_shard i)) ` ?E)"
  proof -
    have "inj_on (\<lambda>(w, t). make_pool_key w t) ((\<lambda>i. (oi_world_id i, oi_shard i)) ` ?E)"
      using inj by (auto simp: inj_on_def)
    from card_image [OF this] show ?thesis by (simp add: image_image)
  qed
  ultimately have "length (collect_observed_pools it is) = card ((\<lambda>i. (oi_world_id i, oi_shard i)) ` ?E)"
    using idx.length_vals [OF collect_invar [of "is"]] assms(1)
    by (simp add: collect_observed_pools_def iteration_order_length)
  with 1 show ?thesis by blast
qed


theorem collect_observed_pools_counts_witness:
  "let i = \<lparr>oi_instance_id = ''a'', oi_role = ''server'', oi_world_id = ''w'', oi_shard = ''s'', oi_ready = True\<rparr>
   in collect_observed_pools id [i, i\<lparr>oi_role := ''gateway''\<rparr>, i\<lparr>oi_ready := False\<rparr>] =
        [\<lparr>op_world_id = ''w'', op_shard = ''s'', op_instances = 2, op_ready_instances = 1\<rparr>] \<and>
      length (collect_observed_pools id [i, i\<lparr>oi_role := ''gateway''\<rparr>]) = 1"
proof -
  let ?i = "\<lparr>oi_instance_id = ''a'', oi_role = ''server'', oi_world_id = ''w'', oi_shard = ''s'', oi_ready = True\<rparr>"
  have "collect_observed_pools id [?i, ?i\<lparr>oi_role := ''gateway''\<rparr>, ?i\<lparr>oi_ready := False\<rparr>] =
        [\<lparr>op_world_id = ''w'', op_shard = ''s'', op_instances = 2, op_ready_instances = 1\<rparr>]"
    by code_simp
  moreover have "{i \<in> set [?i, ?i\<lparr>oi_role := ''gateway''\<rparr>]. eligible i} = {?i}"
    by (auto simp: eligible_def)
  ultimately show ?thesis
    using collect_observed_pools_counts [of id "[?i, ?i\<lparr>oi_role := ''gateway''\<rparr>]"]
    by (simp add: Let_def)
qed

section \<open>What reconciliation computes\<close>

text \<open>The status of a declared pool, from what is observed of it.\<close>

definition pool_status :: "DesiredTopologyPool \<Rightarrow> ObservedTopologyPool option \<Rightarrow> TopologyPoolStatus" where
  "pool_status d obs =
     (case obs of
        None \<Rightarrow> TpsMissingObservedPool
      | Some p \<Rightarrow>
          if op_instances p = 0 then TpsMissingObservedPool
          else if op_ready_instances p = 0 then TpsNoReadyInstances
          else if op_instances p < dp_replicas d then TpsUnderReplicated
          else if op_instances p > dp_replicas d then TpsOverReplicated else TpsAligned)"

definition reconciled_pool :: "DesiredTopologyPool \<Rightarrow> ObservedTopologyPool option \<Rightarrow> ReconciledTopologyPool" where
  "reconciled_pool d obs =
     \<lparr>rt_world_id = dp_world_id d, rt_shard = dp_shard d, rt_desired_replicas = dp_replicas d,
      rt_observed_instances = (case obs of None \<Rightarrow> 0 | Some p \<Rightarrow> op_instances p),
      rt_ready_instances = (case obs of None \<Rightarrow> 0 | Some p \<Rightarrow> op_ready_instances p),
      rt_status = pool_status d obs\<rparr>"

definition undeclared_pool :: "ObservedTopologyPool \<Rightarrow> ReconciledTopologyPool" where
  "undeclared_pool p =
     \<lparr>rt_world_id = op_world_id p, rt_shard = op_shard p, rt_desired_replicas = 0,
      rt_observed_instances = op_instances p, rt_ready_instances = op_ready_instances p,
      rt_status = TpsUndeclaredObservedPool\<rparr>"

definition count_pool :: "TopologyPoolStatus \<Rightarrow> TopologyReconciliationSummary \<Rightarrow> TopologyReconciliationSummary" where
  "count_pool st s =
     (case st of
        TpsAligned \<Rightarrow> s\<lparr>ts_aligned_pools := ts_aligned_pools s + 1\<rparr>
      | TpsMissingObservedPool \<Rightarrow> s\<lparr>ts_missing_pools := ts_missing_pools s + 1\<rparr>
      | TpsUnderReplicated \<Rightarrow> s\<lparr>ts_under_replicated_pools := ts_under_replicated_pools s + 1\<rparr>
      | TpsOverReplicated \<Rightarrow> s\<lparr>ts_over_replicated_pools := ts_over_replicated_pools s + 1\<rparr>
      | TpsNoReadyInstances \<Rightarrow> s\<lparr>ts_no_ready_pools := ts_no_ready_pools s + 1\<rparr>
      | TpsUndeclaredObservedPool \<Rightarrow> s\<lparr>ts_undeclared_pools := ts_undeclared_pools s + 1\<rparr>)"

definition add_pool :: "TopologyReconciliation \<Rightarrow> ReconciledTopologyPool \<Rightarrow> TopologyReconciliation" where
  "add_pool out r = out\<lparr>tr_summary := count_pool (rt_status r) (tr_summary out), tr_pools := tr_pools out @ [r]\<rparr>"

lemma idx_erase_absent: "idx_find m k = None \<Longrightarrow> idx_erase k m = m"
  by (force simp: idx_find_def idx_erase_def map_of_eq_None_iff filter_id_conv)

lemma reconcile_desired_pool_eq:
  "reconcile_desired_pool (out, m) d =
     (add_pool out (reconciled_pool d (idx_find m (desired_key d))), idx_erase (desired_key d) m)"
  by (auto simp: reconcile_desired_pool_def add_pool_def reconciled_pool_def pool_status_def
      count_pool_def Let_def idx_erase_absent split: option.splits)

lemma reconcile_undeclared_pool_eq: "reconcile_undeclared_pool out p = add_pool out (undeclared_pool p)"
  by (simp add: reconcile_undeclared_pool_def add_pool_def undeclared_pool_def count_pool_def Let_def)

text \<open>The reconciled pools of a list of declared pools, each erased from the index in turn.\<close>

fun declared_pools ::
  "(string, ObservedTopologyPool) idx \<Rightarrow> DesiredTopologyPool list \<Rightarrow> ReconciledTopologyPool list"
where
  "declared_pools m [] = []"
| "declared_pools m (d # ds) =
     reconciled_pool d (idx_find m (desired_key d)) # declared_pools (idx_erase (desired_key d) m) ds"

lemma reconcile_desired_foldl:
  "foldl reconcile_desired_pool (out, m) ds =
     (foldl add_pool out (declared_pools m ds), foldl (\<lambda>m k. idx_erase k m) m (map desired_key ds))"
  by (induction ds arbitrary: out m) (simp_all add: reconcile_desired_pool_eq)

lemma reconcile_undeclared_foldl:
  "foldl reconcile_undeclared_pool out ps = foldl add_pool out (map undeclared_pool ps)"
  by (induction ps arbitrary: out) (simp_all add: reconcile_undeclared_pool_eq)

definition desired_pools :: "DesiredTopologyDocument option \<Rightarrow> DesiredTopologyPool list" where
  "desired_pools D = (case D of None \<Rightarrow> [] | Some d \<Rightarrow> dd_pools d)"

text \<open>The list of reconciled pools.\<close>

definition reconciled_pools ::
  "(ObservedTopologyPool list \<Rightarrow> ObservedTopologyPool list) \<Rightarrow> DesiredTopologyDocument option \<Rightarrow>
   ObservedTopologyPool list \<Rightarrow> ReconciledTopologyPool list"
where
  "reconciled_pools it D obs =
     (let m = index_by observed_key obs
      in declared_pools m (desired_pools D) @
         map undeclared_pool (it (idx_values (foldl (\<lambda>m k. idx_erase k m) m (map desired_key (desired_pools D))))))"

lemma reconcile_topology_eq:
  "\<exists>s. reconcile_topology it D obs = foldl add_pool \<lparr>tr_summary = s, tr_pools = []\<rparr> (reconciled_pools it D obs) \<and>
     s = new_reconciliation_summary\<lparr>ts_desired_present := D \<noteq> None,
       ts_observed_pools := word_of_nat (length obs), ts_desired_pools := word_of_nat (length (desired_pools D))\<rparr>"
  by (cases D) (simp_all add: reconcile_topology_def reconciled_pools_def desired_pools_def Let_def
      reconcile_desired_foldl reconcile_undeclared_foldl new_reconciliation_summary_def)

text \<open>The counter of a status.\<close>

fun pool_counter :: "TopologyReconciliationSummary \<Rightarrow> TopologyPoolStatus \<Rightarrow> u32" where
  "pool_counter s TpsAligned = ts_aligned_pools s"
| "pool_counter s TpsMissingObservedPool = ts_missing_pools s"
| "pool_counter s TpsUnderReplicated = ts_under_replicated_pools s"
| "pool_counter s TpsOverReplicated = ts_over_replicated_pools s"
| "pool_counter s TpsNoReadyInstances = ts_no_ready_pools s"
| "pool_counter s TpsUndeclaredObservedPool = ts_undeclared_pools s"

interpretation recon: tally_loop add_pool "\<lambda>_. True" tr_pools "\<lambda>r. r" "\<lambda>out. pool_counter (tr_summary out)" rt_status
proof (unfold_locales, goal_cases)
  case (3 out r st)
  show ?case by (cases st; cases "rt_status r") (simp_all add: add_pool_def count_pool_def)
qed (simp_all add: add_pool_def)

abbreviation status_count :: "TopologyPoolStatus \<Rightarrow> ReconciledTopologyPool list \<Rightarrow> u32" where
  "status_count st rs \<equiv> word_of_nat (length (filter (\<lambda>r. rt_status r = st) rs))"

lemma reconcile_topology_pools: "tr_pools (reconcile_topology it D obs) = reconciled_pools it D obs"
  using reconcile_topology_eq [of it D obs] by (auto simp: recon.loop_results)

lemma declared_pools_distinct:
  assumes "distinct (map desired_key ds)"
  shows "declared_pools m ds = map (\<lambda>d. reconciled_pool d (idx_find m (desired_key d))) ds"
  using assms
proof (induction ds arbitrary: m)
  case (Cons d ds)
  then show ?case by (auto simp: idx.find_erase image_iff)
qed simp

text \<open>
  C31. Reconciliation. With pairwise different keys among the declared and among the observed
  pools, reconciliation lists every declared pool once, in document order, compared with the
  observed pool of the same key, followed by exactly the observed pools that are not declared,
  each once, in some order. Without the assumption on keys the six status counters of the
  summary are still the numbers of listed pools of each status.
\<close>

theorem reconcile_topology_partition:
  assumes it: "iteration_order it"
  shows "(distinct (map desired_key (desired_pools D)) \<and> distinct (map observed_key obs) \<longrightarrow>
      (\<exists>us. tr_pools (reconcile_topology it D obs) =
         map (\<lambda>d. reconciled_pool d (List.find (\<lambda>p. observed_key p = desired_key d) obs)) (desired_pools D) @
         map undeclared_pool us \<and>
       mset us = mset (filter (\<lambda>p. observed_key p \<notin> desired_key ` set (desired_pools D)) obs))) \<and>
    (\<forall>st. pool_counter (tr_summary (reconcile_topology it D obs)) st =
       status_count st (tr_pools (reconcile_topology it D obs)))"
proof
  show "distinct (map desired_key (desired_pools D)) \<and> distinct (map observed_key obs) \<longrightarrow>
      (\<exists>us. tr_pools (reconcile_topology it D obs) =
         map (\<lambda>d. reconciled_pool d (List.find (\<lambda>p. observed_key p = desired_key d) obs)) (desired_pools D) @
         map undeclared_pool us \<and>
       mset us = mset (filter (\<lambda>p. observed_key p \<notin> desired_key ` set (desired_pools D)) obs))"
  proof
    assume d: "distinct (map desired_key (desired_pools D)) \<and> distinct (map observed_key obs)"
    have "idx_values (foldl (\<lambda>m k. idx_erase k m) (index_by observed_key obs) (map desired_key (desired_pools D))) =
        filter (\<lambda>p. observed_key p \<notin> desired_key ` set (desired_pools D)) obs"
      using d by (simp add: idx_erase_all index_by_distinct idx_values_def filter_map comp_def)
    with d it show "\<exists>us. tr_pools (reconcile_topology it D obs) =
         map (\<lambda>d. reconciled_pool d (List.find (\<lambda>p. observed_key p = desired_key d) obs)) (desired_pools D) @
         map undeclared_pool us \<and>
       mset us = mset (filter (\<lambda>p. observed_key p \<notin> desired_key ` set (desired_pools D)) obs)"
      by (auto simp: reconcile_topology_pools reconciled_pools_def Let_def declared_pools_distinct
          find_index_by iteration_order_def)
  qed
  obtain s where s: "reconcile_topology it D obs = foldl add_pool \<lparr>tr_summary = s, tr_pools = []\<rparr>
      (reconciled_pools it D obs)" "\<And>st. pool_counter s st = 0"
  proof -
    have "pool_counter (new_reconciliation_summary\<lparr>ts_desired_present := b, ts_observed_pools := n,
        ts_desired_pools := m\<rparr>) st = 0" for b n m st
      by (cases st) (simp_all add: new_reconciliation_summary_def)
    with reconcile_topology_eq [of it D obs] that show thesis by blast
  qed
  show "\<forall>st. pool_counter (tr_summary (reconcile_topology it D obs)) st =
      status_count st (tr_pools (reconcile_topology it D obs))"
    by (simp add: s recon.loop_counter recon.loop_results)
qed

text \<open>A document with one pool of two replicas, and two observed pools.\<close>

definition sample_topology :: DesiredTopologyDocument where
  "sample_topology = \<lparr>dd_topology_id = ''t'', dd_revision = 1, dd_updated_at_ms = 0,
     dd_pools = [\<lparr>dp_world_id = ''w'', dp_shard = ''s'', dp_replicas = 2, dp_capacity_class = [],
       dp_placement_tags = []\<rparr>]\<rparr>"

definition sample_observed :: "ObservedTopologyPool list" where
  "sample_observed = [\<lparr>op_world_id = ''w'', op_shard = ''s'', op_instances = 1, op_ready_instances = 1\<rparr>,
     \<lparr>op_world_id = ''w'', op_shard = ''u'', op_instances = 1, op_ready_instances = 1\<rparr>]"

lemma sample_distinct:
  "distinct (map desired_key (desired_pools (Some sample_topology))) \<and> distinct (map observed_key sample_observed)"
  by (simp add: desired_pools_def sample_topology_def sample_observed_def make_pool_key_def)

theorem reconcile_topology_partition_witness:
  "(\<exists>us. tr_pools (reconcile_topology id (Some sample_topology) sample_observed) =
      map (\<lambda>d. reconciled_pool d (List.find (\<lambda>p. observed_key p = desired_key d) sample_observed))
        (desired_pools (Some sample_topology)) @ map undeclared_pool us) \<and>
   map rt_status (tr_pools (reconcile_topology id (Some sample_topology) sample_observed)) =
     [TpsUnderReplicated, TpsUndeclaredObservedPool]"
proof
  show "\<exists>us. tr_pools (reconcile_topology id (Some sample_topology) sample_observed) =
      map (\<lambda>d. reconciled_pool d (List.find (\<lambda>p. observed_key p = desired_key d) sample_observed))
        (desired_pools (Some sample_topology)) @ map undeclared_pool us"
    using reconcile_topology_partition [OF iteration_order_id(1), THEN conjunct1, THEN mp, OF sample_distinct]
    by blast
  show "map rt_status (tr_pools (reconcile_topology id (Some sample_topology) sample_observed)) =
      [TpsUnderReplicated, TpsUndeclaredObservedPool]"
    by code_simp
qed

section \<open>What the plan contains\<close>

definition plan_action :: "ReconciledTopologyPool \<Rightarrow> TopologyActuationAction" where
  "plan_action r =
     \<lparr>ta_world_id = rt_world_id r, ta_shard = rt_shard r, ta_status = rt_status r,
      ta_action = (case rt_status r of TpsOverReplicated \<Rightarrow> TakScaleInPool
        | TpsNoReadyInstances \<Rightarrow> TakRestorePoolReadiness
        | TpsUndeclaredObservedPool \<Rightarrow> TakObserveUndeclaredPool | TpsAligned \<Rightarrow> TakObserveUndeclaredPool
        | _ \<Rightarrow> TakScaleOutPool),
      ta_desired_replicas = rt_desired_replicas r, ta_observed_instances = rt_observed_instances r,
      ta_ready_instances = rt_ready_instances r,
      ta_replica_delta = (case rt_status r of
          TpsOverReplicated \<Rightarrow> rt_observed_instances r - rt_desired_replicas r
        | TpsNoReadyInstances \<Rightarrow> 0 | TpsUndeclaredObservedPool \<Rightarrow> rt_observed_instances r
        | TpsAligned \<Rightarrow> 0 | _ \<Rightarrow> rt_desired_replicas r - rt_observed_instances r),
      ta_actionable = (rt_status r \<notin> {TpsUndeclaredObservedPool, TpsAligned})\<rparr>"

lemma plan_pool_actions:
  "tp_actions (plan_pool out r) =
     tp_actions out @ (if rt_status r = TpsAligned then [] else [plan_action r])"
  by (cases "rt_status r") (simp_all add: plan_pool_def plan_action_def Let_def)

lemma plan_foldl_actions:
  "tp_actions (foldl plan_pool out rs) =
     tp_actions out @ map plan_action (filter (\<lambda>r. rt_status r \<noteq> TpsAligned) rs)"
  by (induction rs arbitrary: out) (simp_all add: plan_pool_actions)

lemma plan_actions_eq:
  "tp_actions (plan_topology_actuation it D obs) =
     map plan_action (filter (\<lambda>r. rt_status r \<noteq> TpsAligned) (reconciled_pools it D obs))"
  by (simp add: plan_topology_actuation_def Let_def plan_foldl_actions reconcile_topology_pools)

abbreviation action_count :: "TopologyActuationActionKind \<Rightarrow> TopologyActuationAction list \<Rightarrow> u32" where
  "action_count k as \<equiv> word_of_nat (length (filter (\<lambda>a. ta_action a = k) as))"

lemma plan_foldl_summary:
  "let s = tp_summary (foldl plan_pool out rs); s0 = tp_summary out;
       as = map plan_action (filter (\<lambda>r. rt_status r \<noteq> TpsAligned) rs)
   in pl_scale_out_actions s = pl_scale_out_actions s0 + action_count TakScaleOutPool as \<and>
      pl_scale_in_actions s = pl_scale_in_actions s0 + action_count TakScaleInPool as \<and>
      pl_readiness_recovery_actions s =
        pl_readiness_recovery_actions s0 + action_count TakRestorePoolReadiness as \<and>
      pl_observe_only_actions s = pl_observe_only_actions s0 + action_count TakObserveUndeclaredPool as \<and>
      pl_actionable_actions s =
        pl_actionable_actions s0 + word_of_nat (length (filter ta_actionable as))"
proof (induction rs arbitrary: out)
  case (Cons r rs)
  from Cons [of "plan_pool out r"] show ?case
    by (cases "rt_status r") (simp_all add: Let_def plan_pool_def plan_action_def)
qed (simp add: Let_def)

lemma reconciled_pools_declared:
  assumes "d \<in> set (desired_pools D)"
  shows "\<exists>obs'. reconciled_pool d obs' \<in> set (reconciled_pools it D obs)"
proof -
  have "\<exists>obs'. reconciled_pool d obs' \<in> set (declared_pools m ds)" if "d \<in> set ds" for m ds
    using that by (induction m ds rule: declared_pools.induct) auto
  with assms show ?thesis by (fastforce simp: reconciled_pools_def Let_def)
qed

lemma aligned_iff:
  "pool_status d obs = TpsAligned \<longleftrightarrow>
     (\<exists>p. obs = Some p \<and> op_instances p = dp_replicas d \<and> op_instances p \<noteq> 0 \<and> op_ready_instances p \<noteq> 0)"
  by (auto simp: pool_status_def split: option.splits)

text \<open>
  C32. An empty plan means a converged topology. With pairwise different keys, the plan proposes
  no action at all exactly when every declared pool is observed with the declared number of
  instances, at least one of them ready, and nothing else is observed.
\<close>

theorem plan_empty_iff_converged:
  assumes "iteration_order it" and "distinct (map desired_key (desired_pools D))"
    and "distinct (map observed_key obs)"
  shows "tp_actions (plan_topology_actuation it D obs) = [] \<longleftrightarrow>
    (\<forall>d\<in>set (desired_pools D). \<exists>p\<in>set obs. observed_key p = desired_key d \<and>
       op_instances p = dp_replicas d \<and> op_instances p \<noteq> 0 \<and> op_ready_instances p \<noteq> 0) \<and>
    (\<forall>p\<in>set obs. observed_key p \<in> desired_key ` set (desired_pools D))"
proof -
  let ?m = "index_by observed_key obs"
  let ?u = "filter (\<lambda>p. observed_key p \<notin> desired_key ` set (desired_pools D)) obs"
  have "idx_values (foldl (\<lambda>m k. idx_erase k m) ?m (map desired_key (desired_pools D))) = ?u"
    using assms(2,3) by (simp add: idx_erase_all index_by_distinct idx_values_def filter_map comp_def)
  then have "set (reconciled_pools it D obs) =
      (\<lambda>d. reconciled_pool d (List.find (\<lambda>p. observed_key p = desired_key d) obs)) ` set (desired_pools D) \<union>
      undeclared_pool ` set ?u"
    using assms(2)
    by (simp add: reconciled_pools_def Let_def declared_pools_distinct find_index_by
        iteration_order_set [OF assms(1)])
  then have "tp_actions (plan_topology_actuation it D obs) = [] \<longleftrightarrow>
      (\<forall>d\<in>set (desired_pools D).
         pool_status d (List.find (\<lambda>p. observed_key p = desired_key d) obs) = TpsAligned) \<and> ?u = []"
    by (auto simp: plan_actions_eq filter_empty_conv reconciled_pool_def undeclared_pool_def ball_Un)
  then show ?thesis
    by (auto simp: aligned_iff find_distinct [OF assms(3)] filter_empty_conv)
qed

theorem plan_empty_iff_converged_witness:
  "tp_actions (plan_topology_actuation id (Some sample_topology) sample_observed) \<noteq> [] \<and>
   tp_actions (plan_topology_actuation id (Some sample_topology)
     [\<lparr>op_world_id = ''w'', op_shard = ''s'', op_instances = 2, op_ready_instances = 1\<rparr>]) = []"
  using plan_empty_iff_converged [OF iteration_order_id(1), of "Some sample_topology" sample_observed]
    plan_empty_iff_converged [OF iteration_order_id(1), of "Some sample_topology"
      "[\<lparr>op_world_id = ''w'', op_shard = ''s'', op_instances = 2, op_ready_instances = 1\<rparr>]"]
    sample_distinct
  by (simp add: desired_pools_def sample_topology_def sample_observed_def make_pool_key_def)

text \<open>The plan moves pools to their targets. Every scale-out action adds, and every scale-in
  action removes, exactly the instances that separate the observed number from the declared
  one, in 32-bit arithmetic; a readiness action leaves the number alone; the plan's counters are the numbers
  of its actions of each kind.
\<close>

theorem plan_moves_to_target:
  assumes "a \<in> set (tp_actions (plan_topology_actuation it D obs))"
  shows "(ta_action a = TakScaleOutPool \<longrightarrow>
            ta_observed_instances a + ta_replica_delta a = ta_desired_replicas a) \<and>
    (ta_action a = TakScaleInPool \<longrightarrow>
            ta_observed_instances a - ta_replica_delta a = ta_desired_replicas a) \<and>
    (ta_action a = TakRestorePoolReadiness \<longrightarrow> ta_replica_delta a = 0 \<and> ta_ready_instances a = 0) \<and>
    (ta_actionable a \<longleftrightarrow> ta_action a \<noteq> TakObserveUndeclaredPool) \<and>
    (let s = tp_summary (plan_topology_actuation it D obs); as = tp_actions (plan_topology_actuation it D obs)
     in pl_scale_out_actions s = action_count TakScaleOutPool as \<and>
        pl_scale_in_actions s = action_count TakScaleInPool as \<and>
        pl_readiness_recovery_actions s = action_count TakRestorePoolReadiness as \<and>
        pl_observe_only_actions s = action_count TakObserveUndeclaredPool as \<and>
        pl_actionable_actions s = word_of_nat (length (filter ta_actionable as)) \<and>
        pl_actions_total s = word_of_nat (length as))"
proof -
  obtain r where r: "a = plan_action r" "rt_status r \<noteq> TpsAligned" "r \<in> set (reconciled_pools it D obs)"
    using assms by (auto simp: plan_actions_eq)
  have dec: "\<exists>d o'. r = reconciled_pool d o'" if "r \<in> set (declared_pools m ds)" for m ds
    using that by (induction m ds rule: declared_pools.induct) auto
  have ready: "rt_ready_instances r = 0" if "rt_status r = TpsNoReadyInstances"
  proof -
    have "rt_status (undeclared_pool p) \<noteq> TpsNoReadyInstances" for p by (simp add: undeclared_pool_def)
    with r(3) that have "r \<in> set (declared_pools (index_by observed_key obs) (desired_pools D))"
      by (auto simp: reconciled_pools_def Let_def)
    then obtain d o' where "r = reconciled_pool d o'" using dec by blast
    with that show ?thesis
      by (auto simp: reconciled_pool_def pool_status_def split: option.splits if_splits)
  qed
  have "(let s = tp_summary (plan_topology_actuation it D obs); as = tp_actions (plan_topology_actuation it D obs)
     in pl_scale_out_actions s = action_count TakScaleOutPool as \<and>
        pl_scale_in_actions s = action_count TakScaleInPool as \<and>
        pl_readiness_recovery_actions s = action_count TakRestorePoolReadiness as \<and>
        pl_observe_only_actions s = action_count TakObserveUndeclaredPool as \<and>
        pl_actionable_actions s = word_of_nat (length (filter ta_actionable as)) \<and>
        pl_actions_total s = word_of_nat (length as))"
    using plan_foldl_summary [of "\<lparr>tp_summary = new_plan_summary
        \<lparr>pl_desired_present := ts_desired_present (tr_summary (reconcile_topology it D obs))\<rparr>, tp_actions = []\<rparr>"
        "reconciled_pools it D obs"]
    by (simp add: plan_topology_actuation_def Let_def plan_foldl_actions reconcile_topology_pools
        new_plan_summary_def)
  with r ready show ?thesis
    by (cases "rt_status r") (simp_all add: plan_action_def)
qed

theorem plan_moves_to_target_witness:
  "let as = tp_actions (plan_topology_actuation id (Some sample_topology) sample_observed)
   in map ta_replica_delta as = [1, 1] \<and>
      ta_observed_instances (hd as) + ta_replica_delta (hd as) = ta_desired_replicas (hd as)"
proof -
  let ?as = "tp_actions (plan_topology_actuation id (Some sample_topology) sample_observed)"
  have "map ta_replica_delta ?as = [1, 1] \<and> ?as \<noteq> [] \<and> ta_action (hd ?as) = TakScaleOutPool"
    by code_simp
  with plan_moves_to_target [of "hd ?as" id "Some sample_topology" sample_observed] show ?thesis
    by (simp add: Let_def)
qed

text \<open>A pool declared with zero replicas never converges: whatever is observed, the plan holds
  an action for it, since an absent pool counts as missing and is answered by a scale-out of
  zero replicas.
\<close>

theorem zero_replica_pool_never_converges:
  assumes "d \<in> set (desired_pools D)" and "dp_replicas d = 0"
  shows "tp_actions (plan_topology_actuation it D obs) \<noteq> []"
proof -
  obtain obs' where "reconciled_pool d obs' \<in> set (reconciled_pools it D obs)"
    using reconciled_pools_declared [OF assms(1)] by blast
  moreover have "rt_status (reconciled_pool d obs') \<noteq> TpsAligned"
    using assms(2) by (auto simp: aligned_iff reconciled_pool_def)
  ultimately show ?thesis by (auto simp: plan_actions_eq filter_empty_conv)
qed


theorem zero_replica_pool_never_converges_witness:
  "let d = \<lparr>dp_world_id = ''w'', dp_shard = ''s'', dp_replicas = 0, dp_capacity_class = [],
         dp_placement_tags = []\<rparr>
   in tp_actions (plan_topology_actuation id (Some (sample_topology\<lparr>dd_pools := [d]\<rparr>)) []) \<noteq> []"
  unfolding Let_def
  by (rule zero_replica_pool_never_converges
      [of "\<lparr>dp_world_id = ''w'', dp_shard = ''s'', dp_replicas = 0, dp_capacity_class = [],
         dp_placement_tags = []\<rparr>"])
    (simp_all add: desired_pools_def)

end
