(* ===== verification/Topology_Actuation.thy ===== *)
theory Topology_Actuation
  imports Topology
begin

text \<open>
  The world topology of \<open>core/include/server/core/worlds/topology.hpp\<close>, second half: the operator
  request, the executor's progress, the realization by observation and the adapter's lease, each
  a document and an evaluation of it against the current plan.
\<close>

section \<open>Requests\<close>

record TopologyActuationRequestAction =
  qa_world_id :: string
  qa_shard :: string
  qa_action :: TopologyActuationActionKind
  qa_replica_delta :: i32

record TopologyActuationRequestDocument =
  qd_request_id :: string
  qd_revision :: u64
  qd_requested_at_ms :: u64
  qd_basis_topology_revision :: u64
  qd_actions :: "TopologyActuationRequestAction list"

datatype TopologyActuationRequestActionState = RasPending | RasSatisfied | RasSuperseded

fun topology_actuation_request_action_state_name :: "TopologyActuationRequestActionState \<Rightarrow> string" where
  "topology_actuation_request_action_state_name RasPending = ''pending''"
| "topology_actuation_request_action_state_name RasSatisfied = ''satisfied''"
| "topology_actuation_request_action_state_name RasSuperseded = ''superseded''"

record TopologyActuationRequestActionStatus =
  qs_world_id :: string
  qs_shard :: string
  qs_requested_action :: TopologyActuationActionKind
  qs_requested_replica_delta :: i32
  qs_state :: TopologyActuationRequestActionState
  qs_current_status :: "TopologyPoolStatus option"
  qs_current_action :: "TopologyActuationActionKind option"
  qs_current_replica_delta :: i32

record TopologyActuationRequestStatusSummary =
  qm_request_present :: bool
  qm_desired_present :: bool
  qm_basis_topology_revision_matches_current :: bool
  qm_basis_topology_revision :: u64
  qm_current_topology_revision :: u64
  qm_actions_total :: u32
  qm_pending_actions :: u32
  qm_satisfied_actions :: u32
  qm_superseded_actions :: u32

record TopologyActuationRequestStatus =
  qt_summary :: TopologyActuationRequestStatusSummary
  qt_actions :: "TopologyActuationRequestActionStatus list"

definition new_request_summary :: TopologyActuationRequestStatusSummary where
  "new_request_summary =
     \<lparr>qm_request_present = False, qm_desired_present = False,
      qm_basis_topology_revision_matches_current = False, qm_basis_topology_revision = 0,
      qm_current_topology_revision = 0, qm_actions_total = 0, qm_pending_actions = 0,
      qm_satisfied_actions = 0, qm_superseded_actions = 0\<rparr>"

definition request_action_step ::
  "(string, TopologyActuationAction) idx \<Rightarrow> TopologyActuationRequestStatus \<Rightarrow>
   TopologyActuationRequestAction \<Rightarrow> TopologyActuationRequestStatus"
where
  "request_action_step plan_index out requested_action =
     (let s = qt_summary out;
          status = \<lparr>qs_world_id = qa_world_id requested_action, qs_shard = qa_shard requested_action,
            qs_requested_action = qa_action requested_action,
            qs_requested_replica_delta = qa_replica_delta requested_action, qs_state = RasPending,
            qs_current_status = None, qs_current_action = None, qs_current_replica_delta = 0\<rparr>;
          key = make_pool_key (qa_world_id requested_action) (qa_shard requested_action);
          (status, s) =
            (case idx_find plan_index key of
               None \<Rightarrow> (status\<lparr>qs_state := RasSatisfied\<rparr>,
                        s\<lparr>qm_satisfied_actions := qm_satisfied_actions s + 1\<rparr>)
             | Some a \<Rightarrow>
                 (let status = status\<lparr>qs_current_status := Some (ta_status a),
                        qs_current_action := Some (ta_action a),
                        qs_current_replica_delta := ta_replica_delta a\<rparr>
                  in if ta_actionable a \<and> ta_action a = qa_action requested_action \<and>
                        ta_replica_delta a = qa_replica_delta requested_action then
                       (status\<lparr>qs_state := RasPending\<rparr>,
                        s\<lparr>qm_pending_actions := qm_pending_actions s + 1\<rparr>)
                     else
                       (status\<lparr>qs_state := RasSuperseded\<rparr>,
                        s\<lparr>qm_superseded_actions := qm_superseded_actions s + 1\<rparr>)))
      in out\<lparr>qt_summary := s, qt_actions := qt_actions out @ [status]\<rparr>)"

abbreviation action_key :: "TopologyActuationAction \<Rightarrow> string" where
  "action_key a \<equiv> make_pool_key (ta_world_id a) (ta_shard a)"

type_synonym iteration = "ObservedTopologyPool list \<Rightarrow> ObservedTopologyPool list"

definition evaluate_topology_actuation_request_status ::
  "iteration \<Rightarrow> TopologyActuationRequestDocument option \<Rightarrow> DesiredTopologyDocument option \<Rightarrow>
   ObservedTopologyPool list \<Rightarrow> TopologyActuationRequestStatus"
where
  "evaluate_topology_actuation_request_status it request_document desired_topology observed_pools =
     (let s = new_request_summary
            \<lparr>qm_request_present := request_document \<noteq> None,
             qm_desired_present := desired_topology \<noteq> None,
             qm_current_topology_revision :=
               (case desired_topology of None \<Rightarrow> 0 | Some d \<Rightarrow> dd_revision d)\<rparr>
      in case request_document of
           None \<Rightarrow> \<lparr>qt_summary = s, qt_actions = []\<rparr>
         | Some request \<Rightarrow>
             (let s = s\<lparr>qm_basis_topology_revision := qd_basis_topology_revision request,
                    qm_basis_topology_revision_matches_current :=
                      (case desired_topology of None \<Rightarrow> False
                       | Some d \<Rightarrow> dd_revision d = qd_basis_topology_revision request)\<rparr>;
                  current_plan = plan_topology_actuation it desired_topology observed_pools;
                  plan_index = index_by action_key (tp_actions current_plan);
                  out = foldl (request_action_step plan_index)
                    \<lparr>qt_summary = s, qt_actions = []\<rparr> (qd_actions request)
              in out\<lparr>qt_summary := (qt_summary out)
                      \<lparr>qm_actions_total := word_of_nat (length (qt_actions out))\<rparr>\<rparr>))"

section \<open>Executions\<close>

record TopologyActuationExecutionAction =
  xa_world_id :: string
  xa_shard :: string
  xa_action :: TopologyActuationActionKind
  xa_replica_delta :: i32

datatype TopologyActuationExecutionActionState = XasClaimed | XasCompleted | XasFailed

fun topology_actuation_execution_action_state_name :: "TopologyActuationExecutionActionState \<Rightarrow> string" where
  "topology_actuation_execution_action_state_name XasClaimed = ''claimed''"
| "topology_actuation_execution_action_state_name XasCompleted = ''completed''"
| "topology_actuation_execution_action_state_name XasFailed = ''failed''"

definition parse_topology_actuation_execution_action_state ::
  "string \<Rightarrow> TopologyActuationExecutionActionState option"
where
  "parse_topology_actuation_execution_action_state name =
     (if name = ''claimed'' then Some XasClaimed
      else if name = ''completed'' then Some XasCompleted
      else if name = ''failed'' then Some XasFailed
      else None)"

record TopologyActuationExecutionItem =
  xi_action :: TopologyActuationExecutionAction
  xi_observed_instances_before :: u32
  xi_ready_instances_before :: u32
  xi_state :: TopologyActuationExecutionActionState

record TopologyActuationExecutionDocument =
  xd_executor_id :: string
  xd_revision :: u64
  xd_updated_at_ms :: u64
  xd_request_revision :: u64
  xd_actions :: "TopologyActuationExecutionItem list"

datatype TopologyActuationExecutionStatusState =
    XssAvailable | XssClaimed | XssCompleted | XssFailed | XssStale

fun topology_actuation_execution_status_state_name :: "TopologyActuationExecutionStatusState \<Rightarrow> string" where
  "topology_actuation_execution_status_state_name XssAvailable = ''available''"
| "topology_actuation_execution_status_state_name XssClaimed = ''claimed''"
| "topology_actuation_execution_status_state_name XssCompleted = ''completed''"
| "topology_actuation_execution_status_state_name XssFailed = ''failed''"
| "topology_actuation_execution_status_state_name XssStale = ''stale''"

record TopologyActuationExecutionActionStatus =
  xs_world_id :: string
  xs_shard :: string
  xs_requested_action :: TopologyActuationActionKind
  xs_requested_replica_delta :: i32
  xs_state :: TopologyActuationExecutionStatusState
  xs_request_state :: "TopologyActuationRequestActionState option"
  xs_execution_state :: "TopologyActuationExecutionActionState option"

record TopologyActuationExecutionStatusSummary =
  xm_request_present :: bool
  xm_execution_present :: bool
  xm_execution_revision_matches_current_request :: bool
  xm_execution_request_revision :: u64
  xm_current_request_revision :: u64
  xm_actions_total :: u32
  xm_available_actions :: u32
  xm_claimed_actions :: u32
  xm_completed_actions :: u32
  xm_failed_actions :: u32
  xm_stale_actions :: u32

record TopologyActuationExecutionStatus =
  xt_summary :: TopologyActuationExecutionStatusSummary
  xt_actions :: "TopologyActuationExecutionActionStatus list"

abbreviation item_key :: "TopologyActuationExecutionItem \<Rightarrow> string" where
  "item_key i \<equiv> make_pool_key (xa_world_id (xi_action i)) (xa_shard (xi_action i))"

text \<open>One request action against the execution index; \<open>e\<close> is what the index holds for its key.\<close>

definition execution_action_step ::
  "bool \<Rightarrow> (string, TopologyActuationExecutionItem) idx \<Rightarrow> TopologyActuationExecutionStatus \<Rightarrow>
   TopologyActuationRequestActionStatus \<Rightarrow> TopologyActuationExecutionStatus"
where
  "execution_action_step has_execution execution_index out request_action =
     (let s = xt_summary out;
          status = \<lparr>xs_world_id = qs_world_id request_action, xs_shard = qs_shard request_action,
            xs_requested_action = qs_requested_action request_action,
            xs_requested_replica_delta = qs_requested_replica_delta request_action,
            xs_state = XssAvailable, xs_request_state = Some (qs_state request_action),
            xs_execution_state = None\<rparr>;
          key = make_pool_key (qs_world_id request_action) (qs_shard request_action);
          e = idx_find execution_index key;
          execution_matches_request =
            (case e of None \<Rightarrow> False
             | Some i \<Rightarrow> xa_action (xi_action i) = qs_requested_action request_action \<and>
                         xa_replica_delta (xi_action i) = qs_requested_replica_delta request_action);
          matches_revision = xm_execution_revision_matches_current_request s;
          stale = (\<lambda>status. (status\<lparr>xs_state := XssStale\<rparr>, s\<lparr>xm_stale_actions := xm_stale_actions s + 1\<rparr>));
          (status, s) =
            (if qs_state request_action = RasPending then
               (case (if has_execution then e else None) of
                  None \<Rightarrow> (status\<lparr>xs_state := XssAvailable\<rparr>,
                           s\<lparr>xm_available_actions := xm_available_actions s + 1\<rparr>)
                | Some i \<Rightarrow>
                    (let status = status\<lparr>xs_execution_state := Some (xi_state i)\<rparr>
                     in if \<not> matches_revision \<or> \<not> execution_matches_request then stale status
                        else if xi_state i = XasClaimed then
                          (status\<lparr>xs_state := XssClaimed\<rparr>,
                           s\<lparr>xm_claimed_actions := xm_claimed_actions s + 1\<rparr>)
                        else if xi_state i = XasFailed then
                          (status\<lparr>xs_state := XssFailed\<rparr>,
                           s\<lparr>xm_failed_actions := xm_failed_actions s + 1\<rparr>)
                        else stale status))
             else if qs_state request_action = RasSatisfied then
               (case e of
                  None \<Rightarrow> stale status
                | Some i \<Rightarrow>
                    (let status = status\<lparr>xs_execution_state := Some (xi_state i)\<rparr>
                     in if matches_revision \<and> execution_matches_request \<and> xi_state i = XasCompleted then
                          (status\<lparr>xs_state := XssCompleted\<rparr>,
                           s\<lparr>xm_completed_actions := xm_completed_actions s + 1\<rparr>)
                        else stale status))
             else
               (case e of None \<Rightarrow> stale status
                | Some i \<Rightarrow> stale (status\<lparr>xs_execution_state := Some (xi_state i)\<rparr>)))
      in out\<lparr>xt_summary := s, xt_actions := xt_actions out @ [status]\<rparr>)"

definition execution_index_of ::
  "TopologyActuationExecutionDocument option \<Rightarrow> (string, TopologyActuationExecutionItem) idx"
where
  "execution_index_of execution_document =
     (case execution_document of None \<Rightarrow> idx_empty | Some d \<Rightarrow> index_by item_key (xd_actions d))"

definition evaluate_topology_actuation_execution_status ::
  "iteration \<Rightarrow> TopologyActuationExecutionDocument option \<Rightarrow> TopologyActuationRequestDocument option \<Rightarrow>
   DesiredTopologyDocument option \<Rightarrow> ObservedTopologyPool list \<Rightarrow> TopologyActuationExecutionStatus"
where
  "evaluate_topology_actuation_execution_status it execution_document request_document desired_topology
     observed_pools =
     (let s = \<lparr>xm_request_present = request_document \<noteq> None,
            xm_execution_present = execution_document \<noteq> None,
            xm_execution_revision_matches_current_request =
              (case (execution_document, request_document) of
                 (Some x, Some q) \<Rightarrow> xd_request_revision x = qd_revision q | _ \<Rightarrow> False),
            xm_execution_request_revision =
              (case execution_document of None \<Rightarrow> 0 | Some x \<Rightarrow> xd_request_revision x),
            xm_current_request_revision =
              (case request_document of None \<Rightarrow> 0 | Some q \<Rightarrow> qd_revision q),
            xm_actions_total = 0, xm_available_actions = 0, xm_claimed_actions = 0,
            xm_completed_actions = 0, xm_failed_actions = 0, xm_stale_actions = 0\<rparr>;
          request_status = evaluate_topology_actuation_request_status it request_document
            desired_topology observed_pools;
          out = foldl (execution_action_step (execution_document \<noteq> None) (execution_index_of execution_document))
            \<lparr>xt_summary = s, xt_actions = []\<rparr> (qt_actions request_status)
      in out\<lparr>xt_summary := (xt_summary out)
               \<lparr>xm_actions_total := word_of_nat (length (xt_actions out))\<rparr>\<rparr>)"

section \<open>Realization\<close>

datatype TopologyActuationRealizationState =
    RlsAvailable | RlsClaimed | RlsAwaitingObservation | RlsRealized | RlsFailed | RlsStale

fun topology_actuation_realization_state_name :: "TopologyActuationRealizationState \<Rightarrow> string" where
  "topology_actuation_realization_state_name RlsAvailable = ''available''"
| "topology_actuation_realization_state_name RlsClaimed = ''claimed''"
| "topology_actuation_realization_state_name RlsAwaitingObservation = ''awaiting_observation''"
| "topology_actuation_realization_state_name RlsRealized = ''realized''"
| "topology_actuation_realization_state_name RlsFailed = ''failed''"
| "topology_actuation_realization_state_name RlsStale = ''stale''"

record TopologyActuationRealizationActionStatus =
  zs_world_id :: string
  zs_shard :: string
  zs_requested_action :: TopologyActuationActionKind
  zs_requested_replica_delta :: i32
  zs_state :: TopologyActuationRealizationState
  zs_request_state :: "TopologyActuationRequestActionState option"
  zs_execution_state :: "TopologyActuationExecutionActionState option"
  zs_observed_instances_before :: u32
  zs_ready_instances_before :: u32
  zs_current_observed_instances :: u32
  zs_current_ready_instances :: u32

record TopologyActuationRealizationStatusSummary =
  zm_request_present :: bool
  zm_execution_present :: bool
  zm_execution_revision_matches_current_request :: bool
  zm_execution_request_revision :: u64
  zm_current_request_revision :: u64
  zm_actions_total :: u32
  zm_available_actions :: u32
  zm_claimed_actions :: u32
  zm_awaiting_observation_actions :: u32
  zm_realized_actions :: u32
  zm_failed_actions :: u32
  zm_stale_actions :: u32

record TopologyActuationRealizationStatus =
  zt_summary :: TopologyActuationRealizationStatusSummary
  zt_actions :: "TopologyActuationRealizationActionStatus list"

text \<open>\<open>static_cast<uint32_t>(std::max(delta, 0))\<close>.\<close>

definition positive_delta :: "i32 \<Rightarrow> u32" where
  "positive_delta delta = (if sint delta < 0 then 0 else delta)"

definition realization_action_step ::
  "(string, TopologyActuationExecutionItem) idx \<Rightarrow> (string, ObservedTopologyPool) idx \<Rightarrow>
   TopologyActuationRealizationStatus \<Rightarrow> TopologyActuationExecutionActionStatus \<Rightarrow>
   TopologyActuationRealizationStatus"
where
  "realization_action_step execution_index observed_index out execution_action =
     (let s = zt_summary out;
          key = make_pool_key (xs_world_id execution_action) (xs_shard execution_action);
          status = \<lparr>zs_world_id = xs_world_id execution_action, zs_shard = xs_shard execution_action,
            zs_requested_action = xs_requested_action execution_action,
            zs_requested_replica_delta = xs_requested_replica_delta execution_action,
            zs_state = RlsAvailable, zs_request_state = xs_request_state execution_action,
            zs_execution_state = xs_execution_state execution_action,
            zs_observed_instances_before = 0, zs_ready_instances_before = 0,
            zs_current_observed_instances = 0, zs_current_ready_instances = 0\<rparr>;
          status = (case idx_find observed_index key of None \<Rightarrow> status
            | Some p \<Rightarrow> status\<lparr>zs_current_observed_instances := op_instances p,
                zs_current_ready_instances := op_ready_instances p\<rparr>);
          status = (case idx_find execution_index key of None \<Rightarrow> status
            | Some i \<Rightarrow> status\<lparr>zs_observed_instances_before := xi_observed_instances_before i,
                zs_ready_instances_before := xi_ready_instances_before i\<rparr>);
          delta = positive_delta (xs_requested_replica_delta execution_action);
          (status, s) =
            (case xs_state execution_action of
               XssAvailable \<Rightarrow> (status\<lparr>zs_state := RlsAvailable\<rparr>,
                 s\<lparr>zm_available_actions := zm_available_actions s + 1\<rparr>)
             | XssClaimed \<Rightarrow> (status\<lparr>zs_state := RlsClaimed\<rparr>,
                 s\<lparr>zm_claimed_actions := zm_claimed_actions s + 1\<rparr>)
             | XssFailed \<Rightarrow> (status\<lparr>zs_state := RlsFailed\<rparr>,
                 s\<lparr>zm_failed_actions := zm_failed_actions s + 1\<rparr>)
             | XssStale \<Rightarrow> (status\<lparr>zs_state := RlsStale\<rparr>,
                 s\<lparr>zm_stale_actions := zm_stale_actions s + 1\<rparr>)
             | XssCompleted \<Rightarrow>
                 (let realized =
                    (case xs_requested_action execution_action of
                       TakScaleOutPool \<Rightarrow>
                         zs_current_observed_instances status \<ge> zs_observed_instances_before status + delta
                     | TakScaleInPool \<Rightarrow>
                         zs_current_observed_instances status + delta \<le> zs_observed_instances_before status
                     | TakRestorePoolReadiness \<Rightarrow>
                         zs_ready_instances_before status = 0 \<and> zs_current_ready_instances status > 0
                     | TakObserveUndeclaredPool \<Rightarrow> False)
                  in if realized then
                       (status\<lparr>zs_state := RlsRealized\<rparr>,
                        s\<lparr>zm_realized_actions := zm_realized_actions s + 1\<rparr>)
                     else
                       (status\<lparr>zs_state := RlsAwaitingObservation\<rparr>,
                        s\<lparr>zm_awaiting_observation_actions := zm_awaiting_observation_actions s + 1\<rparr>)))
      in out\<lparr>zt_summary := s, zt_actions := zt_actions out @ [status]\<rparr>)"

definition evaluate_topology_actuation_realization_status ::
  "iteration \<Rightarrow> TopologyActuationExecutionDocument option \<Rightarrow> TopologyActuationRequestDocument option \<Rightarrow>
   DesiredTopologyDocument option \<Rightarrow> ObservedTopologyPool list \<Rightarrow> TopologyActuationRealizationStatus"
where
  "evaluate_topology_actuation_realization_status it execution_document request_document desired_topology
     observed_pools =
     (let execution_status = evaluate_topology_actuation_execution_status it execution_document
            request_document desired_topology observed_pools;
          x = xt_summary execution_status;
          s = \<lparr>zm_request_present = xm_request_present x, zm_execution_present = xm_execution_present x,
            zm_execution_revision_matches_current_request = xm_execution_revision_matches_current_request x,
            zm_execution_request_revision = xm_execution_request_revision x,
            zm_current_request_revision = xm_current_request_revision x,
            zm_actions_total = 0, zm_available_actions = 0, zm_claimed_actions = 0,
            zm_awaiting_observation_actions = 0, zm_realized_actions = 0, zm_failed_actions = 0,
            zm_stale_actions = 0\<rparr>;
          out = foldl (realization_action_step (execution_index_of execution_document)
              (index_by observed_key observed_pools))
            \<lparr>zt_summary = s, zt_actions = []\<rparr> (xt_actions execution_status)
      in out\<lparr>zt_summary := (zt_summary out)
               \<lparr>zm_actions_total := word_of_nat (length (zt_actions out))\<rparr>\<rparr>)"

section \<open>Adapter leases\<close>

record TopologyActuationAdapterLeaseAction =
  la_world_id :: string
  la_shard :: string
  la_action :: TopologyActuationActionKind
  la_replica_delta :: i32

record TopologyActuationAdapterLeaseDocument =
  ld_adapter_id :: string
  ld_revision :: u64
  ld_leased_at_ms :: u64
  ld_execution_revision :: u64
  ld_actions :: "TopologyActuationAdapterLeaseAction list"

datatype TopologyActuationAdapterStatusState =
    AdsAvailable | AdsLeased | AdsAwaitingRealization | AdsRealized | AdsFailed | AdsStale

fun topology_actuation_adapter_status_state_name :: "TopologyActuationAdapterStatusState \<Rightarrow> string" where
  "topology_actuation_adapter_status_state_name AdsAvailable = ''available''"
| "topology_actuation_adapter_status_state_name AdsLeased = ''leased''"
| "topology_actuation_adapter_status_state_name AdsAwaitingRealization = ''awaiting_realization''"
| "topology_actuation_adapter_status_state_name AdsRealized = ''realized''"
| "topology_actuation_adapter_status_state_name AdsFailed = ''failed''"
| "topology_actuation_adapter_status_state_name AdsStale = ''stale''"

record TopologyActuationAdapterStatusAction =
  va_world_id :: string
  va_shard :: string
  va_requested_action :: TopologyActuationActionKind
  va_requested_replica_delta :: i32
  va_state :: TopologyActuationAdapterStatusState
  va_execution_state :: "TopologyActuationExecutionStatusState option"
  va_realization_state :: "TopologyActuationRealizationState option"

record TopologyActuationAdapterStatusSummary =
  vm_execution_present :: bool
  vm_lease_present :: bool
  vm_lease_revision_matches_current_execution :: bool
  vm_lease_execution_revision :: u64
  vm_current_execution_revision :: u64
  vm_actions_total :: u32
  vm_available_actions :: u32
  vm_leased_actions :: u32
  vm_awaiting_realization_actions :: u32
  vm_realized_actions :: u32
  vm_failed_actions :: u32
  vm_stale_actions :: u32

record TopologyActuationAdapterStatus =
  vt_summary :: TopologyActuationAdapterStatusSummary
  vt_actions :: "TopologyActuationAdapterStatusAction list"

abbreviation lease_key :: "TopologyActuationAdapterLeaseAction \<Rightarrow> string" where
  "lease_key a \<equiv> make_pool_key (la_world_id a) (la_shard a)"

abbreviation realization_key :: "TopologyActuationRealizationActionStatus \<Rightarrow> string" where
  "realization_key a \<equiv> make_pool_key (zs_world_id a) (zs_shard a)"

definition adapter_action_step ::
  "(string, TopologyActuationAdapterLeaseAction) idx \<Rightarrow>
   (string, TopologyActuationRealizationActionStatus) idx \<Rightarrow> TopologyActuationAdapterStatus \<Rightarrow>
   TopologyActuationExecutionActionStatus \<Rightarrow> TopologyActuationAdapterStatus"
where
  "adapter_action_step lease_index realization_index out action =
     (let s = vt_summary out;
          key = make_pool_key (xs_world_id action) (xs_shard action);
          lease = idx_find lease_index key;
          lease_matches_action =
            (case lease of None \<Rightarrow> False
             | Some l \<Rightarrow> la_action l = xs_requested_action action \<and>
                         la_replica_delta l = xs_requested_replica_delta action);
          realization_state = map_option zs_state (idx_find realization_index key);
          status = \<lparr>va_world_id = xs_world_id action, va_shard = xs_shard action,
            va_requested_action = xs_requested_action action,
            va_requested_replica_delta = xs_requested_replica_delta action, va_state = AdsAvailable,
            va_execution_state = Some (xs_state action), va_realization_state = realization_state\<rparr>;
          (status, s) =
            (if xs_state action = XssStale \<or>
                lease \<noteq> None \<and>
                  (\<not> vm_lease_revision_matches_current_execution s \<or> \<not> lease_matches_action) then
               (status\<lparr>va_state := AdsStale\<rparr>, s\<lparr>vm_stale_actions := vm_stale_actions s + 1\<rparr>)
             else if realization_state = Some RlsRealized then
               (status\<lparr>va_state := AdsRealized\<rparr>, s\<lparr>vm_realized_actions := vm_realized_actions s + 1\<rparr>)
             else if realization_state = Some RlsAwaitingObservation then
               (if lease \<noteq> None then
                  (status\<lparr>va_state := AdsAwaitingRealization\<rparr>,
                   s\<lparr>vm_awaiting_realization_actions := vm_awaiting_realization_actions s + 1\<rparr>)
                else
                  (status\<lparr>va_state := AdsAvailable\<rparr>,
                   s\<lparr>vm_available_actions := vm_available_actions s + 1\<rparr>))
             else if xs_state action = XssFailed then
               (if lease \<noteq> None then
                  (status\<lparr>va_state := AdsFailed\<rparr>, s\<lparr>vm_failed_actions := vm_failed_actions s + 1\<rparr>)
                else
                  (status\<lparr>va_state := AdsAvailable\<rparr>,
                   s\<lparr>vm_available_actions := vm_available_actions s + 1\<rparr>))
             else if lease \<noteq> None \<and> lease_matches_action then
               (status\<lparr>va_state := AdsLeased\<rparr>, s\<lparr>vm_leased_actions := vm_leased_actions s + 1\<rparr>)
             else
               (status\<lparr>va_state := AdsAvailable\<rparr>,
                s\<lparr>vm_available_actions := vm_available_actions s + 1\<rparr>))
      in out\<lparr>vt_summary := s, vt_actions := vt_actions out @ [status]\<rparr>)"

definition lease_index_of ::
  "TopologyActuationAdapterLeaseDocument option \<Rightarrow> (string, TopologyActuationAdapterLeaseAction) idx"
where
  "lease_index_of lease_document =
     (case lease_document of None \<Rightarrow> idx_empty | Some d \<Rightarrow> index_by lease_key (ld_actions d))"

definition evaluate_topology_actuation_adapter_status ::
  "iteration \<Rightarrow> TopologyActuationAdapterLeaseDocument option \<Rightarrow> TopologyActuationExecutionDocument option \<Rightarrow>
   TopologyActuationRequestDocument option \<Rightarrow> DesiredTopologyDocument option \<Rightarrow>
   ObservedTopologyPool list \<Rightarrow> TopologyActuationAdapterStatus"
where
  "evaluate_topology_actuation_adapter_status it lease_document execution_document request_document
     desired_topology observed_pools =
     (let s = \<lparr>vm_execution_present = execution_document \<noteq> None, vm_lease_present = lease_document \<noteq> None,
            vm_lease_revision_matches_current_execution =
              (case (lease_document, execution_document) of
                 (Some l, Some x) \<Rightarrow> ld_execution_revision l = xd_revision x | _ \<Rightarrow> False),
            vm_lease_execution_revision =
              (case lease_document of None \<Rightarrow> 0 | Some l \<Rightarrow> ld_execution_revision l),
            vm_current_execution_revision =
              (case execution_document of None \<Rightarrow> 0 | Some x \<Rightarrow> xd_revision x),
            vm_actions_total = 0, vm_available_actions = 0, vm_leased_actions = 0,
            vm_awaiting_realization_actions = 0, vm_realized_actions = 0, vm_failed_actions = 0,
            vm_stale_actions = 0\<rparr>;
          execution_status = evaluate_topology_actuation_execution_status it execution_document
            request_document desired_topology observed_pools;
          realization_status = evaluate_topology_actuation_realization_status it execution_document
            request_document desired_topology observed_pools;
          out = foldl (adapter_action_step (lease_index_of lease_document)
              (index_by realization_key (zt_actions realization_status)))
            \<lparr>vt_summary = s, vt_actions = []\<rparr> (xt_actions execution_status)
      in out\<lparr>vt_summary := (vt_summary out)
               \<lparr>vm_actions_total := word_of_nat (length (vt_actions out))\<rparr>\<rparr>)"

section \<open>Runtime assignments\<close>

record TopologyActuationRuntimeAssignmentItem =
  ri_instance_id :: string
  ri_world_id :: string
  ri_shard :: string
  ri_action :: TopologyActuationActionKind

record TopologyActuationRuntimeAssignmentDocument =
  rd_adapter_id :: string
  rd_revision :: u64
  rd_updated_at_ms :: u64
  rd_lease_revision :: u64
  rd_assignments :: "TopologyActuationRuntimeAssignmentItem list"

definition find_topology_actuation_runtime_assignment ::
  "TopologyActuationRuntimeAssignmentDocument \<Rightarrow> string \<Rightarrow> TopologyActuationRuntimeAssignmentItem option"
where
  "find_topology_actuation_runtime_assignment document instance_id =
     List.find (\<lambda>a. ri_instance_id a = instance_id) (rd_assignments document)"

section \<open>The four evaluations as classifications\<close>

interpretation execution_state: named_enum topology_actuation_execution_action_state_name
  parse_topology_actuation_execution_action_state
proof (unfold_locales, goal_cases)
  case (1 x)
  show ?case by (cases x) (simp_all add: parse_topology_actuation_execution_action_state_def)
next
  case (2 s x)
  then show ?case
    by (auto simp: parse_topology_actuation_execution_action_state_def split: if_splits)
qed

definition request_state_of ::
  "TopologyActuationAction option \<Rightarrow> TopologyActuationRequestAction \<Rightarrow> TopologyActuationRequestActionState"
where
  "request_state_of planned q =
     (case planned of None \<Rightarrow> RasSatisfied
      | Some a \<Rightarrow> if ta_actionable a \<and> ta_action a = qa_action q \<and> ta_replica_delta a = qa_replica_delta q
                  then RasPending else RasSuperseded)"

definition request_status_of ::
  "TopologyActuationAction option \<Rightarrow> TopologyActuationRequestAction \<Rightarrow> TopologyActuationRequestActionStatus"
where
  "request_status_of planned q =
     \<lparr>qs_world_id = qa_world_id q, qs_shard = qa_shard q, qs_requested_action = qa_action q,
      qs_requested_replica_delta = qa_replica_delta q, qs_state = request_state_of planned q,
      qs_current_status = map_option ta_status planned, qs_current_action = map_option ta_action planned,
      qs_current_replica_delta = (case planned of None \<Rightarrow> 0 | Some a \<Rightarrow> ta_replica_delta a)\<rparr>"

fun request_counter :: "TopologyActuationRequestStatusSummary \<Rightarrow> TopologyActuationRequestActionState \<Rightarrow> u32" where
  "request_counter s RasPending = qm_pending_actions s"
| "request_counter s RasSatisfied = qm_satisfied_actions s"
| "request_counter s RasSuperseded = qm_superseded_actions s"

abbreviation request_key :: "TopologyActuationRequestAction \<Rightarrow> string" where
  "request_key q \<equiv> make_pool_key (qa_world_id q) (qa_shard q)"

interpretation req: tally_loop "request_action_step m" "\<lambda>_. True" qt_actions
  "\<lambda>q. request_status_of (idx_find m (request_key q)) q" "\<lambda>out. request_counter (qt_summary out)" qs_state
  for m
proof (unfold_locales, goal_cases)
  case (2 out q)
  show ?case
    by (auto simp: request_action_step_def request_status_of_def request_state_of_def Let_def
        split: option.splits)
next
  case (3 out q c)
  show ?case
    by (cases c) (auto simp: request_action_step_def request_status_of_def request_state_of_def Let_def
        split: option.splits)
qed simp

definition item_matches ::
  "TopologyActuationExecutionItem \<Rightarrow> TopologyActuationActionKind \<Rightarrow> i32 \<Rightarrow> bool"
where
  "item_matches i action delta \<longleftrightarrow>
     xa_action (xi_action i) = action \<and> xa_replica_delta (xi_action i) = delta"

text \<open>\<open>cur\<close> tells whether the execution is of the current request revision.\<close>

definition execution_state_of ::
  "bool \<Rightarrow> TopologyActuationExecutionItem option \<Rightarrow> TopologyActuationRequestActionStatus \<Rightarrow>
   TopologyActuationExecutionStatusState"
where
  "execution_state_of cur item q =
     (case item of
        None \<Rightarrow> if qs_state q = RasPending then XssAvailable else XssStale
      | Some i \<Rightarrow>
          if \<not> cur \<or> \<not> item_matches i (qs_requested_action q) (qs_requested_replica_delta q) then XssStale
          else (case (qs_state q, xi_state i) of
                  (RasPending, XasClaimed) \<Rightarrow> XssClaimed
                | (RasPending, XasFailed) \<Rightarrow> XssFailed
                | (RasSatisfied, XasCompleted) \<Rightarrow> XssCompleted
                | _ \<Rightarrow> XssStale))"

definition execution_status_of ::
  "bool \<Rightarrow> TopologyActuationExecutionItem option \<Rightarrow> TopologyActuationRequestActionStatus \<Rightarrow>
   TopologyActuationExecutionActionStatus"
where
  "execution_status_of cur item q =
     \<lparr>xs_world_id = qs_world_id q, xs_shard = qs_shard q, xs_requested_action = qs_requested_action q,
      xs_requested_replica_delta = qs_requested_replica_delta q, xs_state = execution_state_of cur item q,
      xs_request_state = Some (qs_state q), xs_execution_state = map_option xi_state item\<rparr>"

fun execution_counter :: "TopologyActuationExecutionStatusSummary \<Rightarrow> TopologyActuationExecutionStatusState \<Rightarrow> u32" where
  "execution_counter s XssAvailable = xm_available_actions s"
| "execution_counter s XssClaimed = xm_claimed_actions s"
| "execution_counter s XssCompleted = xm_completed_actions s"
| "execution_counter s XssFailed = xm_failed_actions s"
| "execution_counter s XssStale = xm_stale_actions s"

abbreviation status_key :: "TopologyActuationRequestActionStatus \<Rightarrow> string" where
  "status_key q \<equiv> make_pool_key (qs_world_id q) (qs_shard q)"

definition count_execution ::
  "TopologyActuationExecutionStatusState \<Rightarrow> TopologyActuationExecutionStatusSummary \<Rightarrow>
   TopologyActuationExecutionStatusSummary"
where
  "count_execution c s =
     (case c of XssAvailable \<Rightarrow> s\<lparr>xm_available_actions := xm_available_actions s + 1\<rparr>
      | XssClaimed \<Rightarrow> s\<lparr>xm_claimed_actions := xm_claimed_actions s + 1\<rparr>
      | XssCompleted \<Rightarrow> s\<lparr>xm_completed_actions := xm_completed_actions s + 1\<rparr>
      | XssFailed \<Rightarrow> s\<lparr>xm_failed_actions := xm_failed_actions s + 1\<rparr>
      | XssStale \<Rightarrow> s\<lparr>xm_stale_actions := xm_stale_actions s + 1\<rparr>)"

lemma execution_action_step_eq:
  assumes "has \<or> m = idx_empty"
  shows "execution_action_step has m out q =
    (let e = idx_find m (status_key q);
         cur = xm_execution_revision_matches_current_request (xt_summary out)
     in out\<lparr>xt_summary := count_execution (execution_state_of cur e q) (xt_summary out),
          xt_actions := xt_actions out @ [execution_status_of cur e q]\<rparr>)"
proof (cases "idx_find m (status_key q)")
  case None
  then show ?thesis
    by (cases "qs_state q")
      (simp_all add: execution_action_step_def execution_status_of_def execution_state_of_def
        count_execution_def Let_def)
next
  case (Some i)
  with assms have has: "has" by (auto simp: idx.find_empty)
  let ?ok = "xm_execution_revision_matches_current_request (xt_summary out) \<and>
    item_matches i (qs_requested_action q) (qs_requested_replica_delta q)"
  show ?thesis
  proof (cases ?ok)
    case True
    with Some has show ?thesis
      by (cases "qs_state q"; cases "xi_state i")
        (simp_all add: execution_action_step_def execution_status_of_def execution_state_of_def
          count_execution_def item_matches_def Let_def)
  next
    case False
    with Some has show ?thesis
      by (cases "qs_state q")
        (auto simp add: execution_action_step_def execution_status_of_def execution_state_of_def
          count_execution_def item_matches_def Let_def)
  qed
qed

lemma execution_fields:
  "xt_actions (out\<lparr>xt_summary := s, xt_actions := l\<rparr>) = l"
  "xt_summary (out\<lparr>xt_summary := s, xt_actions := l\<rparr>) = s"
  "xt_actions (out\<lparr>xt_summary := s\<rparr>) = xt_actions out"
  "xt_summary (out\<lparr>xt_summary := s\<rparr>) = s"
  "xt_actions \<lparr>xt_summary = s, xt_actions = l\<rparr> = l"
  "xt_summary \<lparr>xt_summary = s, xt_actions = l\<rparr> = s"
  by simp_all

lemma execution_index_absent: "X \<noteq> None \<or> execution_index_of X = idx_empty"
  by (simp add: execution_index_of_def split: option.split)

lemmas execution_step_eq = execution_action_step_eq [OF execution_index_absent]

interpretation exe: tally_loop "execution_action_step (X \<noteq> None) (execution_index_of X)"
  "\<lambda>out. xm_execution_revision_matches_current_request (xt_summary out) = cur" xt_actions
  "\<lambda>q. execution_status_of cur (idx_find (execution_index_of X) (status_key q)) q"
  "\<lambda>out. execution_counter (xt_summary out)" xs_state
  for X cur
proof (unfold_locales, goal_cases)
  case (1 out q)
  have "xm_execution_revision_matches_current_request (count_execution c s) =
      xm_execution_revision_matches_current_request s" for c s
    by (cases c) (simp_all add: count_execution_def)
  with 1 show ?case by (simp only: execution_step_eq Let_def execution_fields)
next
  case (2 out q)
  then show ?case by (simp only: execution_step_eq Let_def execution_fields)
next
  case (3 out q c)
  have "execution_counter (count_execution d s) c = execution_counter s c + (if d = c then 1 else 0)" for d s
    by (cases c; cases d) (simp_all add: count_execution_def)
  with 3 show ?case
    by (simp only: execution_step_eq Let_def execution_fields execution_status_of_def
        TopologyActuationExecutionActionStatus.simps)
qed

text \<open>What the observation says about a completed action.\<close>

definition realized_by ::
  "ObservedTopologyPool option \<Rightarrow> TopologyActuationExecutionItem option \<Rightarrow>
   TopologyActuationActionKind \<Rightarrow> i32 \<Rightarrow> bool"
where
  "realized_by obs item action delta =
     (let now = (case obs of None \<Rightarrow> 0 | Some p \<Rightarrow> op_instances p);
          ready = (case obs of None \<Rightarrow> 0 | Some p \<Rightarrow> op_ready_instances p);
          before = (case item of None \<Rightarrow> 0 | Some i \<Rightarrow> xi_observed_instances_before i);
          ready_before = (case item of None \<Rightarrow> 0 | Some i \<Rightarrow> xi_ready_instances_before i)
      in case action of
           TakScaleOutPool \<Rightarrow> now \<ge> before + positive_delta delta
         | TakScaleInPool \<Rightarrow> now + positive_delta delta \<le> before
         | TakRestorePoolReadiness \<Rightarrow> ready_before = 0 \<and> ready > 0
         | TakObserveUndeclaredPool \<Rightarrow> False)"

definition realization_state_of ::
  "ObservedTopologyPool option \<Rightarrow> TopologyActuationExecutionItem option \<Rightarrow>
   TopologyActuationExecutionActionStatus \<Rightarrow> TopologyActuationRealizationState"
where
  "realization_state_of obs item x =
     (case xs_state x of XssAvailable \<Rightarrow> RlsAvailable | XssClaimed \<Rightarrow> RlsClaimed | XssFailed \<Rightarrow> RlsFailed
      | XssStale \<Rightarrow> RlsStale
      | XssCompleted \<Rightarrow>
          if realized_by obs item (xs_requested_action x) (xs_requested_replica_delta x)
          then RlsRealized else RlsAwaitingObservation)"

definition realization_status_of ::
  "ObservedTopologyPool option \<Rightarrow> TopologyActuationExecutionItem option \<Rightarrow>
   TopologyActuationExecutionActionStatus \<Rightarrow> TopologyActuationRealizationActionStatus"
where
  "realization_status_of obs item x =
     \<lparr>zs_world_id = xs_world_id x, zs_shard = xs_shard x, zs_requested_action = xs_requested_action x,
      zs_requested_replica_delta = xs_requested_replica_delta x, zs_state = realization_state_of obs item x,
      zs_request_state = xs_request_state x, zs_execution_state = xs_execution_state x,
      zs_observed_instances_before = (case item of None \<Rightarrow> 0 | Some i \<Rightarrow> xi_observed_instances_before i),
      zs_ready_instances_before = (case item of None \<Rightarrow> 0 | Some i \<Rightarrow> xi_ready_instances_before i),
      zs_current_observed_instances = (case obs of None \<Rightarrow> 0 | Some p \<Rightarrow> op_instances p),
      zs_current_ready_instances = (case obs of None \<Rightarrow> 0 | Some p \<Rightarrow> op_ready_instances p)\<rparr>"

fun realization_counter ::
  "TopologyActuationRealizationStatusSummary \<Rightarrow> TopologyActuationRealizationState \<Rightarrow> u32"
where
  "realization_counter s RlsAvailable = zm_available_actions s"
| "realization_counter s RlsClaimed = zm_claimed_actions s"
| "realization_counter s RlsAwaitingObservation = zm_awaiting_observation_actions s"
| "realization_counter s RlsRealized = zm_realized_actions s"
| "realization_counter s RlsFailed = zm_failed_actions s"
| "realization_counter s RlsStale = zm_stale_actions s"

definition count_realization ::
  "TopologyActuationRealizationState \<Rightarrow> TopologyActuationRealizationStatusSummary \<Rightarrow>
   TopologyActuationRealizationStatusSummary"
where
  "count_realization c s =
     (case c of RlsAvailable \<Rightarrow> s\<lparr>zm_available_actions := zm_available_actions s + 1\<rparr>
      | RlsClaimed \<Rightarrow> s\<lparr>zm_claimed_actions := zm_claimed_actions s + 1\<rparr>
      | RlsAwaitingObservation \<Rightarrow> s\<lparr>zm_awaiting_observation_actions := zm_awaiting_observation_actions s + 1\<rparr>
      | RlsRealized \<Rightarrow> s\<lparr>zm_realized_actions := zm_realized_actions s + 1\<rparr>
      | RlsFailed \<Rightarrow> s\<lparr>zm_failed_actions := zm_failed_actions s + 1\<rparr>
      | RlsStale \<Rightarrow> s\<lparr>zm_stale_actions := zm_stale_actions s + 1\<rparr>)"

abbreviation exec_key :: "TopologyActuationExecutionActionStatus \<Rightarrow> string" where
  "exec_key x \<equiv> make_pool_key (xs_world_id x) (xs_shard x)"

lemma realization_fields:
  "zt_actions (out\<lparr>zt_summary := s, zt_actions := l\<rparr>) = l"
  "zt_summary (out\<lparr>zt_summary := s, zt_actions := l\<rparr>) = s"
  "zt_actions (out\<lparr>zt_summary := s\<rparr>) = zt_actions out"
  "zt_summary (out\<lparr>zt_summary := s\<rparr>) = s"
  "zt_actions \<lparr>zt_summary = s, zt_actions = l\<rparr> = l"
  "zt_summary \<lparr>zt_summary = s, zt_actions = l\<rparr> = s"
  by simp_all

lemma realization_action_step_eq:
  "realization_action_step m n out x =
    (let status = realization_status_of (idx_find n (exec_key x)) (idx_find m (exec_key x)) x
     in out\<lparr>zt_summary := count_realization (zs_state status) (zt_summary out),
          zt_actions := zt_actions out @ [status]\<rparr>)"
proof (cases "xs_state x = XssCompleted")
  case True
  have "realized_by (idx_find n (exec_key x)) (idx_find m (exec_key x)) (xs_requested_action x)
      (xs_requested_replica_delta x) \<or> \<not> realized_by (idx_find n (exec_key x)) (idx_find m (exec_key x))
      (xs_requested_action x) (xs_requested_replica_delta x)" by blast
  with True show ?thesis
    by (cases "idx_find n (exec_key x)"; cases "idx_find m (exec_key x)"; cases "xs_requested_action x")
      (auto simp add: realization_action_step_def realization_status_of_def realization_state_of_def
        realized_by_def count_realization_def Let_def)
next
  case False
  then show ?thesis
    by (cases "xs_state x"; cases "idx_find n (exec_key x)"; cases "idx_find m (exec_key x)")
      (simp_all add: realization_action_step_def realization_status_of_def realization_state_of_def
        count_realization_def Let_def)
qed

interpretation rlz: tally_loop "realization_action_step m n" "\<lambda>_. True" zt_actions
  "\<lambda>x. realization_status_of (idx_find n (exec_key x)) (idx_find m (exec_key x)) x"
  "\<lambda>out. realization_counter (zt_summary out)" zs_state
  for m n
proof (unfold_locales, goal_cases)
  case (3 out x c)
  have "realization_counter (count_realization d s) c = realization_counter s c + (if d = c then 1 else 0)" for d s
    by (cases c; cases d) (simp_all add: count_realization_def)
  then show ?case by (simp add: realization_action_step_eq Let_def)
qed (simp_all add: realization_action_step_eq Let_def)

definition lease_matches :: "TopologyActuationAdapterLeaseAction \<Rightarrow> TopologyActuationExecutionActionStatus \<Rightarrow> bool" where
  "lease_matches l x \<longleftrightarrow> la_action l = xs_requested_action x \<and> la_replica_delta l = xs_requested_replica_delta x"

text \<open>\<open>cur\<close> tells whether the lease is of the current execution revision.\<close>

definition adapter_state_of ::
  "bool \<Rightarrow> TopologyActuationAdapterLeaseAction option \<Rightarrow> TopologyActuationRealizationState option \<Rightarrow>
   TopologyActuationExecutionActionStatus \<Rightarrow> TopologyActuationAdapterStatusState"
where
  "adapter_state_of cur lease rl x =
     (if xs_state x = XssStale \<or> (\<exists>l. lease = Some l \<and> (\<not> cur \<or> \<not> lease_matches l x)) then AdsStale
      else if rl = Some RlsRealized then AdsRealized
      else if rl = Some RlsAwaitingObservation then
        (if lease = None then AdsAvailable else AdsAwaitingRealization)
      else if xs_state x = XssFailed then (if lease = None then AdsAvailable else AdsFailed)
      else if lease = None then AdsAvailable else AdsLeased)"

definition adapter_status_of ::
  "bool \<Rightarrow> TopologyActuationAdapterLeaseAction option \<Rightarrow> TopologyActuationRealizationState option \<Rightarrow>
   TopologyActuationExecutionActionStatus \<Rightarrow> TopologyActuationAdapterStatusAction"
where
  "adapter_status_of cur lease rl x =
     \<lparr>va_world_id = xs_world_id x, va_shard = xs_shard x, va_requested_action = xs_requested_action x,
      va_requested_replica_delta = xs_requested_replica_delta x, va_state = adapter_state_of cur lease rl x,
      va_execution_state = Some (xs_state x), va_realization_state = rl\<rparr>"

fun adapter_counter :: "TopologyActuationAdapterStatusSummary \<Rightarrow> TopologyActuationAdapterStatusState \<Rightarrow> u32" where
  "adapter_counter s AdsAvailable = vm_available_actions s"
| "adapter_counter s AdsLeased = vm_leased_actions s"
| "adapter_counter s AdsAwaitingRealization = vm_awaiting_realization_actions s"
| "adapter_counter s AdsRealized = vm_realized_actions s"
| "adapter_counter s AdsFailed = vm_failed_actions s"
| "adapter_counter s AdsStale = vm_stale_actions s"

definition count_adapter ::
  "TopologyActuationAdapterStatusState \<Rightarrow> TopologyActuationAdapterStatusSummary \<Rightarrow>
   TopologyActuationAdapterStatusSummary"
where
  "count_adapter c s =
     (case c of AdsAvailable \<Rightarrow> s\<lparr>vm_available_actions := vm_available_actions s + 1\<rparr>
      | AdsLeased \<Rightarrow> s\<lparr>vm_leased_actions := vm_leased_actions s + 1\<rparr>
      | AdsAwaitingRealization \<Rightarrow> s\<lparr>vm_awaiting_realization_actions := vm_awaiting_realization_actions s + 1\<rparr>
      | AdsRealized \<Rightarrow> s\<lparr>vm_realized_actions := vm_realized_actions s + 1\<rparr>
      | AdsFailed \<Rightarrow> s\<lparr>vm_failed_actions := vm_failed_actions s + 1\<rparr>
      | AdsStale \<Rightarrow> s\<lparr>vm_stale_actions := vm_stale_actions s + 1\<rparr>)"

lemma adapter_fields:
  "vt_actions (out\<lparr>vt_summary := s, vt_actions := l\<rparr>) = l"
  "vt_summary (out\<lparr>vt_summary := s, vt_actions := l\<rparr>) = s"
  "vt_actions (out\<lparr>vt_summary := s\<rparr>) = vt_actions out"
  "vt_summary (out\<lparr>vt_summary := s\<rparr>) = s"
  "vt_actions \<lparr>vt_summary = s, vt_actions = l\<rparr> = l"
  "vt_summary \<lparr>vt_summary = s, vt_actions = l\<rparr> = s"
  by simp_all

lemma adapter_action_step_eq:
  "adapter_action_step m n out x =
    (let status = adapter_status_of (vm_lease_revision_matches_current_execution (vt_summary out))
           (idx_find m (exec_key x)) (map_option zs_state (idx_find n (exec_key x))) x
     in out\<lparr>vt_summary := count_adapter (va_state status) (vt_summary out),
          vt_actions := vt_actions out @ [status]\<rparr>)"
  by (cases "idx_find m (exec_key x)")
    (simp_all add: adapter_action_step_def adapter_status_of_def adapter_state_of_def lease_matches_def
      count_adapter_def Let_def)

interpretation adp: tally_loop "adapter_action_step m n"
  "\<lambda>out. vm_lease_revision_matches_current_execution (vt_summary out) = cur" vt_actions
  "\<lambda>x. adapter_status_of cur (idx_find m (exec_key x)) (map_option zs_state (idx_find n (exec_key x))) x"
  "\<lambda>out. adapter_counter (vt_summary out)" va_state
  for m n cur
proof (unfold_locales, goal_cases)
  case (1 out x)
  have "vm_lease_revision_matches_current_execution (count_adapter c s) =
      vm_lease_revision_matches_current_execution s" for c s
    by (cases c) (simp_all add: count_adapter_def)
  with 1 show ?case by (simp add: adapter_action_step_eq Let_def)
next
  case (2 out x)
  then show ?case by (simp add: adapter_action_step_eq Let_def)
next
  case (3 out x c)
  have "adapter_counter (count_adapter d s) c = adapter_counter s c + (if d = c then 1 else 0)" for d s
    by (cases c; cases d) (simp_all add: count_adapter_def)
  with 3 show ?case by (simp add: adapter_action_step_eq Let_def)
qed


section \<open>The reports\<close>

definition plan_index_of ::
  "iteration \<Rightarrow> DesiredTopologyDocument option \<Rightarrow> ObservedTopologyPool list \<Rightarrow>
   (string, TopologyActuationAction) idx"
where
  "plan_index_of it D obs = index_by action_key (tp_actions (plan_topology_actuation it D obs))"

definition revision_current ::
  "TopologyActuationExecutionDocument option \<Rightarrow> TopologyActuationRequestDocument option \<Rightarrow> bool"
where
  "revision_current X Q \<longleftrightarrow> (\<exists>x q. X = Some x \<and> Q = Some q \<and> xd_request_revision x = qd_revision q)"

definition lease_current ::
  "TopologyActuationAdapterLeaseDocument option \<Rightarrow> TopologyActuationExecutionDocument option \<Rightarrow> bool"
where
  "lease_current L X \<longleftrightarrow> (\<exists>l x. L = Some l \<and> X = Some x \<and> ld_execution_revision l = xd_revision x)"

definition requested_actions ::
  "TopologyActuationRequestDocument option \<Rightarrow> TopologyActuationRequestAction list"
where
  "requested_actions Q = (case Q of None \<Rightarrow> [] | Some q \<Rightarrow> qd_actions q)"

lemma request_actions_eq:
  "qt_actions (evaluate_topology_actuation_request_status it Q D obs) =
     map (\<lambda>q. request_status_of (idx_find (plan_index_of it D obs) (request_key q)) q) (requested_actions Q)"
  by (simp add: evaluate_topology_actuation_request_status_def requested_actions_def plan_index_of_def
      req.loop_results Let_def split: option.split)

lemma request_counter_eq:
  "request_counter (qt_summary (evaluate_topology_actuation_request_status it Q D obs)) c =
     word_of_nat (length (filter (\<lambda>q. qs_state q = c)
       (qt_actions (evaluate_topology_actuation_request_status it Q D obs))))"
proof (cases Q)
  case None
  then show ?thesis
    by (cases c) (simp_all add: evaluate_topology_actuation_request_status_def new_request_summary_def)
next
  case (Some q)
  have drop: "request_counter (s\<lparr>qm_actions_total := n\<rparr>) c = request_counter s c" for s n
    by (cases c) simp_all
  have zero: "request_counter (new_request_summary\<lparr>qm_request_present := a, qm_desired_present := b,
      qm_current_topology_revision := e, qm_basis_topology_revision := f,
      qm_basis_topology_revision_matches_current := g\<rparr>) c = 0" for a b e f g
    by (cases c) (simp_all add: new_request_summary_def)
  show ?thesis
    by (simp add: Some evaluate_topology_actuation_request_status_def Let_def req.loop_results
        req.loop_counter drop zero)
qed

lemma execution_actions_eq:
  "xt_actions (evaluate_topology_actuation_execution_status it X Q D obs) =
     map (\<lambda>q. execution_status_of (revision_current X Q) (idx_find (execution_index_of X) (status_key q)) q)
       (qt_actions (evaluate_topology_actuation_request_status it Q D obs))"
  unfolding evaluate_topology_actuation_execution_status_def Let_def
  by (simp only: execution_fields, subst exe.loop_results [where cur = "revision_current X Q"])
    (auto simp: revision_current_def split: option.splits)

lemma execution_counter_eq:
  "execution_counter (xt_summary (evaluate_topology_actuation_execution_status it X Q D obs)) c =
     word_of_nat (length (filter (\<lambda>q. xs_state q = c)
       (xt_actions (evaluate_topology_actuation_execution_status it X Q D obs))))"
proof -
  have drop: "execution_counter (s\<lparr>xm_actions_total := n\<rparr>) c = execution_counter s c" for s n
    by (cases c) simp_all
  have zero: "execution_counter \<lparr>xm_request_present = a1, xm_execution_present = a2,
      xm_execution_revision_matches_current_request = a3, xm_execution_request_revision = a4,
      xm_current_request_revision = a5, xm_actions_total = 0, xm_available_actions = 0,
      xm_claimed_actions = 0, xm_completed_actions = 0, xm_failed_actions = 0, xm_stale_actions = 0\<rparr> c = 0"
    for a1 a2 a3 a4 a5
    by (cases c) simp_all
  show ?thesis
    unfolding evaluate_topology_actuation_execution_status_def Let_def
    apply (simp only: execution_fields drop)
    apply (subst exe.loop_counter, rule refl)
    apply (subst exe.loop_results, rule refl)
    apply (simp only: execution_fields zero)
    apply simp
    done
qed

lemma realization_actions_eq:
  "zt_actions (evaluate_topology_actuation_realization_status it X Q D obs) =
     map (\<lambda>x. realization_status_of (List.find (\<lambda>p. observed_key p = exec_key x) obs)
                (idx_find (execution_index_of X) (exec_key x)) x)
       (xt_actions (evaluate_topology_actuation_execution_status it X Q D obs))"
  unfolding evaluate_topology_actuation_realization_status_def Let_def
  by (simp only: realization_fields, subst rlz.loop_results)
    (simp_all add: find_index_by)

lemma realization_counter_eq:
  "realization_counter (zt_summary (evaluate_topology_actuation_realization_status it X Q D obs)) c =
     word_of_nat (length (filter (\<lambda>q. zs_state q = c)
       (zt_actions (evaluate_topology_actuation_realization_status it X Q D obs))))"
proof -
  have drop: "realization_counter (s\<lparr>zm_actions_total := n\<rparr>) c = realization_counter s c" for s n
    by (cases c) simp_all
  have zero: "realization_counter \<lparr>zm_request_present = a1, zm_execution_present = a2,
      zm_execution_revision_matches_current_request = a3, zm_execution_request_revision = a4,
      zm_current_request_revision = a5, zm_actions_total = 0, zm_available_actions = 0,
      zm_claimed_actions = 0, zm_awaiting_observation_actions = 0, zm_realized_actions = 0,
      zm_failed_actions = 0, zm_stale_actions = 0\<rparr> c = 0"
    for a1 a2 a3 a4 a5
    by (cases c) simp_all
  show ?thesis
    unfolding evaluate_topology_actuation_realization_status_def Let_def
    apply (simp only: realization_fields drop)
    apply (subst rlz.loop_counter, rule TrueI)
    apply (subst rlz.loop_results, rule TrueI)
    apply (simp only: realization_fields zero)
    apply simp
    done
qed

lemma adapter_actions_eq:
  "vt_actions (evaluate_topology_actuation_adapter_status it L X Q D obs) =
     map (\<lambda>x. adapter_status_of (lease_current L X) (idx_find (lease_index_of L) (exec_key x))
                (map_option zs_state (List.find (\<lambda>z. realization_key z = exec_key x)
                   (zt_actions (evaluate_topology_actuation_realization_status it X Q D obs)))) x)
       (xt_actions (evaluate_topology_actuation_execution_status it X Q D obs))"
  unfolding evaluate_topology_actuation_adapter_status_def Let_def
  by (simp only: adapter_fields, subst adp.loop_results [where cur = "lease_current L X"])
    (auto simp: find_index_by lease_current_def split: option.splits)

lemma adapter_counter_eq:
  "adapter_counter (vt_summary (evaluate_topology_actuation_adapter_status it L X Q D obs)) c =
     word_of_nat (length (filter (\<lambda>q. va_state q = c)
       (vt_actions (evaluate_topology_actuation_adapter_status it L X Q D obs))))"
proof -
  have drop: "adapter_counter (s\<lparr>vm_actions_total := n\<rparr>) c = adapter_counter s c" for s n
    by (cases c) simp_all
  have zero: "adapter_counter \<lparr>vm_execution_present = a1, vm_lease_present = a2,
      vm_lease_revision_matches_current_execution = a3, vm_lease_execution_revision = a4,
      vm_current_execution_revision = a5, vm_actions_total = 0, vm_available_actions = 0,
      vm_leased_actions = 0, vm_awaiting_realization_actions = 0, vm_realized_actions = 0,
      vm_failed_actions = 0, vm_stale_actions = 0\<rparr> c = 0"
    for a1 a2 a3 a4 a5
    by (cases c) simp_all
  show ?thesis
    unfolding evaluate_topology_actuation_adapter_status_def Let_def
    apply (simp only: adapter_fields drop)
    apply (subst adp.loop_counter, rule refl)
    apply (subst adp.loop_results, rule refl)
    apply (simp only: adapter_fields zero)
    apply simp
    done
qed


text \<open>C33.
  The four reports neither lose, add nor reorder actions: each of them lists exactly the actions of
  the request document, in its order and with the requested kind and delta, and in each summary the
  counter of every state is the number of listed actions in that state.\<close>

theorem actuation_reports_account_for_requests:
  "map (\<lambda>z. (zs_world_id z, zs_shard z, zs_requested_action z, zs_requested_replica_delta z))
     (zt_actions (evaluate_topology_actuation_realization_status it X Q D obs)) =
   map (\<lambda>q. (qa_world_id q, qa_shard q, qa_action q, qa_replica_delta q)) (requested_actions Q) \<and>
   map (\<lambda>v. (va_world_id v, va_shard v, va_requested_action v, va_requested_replica_delta v))
     (vt_actions (evaluate_topology_actuation_adapter_status it L X Q D obs)) =
   map (\<lambda>q. (qa_world_id q, qa_shard q, qa_action q, qa_replica_delta q)) (requested_actions Q) \<and>
   realization_counter (zt_summary (evaluate_topology_actuation_realization_status it X Q D obs)) c =
     word_of_nat (length (filter (\<lambda>z. zs_state z = c)
       (zt_actions (evaluate_topology_actuation_realization_status it X Q D obs)))) \<and>
   adapter_counter (vt_summary (evaluate_topology_actuation_adapter_status it L X Q D obs)) a =
     word_of_nat (length (filter (\<lambda>v. va_state v = a)
       (vt_actions (evaluate_topology_actuation_adapter_status it L X Q D obs)))) \<and>
   execution_counter (xt_summary (evaluate_topology_actuation_execution_status it X Q D obs)) e =
     word_of_nat (length (filter (\<lambda>x. xs_state x = e)
       (xt_actions (evaluate_topology_actuation_execution_status it X Q D obs)))) \<and>
   request_counter (qt_summary (evaluate_topology_actuation_request_status it Q D obs)) r =
     word_of_nat (length (filter (\<lambda>q. qs_state q = r)
       (qt_actions (evaluate_topology_actuation_request_status it Q D obs))))"
  by (intro conjI realization_counter_eq adapter_counter_eq execution_counter_eq request_counter_eq)
    (simp_all add: realization_actions_eq adapter_actions_eq execution_actions_eq request_actions_eq
      realization_status_of_def adapter_status_of_def execution_status_of_def request_status_of_def)

lemma execution_completed:
  assumes "x \<in> set (xt_actions (evaluate_topology_actuation_execution_status it X Q D obs))"
    and "xs_state x = XssCompleted"
  shows "\<exists>d i. X = Some d \<and> revision_current X Q \<and> idx_find (execution_index_of X) (exec_key x) = Some i \<and>
    xi_state i = XasCompleted \<and> item_matches i (xs_requested_action x) (xs_requested_replica_delta x) \<and>
    idx_find (plan_index_of it D obs) (exec_key x) = None"
proof -
  obtain q where q: "x = execution_status_of (revision_current X Q)
      (idx_find (execution_index_of X) (status_key (request_status_of
        (idx_find (plan_index_of it D obs) (request_key q)) q)))
      (request_status_of (idx_find (plan_index_of it D obs) (request_key q)) q)"
    using assms(1) by (auto simp: execution_actions_eq request_actions_eq)
  then show ?thesis
    using assms(2)
    by (cases X; cases "idx_find (plan_index_of it D obs) (request_key q)")
      (auto simp: execution_status_of_def execution_state_of_def request_status_of_def request_state_of_def
        execution_index_of_def idx.find_empty
        split: option.splits if_splits TopologyActuationExecutionActionState.splits)
qed

text \<open>C34.
  An action is reported realized only on full evidence: the execution document is present and of the
  current request revision, it holds a completed item for the same pool with the same kind and delta,
  the current plan asks nothing more of that pool, and the observed counts moved as the kind demands
  relative to the counts recorded in that item. An action that only observes is never realized.\<close>

theorem realized_action_sound:
  assumes "z \<in> set (zt_actions (evaluate_topology_actuation_realization_status it X Q D obs))"
    and "zs_state z = RlsRealized"
  shows "\<exists>x q i. X = Some x \<and> Q = Some q \<and> xd_request_revision x = qd_revision q \<and>
    i \<in> set (xd_actions x) \<and> item_key i = realization_key z \<and> xi_state i = XasCompleted \<and>
    xa_action (xi_action i) = zs_requested_action z \<and>
    xa_replica_delta (xi_action i) = zs_requested_replica_delta z \<and>
    realization_key z \<notin> action_key ` set (tp_actions (plan_topology_actuation it D obs)) \<and>
    realized_by (List.find (\<lambda>p. observed_key p = realization_key z) obs) (Some i)
      (zs_requested_action z) (zs_requested_replica_delta z) \<and>
    zs_requested_action z \<noteq> TakObserveUndeclaredPool"
proof -
  obtain x where x: "x \<in> set (xt_actions (evaluate_topology_actuation_execution_status it X Q D obs))"
      "z = realization_status_of (List.find (\<lambda>p. observed_key p = exec_key x) obs)
         (idx_find (execution_index_of X) (exec_key x)) x"
    using assms(1) by (auto simp: realization_actions_eq)
  have st: "xs_state x = XssCompleted" "realized_by (List.find (\<lambda>p. observed_key p = exec_key x) obs)
      (idx_find (execution_index_of X) (exec_key x)) (xs_requested_action x) (xs_requested_replica_delta x)"
    using assms(2) x(2)
    by (auto simp: realization_status_of_def realization_state_of_def
        split: TopologyActuationExecutionStatusState.splits if_splits)
  have fields: "realization_key z = exec_key x" "zs_requested_action z = xs_requested_action x"
      "zs_requested_replica_delta z = xs_requested_replica_delta x"
    by (simp_all add: x(2) realization_status_of_def)
  obtain d i where i: "X = Some d" "revision_current X Q"
      "idx_find (execution_index_of X) (exec_key x) = Some i" "xi_state i = XasCompleted"
      "item_matches i (xs_requested_action x) (xs_requested_replica_delta x)"
      "idx_find (plan_index_of it D obs) (exec_key x) = None"
    using execution_completed [OF x(1) st(1)] by blast
  have "List.find (\<lambda>j. item_key j = exec_key x) (xd_actions d) = Some i"
    using i(1,3) by (simp add: execution_index_of_def find_index_by)
  note mem = find_Some_key [OF this]
  have unplanned: "exec_key x \<notin> action_key ` set (tp_actions (plan_topology_actuation it D obs))"
    using i(6) by (simp only: plan_index_of_def find_index_by find_None_iff_key not_False_eq_True)
  have "xs_requested_action x \<noteq> TakObserveUndeclaredPool"
    using st(2) by (auto simp: realized_by_def)
  with i mem unplanned st show ?thesis
    by (auto simp: fields revision_current_def item_matches_def)
qed

text \<open>C40. What an adapter is told about a lease is current: an action reported leased, awaiting realization or
  failed is covered by a lease document of exactly the current execution revision, holding for this
  pool a lease of the same kind and delta; and an action reported realized has no lease that
  contradicts it.\<close>

theorem adapter_lease_current:
  assumes "v \<in> set (vt_actions (evaluate_topology_actuation_adapter_status it L X Q D obs))"
    and "va_state v \<noteq> AdsStale"
  shows "case List.find (\<lambda>l. lease_key l = make_pool_key (va_world_id v) (va_shard v))
        (case L of None \<Rightarrow> [] | Some d \<Rightarrow> ld_actions d)
    of None \<Rightarrow> va_state v \<in> {AdsAvailable, AdsRealized}
     | Some l \<Rightarrow> va_state v \<noteq> AdsAvailable \<and> la_action l = va_requested_action v \<and>
         la_replica_delta l = va_requested_replica_delta v \<and>
         (\<exists>d x. L = Some d \<and> X = Some x \<and> ld_execution_revision d = xd_revision x)"
proof -
  obtain x rl where x: "v = adapter_status_of (lease_current L X)
      (idx_find (lease_index_of L) (exec_key x)) rl x"
    using assms(1) by (auto simp: adapter_actions_eq)
  have idx: "idx_find (lease_index_of L) k =
      List.find (\<lambda>l. lease_key l = k) (case L of None \<Rightarrow> [] | Some d \<Rightarrow> ld_actions d)" for k
    by (cases L) (simp_all add: lease_index_of_def find_index_by idx.find_empty)
  show ?thesis
  proof (cases "idx_find (lease_index_of L) (exec_key x)")
    case None
    then show ?thesis
      using assms(2) by (auto simp: x adapter_status_of_def adapter_state_of_def idx)
  next
    case (Some l)
    then show ?thesis
      using assms(2)
      by (auto simp: x adapter_status_of_def adapter_state_of_def idx lease_matches_def
          lease_current_def split: if_splits)
  qed
qed


section \<open>A worked evaluation\<close>

text \<open>A request to add one replica, executed and observed, with a lease on it.\<close>

definition observed_now :: "u32 \<Rightarrow> ObservedTopologyPool" where
  "observed_now n = \<lparr>op_world_id = ''w'', op_shard = ''s'', op_instances = n, op_ready_instances = n\<rparr>"

definition sample_request :: TopologyActuationRequestDocument where
  "sample_request = \<lparr>qd_request_id = ''r'', qd_revision = 7, qd_requested_at_ms = 0,
     qd_basis_topology_revision = 1, qd_actions =
       [\<lparr>qa_world_id = ''w'', qa_shard = ''s'', qa_action = TakScaleOutPool, qa_replica_delta = 1\<rparr>]\<rparr>"

definition sample_execution :: TopologyActuationExecutionDocument where
  "sample_execution = \<lparr>xd_executor_id = ''e'', xd_revision = 3, xd_updated_at_ms = 0,
     xd_request_revision = 7, xd_actions =
       [\<lparr>xi_action = \<lparr>xa_world_id = ''w'', xa_shard = ''s'', xa_action = TakScaleOutPool, xa_replica_delta = 1\<rparr>,
         xi_observed_instances_before = 1, xi_ready_instances_before = 1, xi_state = XasCompleted\<rparr>]\<rparr>"

definition sample_lease :: TopologyActuationAdapterLeaseDocument where
  "sample_lease = \<lparr>ld_adapter_id = ''a'', ld_revision = 1, ld_leased_at_ms = 0, ld_execution_revision = 3,
     ld_actions =
       [\<lparr>la_world_id = ''w'', la_shard = ''s'', la_action = TakScaleOutPool, la_replica_delta = 1\<rparr>]\<rparr>"

lemma map_singleton_mem: "map f xs = [y] \<Longrightarrow> \<exists>x. x \<in> set xs \<and> f x = y"
  by auto

lemma sample_realization:
  "map zs_state (zt_actions (evaluate_topology_actuation_realization_status id (Some sample_execution)
     (Some sample_request) (Some sample_topology) [observed_now 2])) = [RlsRealized]"
  by code_simp

lemma sample_adapter:
  "map va_state (vt_actions (evaluate_topology_actuation_adapter_status id (Some sample_lease)
     (Some sample_execution) (Some sample_request) (Some sample_topology) [observed_now 2])) = [AdsRealized]"
  by code_simp

text \<open>While the new replica is still missing from the observation the same completed execution is
  reported stale: the pool is still planned, so the request is pending, and a pending request has no
  branch for a completed execution.\<close>

lemma sample_completed_unobserved_is_stale:
  "map xs_state (xt_actions (evaluate_topology_actuation_execution_status id (Some sample_execution)
     (Some sample_request) (Some sample_topology) [observed_now 1])) = [XssStale]"
  by code_simp

theorem realized_action_sound_witness:
  "\<exists>z \<in> set (zt_actions (evaluate_topology_actuation_realization_status id (Some sample_execution)
     (Some sample_request) (Some sample_topology) [observed_now 2])).
   zs_state z = RlsRealized \<and> (\<exists>i \<in> set (xd_actions sample_execution). item_key i = realization_key z)"
proof -
  obtain z where z: "z \<in> set (zt_actions (evaluate_topology_actuation_realization_status id
      (Some sample_execution) (Some sample_request) (Some sample_topology) [observed_now 2]))"
      "zs_state z = RlsRealized"
    using map_singleton_mem [OF sample_realization] by blast
  from realized_action_sound [OF z] z show ?thesis by auto
qed

theorem adapter_lease_current_witness:
  "\<exists>v \<in> set (vt_actions (evaluate_topology_actuation_adapter_status id (Some sample_lease)
     (Some sample_execution) (Some sample_request) (Some sample_topology) [observed_now 2])).
   va_state v = AdsRealized \<and>
   (case List.find (\<lambda>l. lease_key l = make_pool_key (va_world_id v) (va_shard v)) (ld_actions sample_lease)
    of None \<Rightarrow> True | Some l \<Rightarrow> la_action l = va_requested_action v)"
proof -
  obtain v where v: "v \<in> set (vt_actions (evaluate_topology_actuation_adapter_status id (Some sample_lease)
      (Some sample_execution) (Some sample_request) (Some sample_topology) [observed_now 2]))"
      "va_state v = AdsRealized"
    using map_singleton_mem [OF sample_adapter] by blast
  then have "va_state v \<noteq> AdsStale" by simp
  from adapter_lease_current [OF v(1) this] v show ?thesis
    by (intro bexI [OF _ v(1)]) (auto split: option.splits)
qed

end
