(* ===== verification/Key_Value_Text.thy ===== *)
theory Key_Value_Text
  imports Text_Prelude
begin

text \<open>
  The line format in which control-plane documents are stored: one \<open>key=value\<close> per line, keys and
  values trimmed by \<open>std::isspace\<close>, booleans read by a case-insensitive table and numbers by
  \<open>std::strtoull\<close>. The loops of the parsers all walk the lines in the same way; \<open>for_lines\<close> is that
  walk, and the lemmas say what it finds in a text that was printed field by field.
\<close>

section \<open>Character classes and conversions\<close>

definition isspace :: "char \<Rightarrow> bool" where
  "isspace c \<longleftrightarrow> c = CHR '' '' \<or> (9 \<le> (of_char c :: nat) \<and> (of_char c :: nat) \<le> 13)"

definition isalnum :: "char \<Rightarrow> bool" where
  "isalnum c \<longleftrightarrow>
     (let n = (of_char c :: nat)
      in 48 \<le> n \<and> n \<le> 57 \<or> 65 \<le> n \<and> n \<le> 90 \<or> 97 \<le> n \<and> n \<le> 122)"

definition tolower :: "char \<Rightarrow> char" where
  "tolower c =
     (let n = (of_char c :: nat) in if 65 \<le> n \<and> n \<le> 90 then char_of (n + 32) else c)"

definition strtoull :: "string \<Rightarrow> u64" where
  "strtoull s =
     (let s = dropWhile isspace s;
          (negative, s) = (case s of [] \<Rightarrow> (False, s)
             | c # r \<Rightarrow> if c = CHR ''-'' then (True, r) else if c = CHR ''+'' then (False, r) else (False, s));
          v = digits_value 10 (takeWhile (is_digit 10) s)
      in if v > 18446744073709551615 then -1
         else if negative then - word_of_nat v else word_of_nat v)"

definition trim_ascii_copy :: "string \<Rightarrow> string" where
  "trim_ascii_copy value = trim_with isspace value"

definition parse_world_lifecycle_bool :: "string \<Rightarrow> bool" where
  "parse_world_lifecycle_bool raw =
     (let normalized = map tolower raw
      in normalized = ''1'' \<or> normalized = ''true'' \<or> normalized = ''yes'' \<or> normalized = ''on'')"

section \<open>Lines\<close>

abbreviation newline :: char where "newline \<equiv> CHR 0x0A"

function for_lines :: "('s \<Rightarrow> string \<Rightarrow> 's) \<Rightarrow> 's \<Rightarrow> string \<Rightarrow> 's" where
  "for_lines f st payload =
     (let line = takeWhile (\<lambda>c. c \<noteq> newline) payload
      in case dropWhile (\<lambda>c. c \<noteq> newline) payload of
           [] \<Rightarrow> f st line
         | _ # rest \<Rightarrow> for_lines f (f st line) rest)"
  by pat_completeness auto
termination
proof (relation "measure (\<lambda>(f, st, p). length p)", simp, goal_cases)
  case (1 f st payload line c rest)
  then have "length (c # rest) \<le> length payload" by (metis length_dropWhile_le)
  then show ?case by simp
qed

declare for_lines.simps [simp del]

lemma for_lines_foldl: "for_lines f st payload = foldl f st (split_at newline payload)"
proof (induction f st payload rule: for_lines.induct)
  case (1 f st payload)
  show ?case
  proof (cases "dropWhile (\<lambda>c. c \<noteq> newline) payload")
    case Nil
    show ?thesis
      by (simp only: for_lines.simps [of f st payload] split_at_break [of newline payload] Nil Let_def
          list.case foldl.simps)
  next
    case (Cons c rest)
    show ?thesis
      by (simp only: for_lines.simps [of f st payload] split_at_break [of newline payload] Cons Let_def
          list.case foldl.simps 1 [OF refl Cons])
  qed
qed

definition key_value :: "string \<Rightarrow> (string \<times> string) option" where
  "key_value line =
     (if line = [] then None
      else (case dropWhile (\<lambda>c. c \<noteq> CHR ''='') line of
              [] \<Rightarrow> None
            | _ # value \<Rightarrow>
                Some (trim_ascii_copy (takeWhile (\<lambda>c. c \<noteq> CHR ''='') line), trim_ascii_copy value)))"

text \<open>The printed form of a list of fields, and the values that survive it.\<close>

definition print_field :: "string \<Rightarrow> string \<Rightarrow> string" where
  "print_field key value = key @ ''='' @ value @ [newline]"

definition clean_value :: "string \<Rightarrow> bool" where
  "clean_value v \<longleftrightarrow> newline \<notin> set v \<and> trim_with isspace v = v"

definition clean_key :: "string \<Rightarrow> bool" where
  "clean_key k \<longleftrightarrow> clean_value k \<and> CHR ''='' \<notin> set k"

lemma split_at_append_sep:
  "sep \<notin> set l \<Longrightarrow> split_at sep (l @ sep # rest) = l # split_at sep rest"
  by (induction l) auto

lemma split_at_no_sep: "t \<in> set (split_at sep s) \<Longrightarrow> sep \<notin> set t"
proof (induction s arbitrary: t)
  case (Cons c s)
  then show ?case by (cases "split_at sep s") (auto split: if_splits)
qed simp

lemma clean_empty [simp]: "clean_value []"
  by (simp add: clean_value_def trim_with_def)

lemma set_trim_with: "set (trim_with sp s) \<subseteq> set s"
proof
  fix x assume "x \<in> set (trim_with sp s)"
  then have "x \<in> set (dropWhile sp s)"
    using set_dropWhileD [of x sp "rev (dropWhile sp s)"] by (simp add: trim_with_def)
  then show "x \<in> set s" by (rule set_dropWhileD)
qed

lemma key_value_clean:
  assumes "key_value line = Some (k, v)" and "newline \<notin> set line"
  shows "clean_value v"
proof -
  obtain c r where r: "dropWhile (\<lambda>c. c \<noteq> CHR ''='') line = c # r" "v = trim_with isspace r"
    using assms(1) by (auto simp: key_value_def trim_ascii_copy_def split: if_splits list.splits)
  have "set r \<subseteq> set line"
    using r(1) by (metis set_dropWhileD set_subset_Cons subsetI subset_trans)
  then show ?thesis
    using set_trim_with [of isspace r] assms(2) by (auto simp: r(2) clean_value_def)
qed

lemma key_value_print:
  assumes "clean_key k" and "clean_value v"
  shows "key_value (k @ CHR ''='' # v) = Some (k, v)"
proof -
  have "takeWhile (\<lambda>c. c \<noteq> CHR ''='') (k @ CHR ''='' # v) = k"
    and "dropWhile (\<lambda>c. c \<noteq> CHR ''='') (k @ CHR ''='' # v) = CHR ''='' # v"
    using assms(1) by (auto simp: clean_key_def takeWhile_append dropWhile_append)
  then show ?thesis
    using assms by (simp add: key_value_def trim_ascii_copy_def clean_key_def clean_value_def)
qed

section \<open>Documents\<close>

text \<open>
  A document parser: a state, a step for one recognised field, and lines without a separator ignored.
  What the parser stores under a key is always a clean value, and a printed list of clean fields is
  read back field by field.
\<close>

definition line_step :: "('s \<Rightarrow> string \<Rightarrow> string \<Rightarrow> 's) \<Rightarrow> 's \<Rightarrow> string \<Rightarrow> 's" where
  "line_step assign st line =
     (case key_value line of None \<Rightarrow> st | Some (key, value) \<Rightarrow> assign st key value)"

locale field_document =
  fixes assign :: "'s \<Rightarrow> string \<Rightarrow> string \<Rightarrow> 's" and inv :: "'s \<Rightarrow> bool"
  assumes assign_inv: "inv st \<Longrightarrow> clean_value v \<Longrightarrow> inv (assign st k v)"
begin

lemma line_step_inv: "inv st \<Longrightarrow> newline \<notin> set line \<Longrightarrow> inv (line_step assign st line)"
  by (auto simp: line_step_def assign_inv key_value_clean split: option.splits)

lemma for_lines_inv:
  assumes "inv st"
  shows "inv (for_lines (line_step assign) st payload)"
proof -
  have "inv (foldl (line_step assign) st ls)" if "\<forall>l \<in> set ls. newline \<notin> set l" "inv st" for ls st
    using that by (induction ls arbitrary: st) (simp_all add: line_step_inv)
  then show ?thesis
    using assms split_at_no_sep by (simp add: for_lines_foldl)
qed

end

lemma for_lines_field:
  assumes "clean_key k" and "newline \<notin> set v"
  shows "for_lines (line_step assign) st (print_field k v @ rest) =
    for_lines (line_step assign) (line_step assign st (k @ CHR ''='' # v)) rest"
proof -
  have "newline \<notin> set (k @ CHR ''='' # v)"
    using assms by (simp add: clean_key_def clean_value_def)
  from split_at_append_sep [OF this] show ?thesis
    by (simp add: for_lines_foldl print_field_def)
qed

lemma for_lines_clean_field [simp]:
  assumes "clean_key k" and "clean_value v"
  shows "for_lines (line_step assign) st (print_field k v @ rest) =
    for_lines (line_step assign) (assign st k v) rest"
  using assms by (simp add: for_lines_field clean_value_def key_value_print line_step_def)

lemma for_lines_end [simp]: "for_lines (line_step assign) st [] = st"
  by (simp add: for_lines.simps line_step_def key_value_def)

lemma digit_not_space: "is_digit 10 c \<Longrightarrow> \<not> isspace c"
  by (auto simp: is_digit_def digit_value_def isspace_def Let_def split: if_splits)

lemma clean_to_string [simp]: "clean_value (to_string n)"
proof -
  have no_space: "\<not> isspace c" if "c \<in> set (to_string n)" for c
    using that to_string_digits digit_not_space by blast
  have "newline \<notin> set (to_string n)"
    using no_space [of newline] by (auto simp: isspace_def)
  moreover have "trim_with isspace (to_string n) = to_string n"
    using no_space by (intro trim_with_id) (simp add: hd_in_set last_in_set)
  ultimately show ?thesis by (simp add: clean_value_def)
qed

lemma strtoull_to_string [simp]: "n < 2 ^ 64 \<Longrightarrow> strtoull (to_string n) = word_of_nat n"
proof -
  assume n: "n < 2 ^ 64"
  obtain c r where cr: "to_string n = c # r" by (cases "to_string n") auto
  have "is_digit 10 c" using to_string_digits [of c n] by (simp add: cr)
  then have c: "\<not> isspace c" "c \<noteq> CHR ''-''" "c \<noteq> CHR ''+''"
    using digit_not_space by (auto simp: is_digit_def digit_value_def Let_def)
  have all: "takeWhile (is_digit 10) (to_string n) = to_string n"
    using to_string_digits by (simp add: takeWhile_eq_all_conv)
  have drop: "dropWhile isspace (to_string n) = to_string n" using c by (simp add: cr)
  have "strtoull (to_string n) =
      (let v = digits_value 10 (takeWhile (is_digit 10) (to_string n))
       in if v > 18446744073709551615 then -1 else word_of_nat v)"
    unfolding strtoull_def Let_def drop using c by (simp add: cr)
  then show ?thesis using n by (simp only: all digits_value_to_string Let_def) simp
qed

lemma parse_world_lifecycle_bool_digits [simp]: "parse_world_lifecycle_bool ''1''" "\<not> parse_world_lifecycle_bool ''0''"
  by (simp_all add: parse_world_lifecycle_bool_def tolower_def Let_def)

end
