(* ===== verification/World_Lifecycle.thy ===== *)
theory World_Lifecycle
  imports Key_Value_Text Keyed_Index
begin

text \<open>
  The life of a world on the control plane: the stored drain policy
  (\<open>core/include/server/core/state/world_lifecycle_policy.hpp\<close>), the migration envelope and its
  readiness (\<open>worlds/migration.hpp\<close>), owner transfer (\<open>worlds/world_transfer.hpp\<close>) and the drain with
  its orchestration (\<open>worlds/world_drain.hpp\<close>). The two stored documents round-trip exactly for the
  values the line format can hold, and the orchestration allows the policy to be cleared only when
  nothing is left to wait for.
\<close>

section \<open>The lifecycle policy\<close>

record WorldLifecyclePolicy =
  wp_draining :: bool
  wp_replacement_owner_instance_id :: string

definition new_lifecycle_policy :: WorldLifecyclePolicy where
  "new_lifecycle_policy = \<lparr>wp_draining = False, wp_replacement_owner_instance_id = []\<rparr>"

definition reassignment_declared :: "WorldLifecyclePolicy \<Rightarrow> bool" where
  "reassignment_declared p \<longleftrightarrow> wp_replacement_owner_instance_id p \<noteq> []"

definition policy_empty :: "WorldLifecyclePolicy \<Rightarrow> bool" where
  "policy_empty p \<longleftrightarrow> \<not> wp_draining p \<and> wp_replacement_owner_instance_id p = []"

definition assign_policy :: "WorldLifecyclePolicy \<times> bool \<Rightarrow> string \<Rightarrow> string \<Rightarrow> WorldLifecyclePolicy \<times> bool" where
  "assign_policy st key value =
     (let (policy, recognized) = st
      in if key = ''draining'' then
           (policy\<lparr>wp_draining := parse_world_lifecycle_bool value\<rparr>, True)
         else if key = ''replacement_owner_instance_id'' then
           (policy\<lparr>wp_replacement_owner_instance_id := value\<rparr>, True)
         else (policy, recognized))"

definition parse_world_lifecycle_policy :: "string \<Rightarrow> WorldLifecyclePolicy option" where
  "parse_world_lifecycle_policy payload =
     (if payload = [] then None
      else (let (policy, recognized) =
              for_lines (line_step assign_policy) (new_lifecycle_policy, False) payload
            in if \<not> recognized then None else Some policy))"

definition serialize_world_lifecycle_policy :: "WorldLifecyclePolicy \<Rightarrow> string" where
  "serialize_world_lifecycle_policy policy =
     print_field ''draining'' (if wp_draining policy then ''1'' else ''0'') @
     print_field ''replacement_owner_instance_id'' (wp_replacement_owner_instance_id policy)"

section \<open>Migration\<close>

record WorldMigrationEnvelope =
  we_target_world_id :: string
  we_target_owner_instance_id :: string
  we_preserve_room :: bool
  we_payload_kind :: string
  we_payload_ref :: string
  we_updated_at_ms :: u64

definition new_migration_envelope :: WorldMigrationEnvelope where
  "new_migration_envelope =
     \<lparr>we_target_world_id = [], we_target_owner_instance_id = [], we_preserve_room = False,
      we_payload_kind = [], we_payload_ref = [], we_updated_at_ms = 0\<rparr>"

record ObservedWorldMigrationInstance =
  wmi_instance_id :: string
  wmi_ready :: bool

record ObservedWorldMigrationWorld =
  wmw_world_id :: string
  wmw_current_owner_instance_id :: string
  wmw_draining :: bool
  wmw_instances :: "ObservedWorldMigrationInstance list"

datatype WorldMigrationPhase =
    WmpIdle | WmpTargetWorldMissing | WmpTargetOwnerMissing | WmpTargetOwnerNotReady
  | WmpAwaitingSourceDrain | WmpReadyToResume

fun world_migration_phase_name :: "WorldMigrationPhase \<Rightarrow> string" where
  "world_migration_phase_name WmpIdle = ''idle''"
| "world_migration_phase_name WmpTargetWorldMissing = ''target_world_missing''"
| "world_migration_phase_name WmpTargetOwnerMissing = ''target_owner_missing''"
| "world_migration_phase_name WmpTargetOwnerNotReady = ''target_owner_not_ready''"
| "world_migration_phase_name WmpAwaitingSourceDrain = ''awaiting_source_drain''"
| "world_migration_phase_name WmpReadyToResume = ''ready_to_resume''"

record WorldMigrationSummary =
  wms_envelope_present :: bool
  wms_source_draining :: bool
  wms_target_world_present :: bool
  wms_target_owner_present :: bool
  wms_target_owner_ready :: bool
  wms_target_owner_matches_target_world_owner :: bool
  wms_preserve_room :: bool

record WorldMigrationStatus =
  wmt_source_world_id :: string
  wmt_target_world_id :: string
  wmt_target_owner_instance_id :: string
  wmt_payload_kind :: string
  wmt_payload_ref :: string
  wmt_phase :: WorldMigrationPhase
  wmt_summary :: WorldMigrationSummary

definition parse_migration_bool :: "string \<Rightarrow> bool" where
  "parse_migration_bool raw =
     (let normalized = map tolower raw
      in normalized = ''1'' \<or> normalized = ''true'' \<or> normalized = ''yes'' \<or> normalized = ''on'')"

definition assign_envelope ::
  "WorldMigrationEnvelope \<times> bool \<Rightarrow> string \<Rightarrow> string \<Rightarrow> WorldMigrationEnvelope \<times> bool"
where
  "assign_envelope st key value =
     (let (envelope, recognized) = st
      in if key = ''target_world_id'' then (envelope\<lparr>we_target_world_id := value\<rparr>, True)
         else if key = ''target_owner_instance_id'' then
           (envelope\<lparr>we_target_owner_instance_id := value\<rparr>, True)
         else if key = ''preserve_room'' then
           (envelope\<lparr>we_preserve_room := parse_migration_bool value\<rparr>, True)
         else if key = ''payload_kind'' then (envelope\<lparr>we_payload_kind := value\<rparr>, True)
         else if key = ''payload_ref'' then (envelope\<lparr>we_payload_ref := value\<rparr>, True)
         else if key = ''updated_at_ms'' then
           (if value \<noteq> [] then envelope\<lparr>we_updated_at_ms := strtoull value\<rparr> else envelope, True)
         else (envelope, recognized))"

definition parse_world_migration_envelope :: "string \<Rightarrow> WorldMigrationEnvelope option" where
  "parse_world_migration_envelope payload =
     (if payload = [] then None
      else (let (envelope, recognized) =
              for_lines (line_step assign_envelope) (new_migration_envelope, False) payload
            in if \<not> recognized \<or> we_target_world_id envelope = [] \<or>
                  we_target_owner_instance_id envelope = [] then None
               else Some envelope))"

definition serialize_world_migration_envelope :: "WorldMigrationEnvelope \<Rightarrow> string" where
  "serialize_world_migration_envelope envelope =
     print_field ''target_world_id'' (we_target_world_id envelope) @
     print_field ''target_owner_instance_id'' (we_target_owner_instance_id envelope) @
     print_field ''preserve_room'' (if we_preserve_room envelope then ''1'' else ''0'') @
     print_field ''payload_kind'' (we_payload_kind envelope) @
     print_field ''payload_ref'' (we_payload_ref envelope) @
     print_field ''updated_at_ms'' (to_string (unat (we_updated_at_ms envelope)))"

definition evaluate_world_migration ::
  "ObservedWorldMigrationWorld \<Rightarrow> WorldMigrationEnvelope option \<Rightarrow> ObservedWorldMigrationWorld option \<Rightarrow>
   WorldMigrationStatus"
where
  "evaluate_world_migration source_world envelope target_world =
     (let s = \<lparr>wms_envelope_present = False, wms_source_draining = wmw_draining source_world,
            wms_target_world_present = False, wms_target_owner_present = False,
            wms_target_owner_ready = False, wms_target_owner_matches_target_world_owner = False,
            wms_preserve_room = False\<rparr>;
          out = \<lparr>wmt_source_world_id = wmw_world_id source_world, wmt_target_world_id = [],
            wmt_target_owner_instance_id = [], wmt_payload_kind = [], wmt_payload_ref = [],
            wmt_phase = WmpIdle, wmt_summary = s\<rparr>
      in case envelope of
           None \<Rightarrow> out\<lparr>wmt_phase := WmpIdle\<rparr>
         | Some e \<Rightarrow>
             (let s = s\<lparr>wms_envelope_present := True, wms_preserve_room := we_preserve_room e\<rparr>;
                  out = out\<lparr>wmt_target_world_id := we_target_world_id e,
                    wmt_target_owner_instance_id := we_target_owner_instance_id e,
                    wmt_payload_kind := we_payload_kind e, wmt_payload_ref := we_payload_ref e,
                    wmt_summary := s\<rparr>
              in case target_world of
                   None \<Rightarrow> out\<lparr>wmt_phase := WmpTargetWorldMissing\<rparr>
                 | Some w \<Rightarrow>
                     if wmw_world_id w = [] then out\<lparr>wmt_phase := WmpTargetWorldMissing\<rparr>
                     else
                       (let s = s\<lparr>wms_target_world_present := True,
                              wms_target_owner_matches_target_world_owner :=
                                wmw_current_owner_instance_id w \<noteq> [] \<and>
                                wmw_current_owner_instance_id w = we_target_owner_instance_id e\<rparr>;
                            s = (case List.find (\<lambda>i. wmi_instance_id i = we_target_owner_instance_id e)
                                   (wmw_instances w) of
                                   None \<Rightarrow> s
                                 | Some i \<Rightarrow> s\<lparr>wms_target_owner_present := True,
                                     wms_target_owner_ready := wmi_ready i\<rparr>);
                            phase =
                              (if \<not> wms_target_owner_present s then WmpTargetOwnerMissing
                               else if \<not> wms_target_owner_ready s then WmpTargetOwnerNotReady
                               else if \<not> wmw_draining source_world then WmpAwaitingSourceDrain
                               else WmpReadyToResume)
                        in out\<lparr>wmt_summary := s, wmt_phase := phase\<rparr>)))"

section \<open>Owner transfer\<close>

record ObservedWorldTransferInstance =
  wti_instance_id :: string
  wti_ready :: bool

record ObservedWorldTransferState =
  wto_world_id :: string
  wto_owner_instance_id :: string
  wto_draining :: bool
  wto_replacement_owner_instance_id :: string
  wto_instances :: "ObservedWorldTransferInstance list"

datatype WorldTransferPhase =
    WtpIdle | WtpTargetMissing | WtpTargetNotReady | WtpOwnerMissing | WtpAwaitingOwnerHandoff
  | WtpOwnerHandoffCommitted

fun world_transfer_phase_name :: "WorldTransferPhase \<Rightarrow> string" where
  "world_transfer_phase_name WtpIdle = ''idle''"
| "world_transfer_phase_name WtpTargetMissing = ''target_missing''"
| "world_transfer_phase_name WtpTargetNotReady = ''target_not_ready''"
| "world_transfer_phase_name WtpOwnerMissing = ''owner_missing''"
| "world_transfer_phase_name WtpAwaitingOwnerHandoff = ''awaiting_owner_handoff''"
| "world_transfer_phase_name WtpOwnerHandoffCommitted = ''owner_handoff_committed''"

record WorldTransferSummary =
  wts_transfer_declared :: bool
  wts_draining :: bool
  wts_owner_present :: bool
  wts_target_present :: bool
  wts_target_ready :: bool
  wts_owner_matches_target :: bool
  wts_instances_total :: u32
  wts_ready_instances :: u32

record WorldTransferStatus =
  wtt_world_id :: string
  wtt_owner_instance_id :: string
  wtt_target_owner_instance_id :: string
  wtt_phase :: WorldTransferPhase
  wtt_summary :: WorldTransferSummary

definition transfer_instance ::
  "string \<Rightarrow> WorldTransferSummary \<Rightarrow> ObservedWorldTransferInstance \<Rightarrow> WorldTransferSummary"
where
  "transfer_instance replacement s i =
     (let s = (if wti_ready i then s\<lparr>wts_ready_instances := wts_ready_instances s + 1\<rparr> else s)
      in if wti_instance_id i = replacement
         then s\<lparr>wts_target_present := True, wts_target_ready := wti_ready i\<rparr> else s)"

definition evaluate_world_transfer :: "ObservedWorldTransferState \<Rightarrow> WorldTransferStatus" where
  "evaluate_world_transfer state =
     (let s = \<lparr>wts_transfer_declared = wto_draining state \<and> wto_replacement_owner_instance_id state \<noteq> [],
            wts_draining = wto_draining state, wts_owner_present = wto_owner_instance_id state \<noteq> [],
            wts_target_present = False, wts_target_ready = False, wts_owner_matches_target = False,
            wts_instances_total = word_of_nat (length (wto_instances state)), wts_ready_instances = 0\<rparr>;
          s = foldl (transfer_instance (wto_replacement_owner_instance_id state)) s (wto_instances state);
          s = s\<lparr>wts_owner_matches_target := wts_owner_present s \<and>
                  wto_replacement_owner_instance_id state \<noteq> [] \<and>
                  wto_owner_instance_id state = wto_replacement_owner_instance_id state\<rparr>;
          phase =
            (if \<not> wts_transfer_declared s then WtpIdle
             else if \<not> wts_target_present s then WtpTargetMissing
             else if \<not> wts_target_ready s then WtpTargetNotReady
             else if \<not> wts_owner_present s then WtpOwnerMissing
             else if wts_owner_matches_target s then WtpOwnerHandoffCommitted
             else WtpAwaitingOwnerHandoff)
      in \<lparr>wtt_world_id = wto_world_id state, wtt_owner_instance_id = wto_owner_instance_id state,
          wtt_target_owner_instance_id = wto_replacement_owner_instance_id state,
          wtt_phase = phase, wtt_summary = s\<rparr>)"

section \<open>Drain\<close>

record ObservedWorldDrainInstance =
  wdi_instance_id :: string
  wdi_ready :: bool
  wdi_active_sessions :: u32

record ObservedWorldDrainState =
  wdo_world_id :: string
  wdo_owner_instance_id :: string
  wdo_draining :: bool
  wdo_replacement_owner_instance_id :: string
  wdo_instances :: "ObservedWorldDrainInstance list"

datatype WorldDrainPhase =
    WdpIdle | WdpReplacementTargetMissing | WdpReplacementTargetNotReady | WdpDrainingSessions | WdpDrained

fun world_drain_phase_name :: "WorldDrainPhase \<Rightarrow> string" where
  "world_drain_phase_name WdpIdle = ''idle''"
| "world_drain_phase_name WdpReplacementTargetMissing = ''replacement_target_missing''"
| "world_drain_phase_name WdpReplacementTargetNotReady = ''replacement_target_not_ready''"
| "world_drain_phase_name WdpDrainingSessions = ''draining_sessions''"
| "world_drain_phase_name WdpDrained = ''drained''"

record WorldDrainSummary =
  wds_drain_declared :: bool
  wds_replacement_declared :: bool
  wds_owner_present :: bool
  wds_replacement_present :: bool
  wds_replacement_ready :: bool
  wds_instances_total :: u32
  wds_ready_instances :: u32
  wds_active_sessions_total :: u32
  wds_owner_active_sessions :: u32
  wds_replacement_active_sessions :: u32

record WorldDrainStatus =
  wdt_world_id :: string
  wdt_owner_instance_id :: string
  wdt_replacement_owner_instance_id :: string
  wdt_phase :: WorldDrainPhase
  wdt_summary :: WorldDrainSummary

datatype WorldDrainOrchestrationPhase =
    WopIdle | WopBlockedByReplacementTarget | WopDraining | WopAwaitingOwnerTransfer
  | WopAwaitingMigration | WopReadyToClear

fun world_drain_orchestration_phase_name :: "WorldDrainOrchestrationPhase \<Rightarrow> string" where
  "world_drain_orchestration_phase_name WopIdle = ''idle''"
| "world_drain_orchestration_phase_name WopBlockedByReplacementTarget = ''blocked_by_replacement_target''"
| "world_drain_orchestration_phase_name WopDraining = ''draining''"
| "world_drain_orchestration_phase_name WopAwaitingOwnerTransfer = ''awaiting_owner_transfer''"
| "world_drain_orchestration_phase_name WopAwaitingMigration = ''awaiting_migration''"
| "world_drain_orchestration_phase_name WopReadyToClear = ''ready_to_clear''"

datatype WorldDrainNextAction =
    WnaNone | WnaWaitForDrain | WnaStabilizeReplacementTarget | WnaCommitOwnerTransfer
  | WnaAwaitMigration | WnaClearPolicy

fun world_drain_next_action_name :: "WorldDrainNextAction \<Rightarrow> string" where
  "world_drain_next_action_name WnaNone = ''none''"
| "world_drain_next_action_name WnaWaitForDrain = ''wait_for_drain''"
| "world_drain_next_action_name WnaStabilizeReplacementTarget = ''stabilize_replacement_target''"
| "world_drain_next_action_name WnaCommitOwnerTransfer = ''commit_owner_transfer''"
| "world_drain_next_action_name WnaAwaitMigration = ''await_migration''"
| "world_drain_next_action_name WnaClearPolicy = ''clear_policy''"

record WorldDrainOrchestrationSummary =
  wos_drain_declared :: bool
  wos_drained :: bool
  wos_transfer_declared :: bool
  wos_transfer_committed :: bool
  wos_migration_declared :: bool
  wos_migration_ready :: bool
  wos_clear_allowed :: bool

record WorldDrainOrchestrationStatus =
  wot_world_id :: string
  wot_drain_phase :: WorldDrainPhase
  wot_phase :: WorldDrainOrchestrationPhase
  wot_next_action :: WorldDrainNextAction
  wot_target_owner_instance_id :: string
  wot_target_world_id :: string
  wot_summary :: WorldDrainOrchestrationSummary

definition drain_instance ::
  "string \<Rightarrow> string \<Rightarrow> WorldDrainSummary \<Rightarrow> ObservedWorldDrainInstance \<Rightarrow> WorldDrainSummary"
where
  "drain_instance owner replacement s i =
     (let s = s\<lparr>wds_active_sessions_total := wds_active_sessions_total s + wdi_active_sessions i\<rparr>;
          s = (if wdi_ready i then s\<lparr>wds_ready_instances := wds_ready_instances s + 1\<rparr> else s);
          s = (if owner \<noteq> [] \<and> wdi_instance_id i = owner
               then s\<lparr>wds_owner_active_sessions := wdi_active_sessions i\<rparr> else s)
      in if replacement \<noteq> [] \<and> wdi_instance_id i = replacement
         then s\<lparr>wds_replacement_present := True, wds_replacement_ready := wdi_ready i,
             wds_replacement_active_sessions := wdi_active_sessions i\<rparr>
         else s)"

definition evaluate_world_drain :: "ObservedWorldDrainState \<Rightarrow> WorldDrainStatus" where
  "evaluate_world_drain state =
     (let s = \<lparr>wds_drain_declared = wdo_draining state,
            wds_replacement_declared = wdo_replacement_owner_instance_id state \<noteq> [],
            wds_owner_present = wdo_owner_instance_id state \<noteq> [],
            wds_replacement_present = False, wds_replacement_ready = False,
            wds_instances_total = word_of_nat (length (wdo_instances state)), wds_ready_instances = 0,
            wds_active_sessions_total = 0, wds_owner_active_sessions = 0,
            wds_replacement_active_sessions = 0\<rparr>;
          s = foldl (drain_instance (wdo_owner_instance_id state) (wdo_replacement_owner_instance_id state))
            s (wdo_instances state);
          phase =
            (if \<not> wdo_draining state then WdpIdle
             else if wds_replacement_declared s \<and> \<not> wds_replacement_present s then WdpReplacementTargetMissing
             else if wds_replacement_declared s \<and> \<not> wds_replacement_ready s then WdpReplacementTargetNotReady
             else if wds_active_sessions_total s > 0 then WdpDrainingSessions
             else WdpDrained)
      in \<lparr>wdt_world_id = wdo_world_id state, wdt_owner_instance_id = wdo_owner_instance_id state,
          wdt_replacement_owner_instance_id = wdo_replacement_owner_instance_id state,
          wdt_phase = phase, wdt_summary = s\<rparr>)"

definition evaluate_world_drain_orchestration ::
  "WorldDrainStatus \<Rightarrow> WorldTransferStatus option \<Rightarrow> WorldMigrationStatus option \<Rightarrow>
   WorldDrainOrchestrationStatus"
where
  "evaluate_world_drain_orchestration drain transfer migration =
     (let s = \<lparr>wos_drain_declared = wds_drain_declared (wdt_summary drain),
            wos_drained = wdt_phase drain = WdpDrained, wos_transfer_declared = False,
            wos_transfer_committed = False, wos_migration_declared = False, wos_migration_ready = False,
            wos_clear_allowed = False\<rparr>;
          out = \<lparr>wot_world_id = wdt_world_id drain, wot_drain_phase = wdt_phase drain, wot_phase = WopIdle,
            wot_next_action = WnaNone, wot_target_owner_instance_id = [], wot_target_world_id = [],
            wot_summary = s\<rparr>
      in if \<not> wds_drain_declared (wdt_summary drain) \<or> wdt_phase drain = WdpIdle then
           out\<lparr>wot_phase := WopIdle, wot_next_action := WnaNone\<rparr>
         else if wdt_phase drain = WdpReplacementTargetMissing \<or>
                 wdt_phase drain = WdpReplacementTargetNotReady then
           out\<lparr>wot_phase := WopBlockedByReplacementTarget, wot_next_action := WnaStabilizeReplacementTarget,
             wot_target_owner_instance_id := wdt_replacement_owner_instance_id drain\<rparr>
         else if wdt_phase drain = WdpDrainingSessions then
           out\<lparr>wot_phase := WopDraining, wot_next_action := WnaWaitForDrain,
             wot_target_owner_instance_id := wdt_replacement_owner_instance_id drain\<rparr>
         else
           (let out = (case transfer of None \<Rightarrow> out | Some t \<Rightarrow>
                  if wts_transfer_declared (wtt_summary t) then
                    out\<lparr>wot_summary := s\<lparr>wos_transfer_declared := True,
                          wos_transfer_committed := wtt_phase t = WtpOwnerHandoffCommitted\<rparr>,
                        wot_target_owner_instance_id := wtt_target_owner_instance_id t\<rparr>
                  else out);
                s = wot_summary out
            in if wos_transfer_declared s \<and> \<not> wos_transfer_committed s then
                 out\<lparr>wot_phase := WopAwaitingOwnerTransfer, wot_next_action := WnaCommitOwnerTransfer\<rparr>
               else
                 (let out = (case migration of None \<Rightarrow> out | Some m \<Rightarrow>
                        if wms_envelope_present (wmt_summary m) then
                          out\<lparr>wot_summary := s\<lparr>wos_migration_declared := True,
                                wos_migration_ready := wmt_phase m = WmpReadyToResume\<rparr>,
                              wot_target_world_id := wmt_target_world_id m,
                              wot_target_owner_instance_id := wmt_target_owner_instance_id m\<rparr>
                        else out);
                      s = wot_summary out
                  in if wos_migration_declared s \<and> \<not> wos_migration_ready s then
                       out\<lparr>wot_phase := WopAwaitingMigration, wot_next_action := WnaAwaitMigration\<rparr>
                     else
                       out\<lparr>wot_summary := s\<lparr>wos_clear_allowed := True\<rparr>,
                         wot_phase := WopReadyToClear, wot_next_action := WnaClearPolicy\<rparr>)))"

section \<open>The stored documents round-trip\<close>

lemma document_keys [simp]:
  "clean_key ''draining''" "clean_key ''replacement_owner_instance_id''" "clean_key ''target_world_id''"
  "clean_key ''target_owner_instance_id''" "clean_key ''preserve_room''" "clean_key ''payload_kind''"
  "clean_key ''payload_ref''" "clean_key ''updated_at_ms''" "clean_value ''1''" "clean_value ''0''"
  by (simp_all add: clean_key_def clean_value_def trim_with_def isspace_def)

lemma parse_migration_bool_eq: "parse_migration_bool = parse_world_lifecycle_bool"
  by (rule ext) (simp add: parse_migration_bool_def parse_world_lifecycle_bool_def)

interpretation policy_doc: field_document assign_policy
  "\<lambda>st. clean_value (wp_replacement_owner_instance_id (fst st))"
  by unfold_locales (auto simp: assign_policy_def Let_def split: prod.split)

abbreviation clean_envelope :: "WorldMigrationEnvelope \<Rightarrow> bool" where
  "clean_envelope e \<equiv> clean_value (we_target_world_id e) \<and> clean_value (we_target_owner_instance_id e) \<and>
     clean_value (we_payload_kind e) \<and> clean_value (we_payload_ref e)"

interpretation envelope_doc: field_document assign_envelope "\<lambda>st. clean_envelope (fst st)"
proof (unfold_locales, goal_cases)
  case (1 st v k)
  have pick: "clean_envelope (fst a) \<Longrightarrow> clean_envelope (fst b) \<Longrightarrow> clean_envelope (fst (if c then a else b))"
    for a b :: "WorldMigrationEnvelope \<times> bool" and c by simp
  show ?case
    unfolding assign_envelope_def Let_def split_beta
    by (intro pick) (simp_all add: 1)
qed

lemma print_field_nonempty [simp]: "print_field k v \<noteq> []"
  by (simp add: print_field_def)

lemmas for_lines_last_field [simp] = for_lines_clean_field [where rest = "[]", simplified]

text \<open>A lifecycle policy survives being stored exactly when its replacement owner is a value the line
  format can hold: without a line break and without surrounding white space. The drain flag always
  survives.\<close>

theorem lifecycle_policy_roundtrip:
  "parse_world_lifecycle_policy (serialize_world_lifecycle_policy p) = Some p \<longleftrightarrow>
     clean_value (wp_replacement_owner_instance_id p)"
proof
  assume "clean_value (wp_replacement_owner_instance_id p)"
  then show "parse_world_lifecycle_policy (serialize_world_lifecycle_policy p) = Some p"
    by (simp add: parse_world_lifecycle_policy_def serialize_world_lifecycle_policy_def assign_policy_def
        new_lifecycle_policy_def)
next
  assume "parse_world_lifecycle_policy (serialize_world_lifecycle_policy p) = Some p"
  then obtain b where
    "for_lines (line_step assign_policy) (new_lifecycle_policy, False) (serialize_world_lifecycle_policy p) = (p, b)"
    by (auto simp: parse_world_lifecycle_policy_def split: if_splits prod.splits)
  with policy_doc.for_lines_inv [of "(new_lifecycle_policy, False)" "serialize_world_lifecycle_policy p"]
  show "clean_value (wp_replacement_owner_instance_id p)"
    by (simp add: new_lifecycle_policy_def)
qed

text \<open>C35.
  A migration envelope survives being stored exactly when it names a target world and a target owner
  and its four texts are values the line format can hold; the time stamp survives at its full
  width.\<close>

theorem migration_envelope_roundtrip:
  "parse_world_migration_envelope (serialize_world_migration_envelope e) = Some e \<longleftrightarrow>
     we_target_world_id e \<noteq> [] \<and> we_target_owner_instance_id e \<noteq> [] \<and> clean_envelope e"
proof
  assume ok: "we_target_world_id e \<noteq> [] \<and> we_target_owner_instance_id e \<noteq> [] \<and> clean_envelope e"
  have "unat (we_updated_at_ms e) < 2 ^ 64"
    using unsigned_less [of "we_updated_at_ms e", where 'a = nat] by simp
  with ok show "parse_world_migration_envelope (serialize_world_migration_envelope e) = Some e"
    by (simp add: parse_world_migration_envelope_def serialize_world_migration_envelope_def
        assign_envelope_def new_migration_envelope_def parse_migration_bool_eq)
next
  assume parsed: "parse_world_migration_envelope (serialize_world_migration_envelope e) = Some e"
  then obtain b where
    b: "for_lines (line_step assign_envelope) (new_migration_envelope, False)
       (serialize_world_migration_envelope e) = (e, b)"
    and named: "we_target_world_id e \<noteq> []" "we_target_owner_instance_id e \<noteq> []"
    by (auto simp: parse_world_migration_envelope_def split: if_splits prod.splits)
  have "clean_envelope e"
    using envelope_doc.for_lines_inv [of "(new_migration_envelope, False)" "serialize_world_migration_envelope e"] b
    by (simp add: new_migration_envelope_def)
  with named show "we_target_world_id e \<noteq> [] \<and> we_target_owner_instance_id e \<noteq> [] \<and> clean_envelope e" by blast
qed

section \<open>When the drain policy may be cleared\<close>

lemma transfer_foldl:
  "wts_transfer_declared (foldl (transfer_instance r) s xs) = wts_transfer_declared s"
  "wts_owner_present (foldl (transfer_instance r) s xs) = wts_owner_present s"
  "wts_target_present (foldl (transfer_instance r) s xs) \<longleftrightarrow>
     wts_target_present s \<or> (\<exists>i \<in> set xs. wti_instance_id i = r)"
  "wts_target_ready (foldl (transfer_instance r) s xs) =
     (case List.find (\<lambda>i. wti_instance_id i = r) (rev xs) of None \<Rightarrow> wts_target_ready s | Some i \<Rightarrow> wti_ready i)"
  by (induction xs rule: rev_induct) (simp_all add: transfer_instance_def Let_def)

lemma drain_instance_fields:
  "wds_drain_declared (drain_instance ow r s i) = wds_drain_declared s"
  "wds_replacement_declared (drain_instance ow r s i) = wds_replacement_declared s"
  "wds_active_sessions_total (drain_instance ow r s i) = wds_active_sessions_total s + wdi_active_sessions i"
  "r \<noteq> [] \<Longrightarrow> wds_replacement_present (drain_instance ow r s i) \<longleftrightarrow> wds_replacement_present s \<or> wdi_instance_id i = r"
  "r \<noteq> [] \<Longrightarrow> wds_replacement_ready (drain_instance ow r s i) =
     (if wdi_instance_id i = r then wdi_ready i else wds_replacement_ready s)"
  by (simp_all add: drain_instance_def Let_def)

lemma drain_foldl:
  "wds_drain_declared (foldl (drain_instance ow r) s xs) = wds_drain_declared s"
  "wds_replacement_declared (foldl (drain_instance ow r) s xs) = wds_replacement_declared s"
  "wds_active_sessions_total (foldl (drain_instance ow r) s xs) =
     wds_active_sessions_total s + word_of_nat (\<Sum>i\<leftarrow>xs. unat (wdi_active_sessions i))"
  "r \<noteq> [] \<Longrightarrow> wds_replacement_present (foldl (drain_instance ow r) s xs) \<longleftrightarrow>
     wds_replacement_present s \<or> (\<exists>i \<in> set xs. wdi_instance_id i = r)"
  "r \<noteq> [] \<Longrightarrow> wds_replacement_ready (foldl (drain_instance ow r) s xs) =
     (case List.find (\<lambda>i. wdi_instance_id i = r) (rev xs) of None \<Rightarrow> wds_replacement_ready s | Some i \<Rightarrow> wdi_ready i)"
  by (induction xs rule: rev_induct) (auto simp: drain_instance_fields)

lemma transfer_committed_iff:
  "wtt_phase (evaluate_world_transfer t) = WtpOwnerHandoffCommitted \<longleftrightarrow>
     wto_draining t \<and> wto_replacement_owner_instance_id t \<noteq> [] \<and>
     wto_owner_instance_id t = wto_replacement_owner_instance_id t \<and>
     (\<exists>i. List.find (\<lambda>i. wti_instance_id i = wto_replacement_owner_instance_id t) (rev (wto_instances t)) = Some i \<and>
       wti_ready i)"
proof -
  have present: "(\<exists>i \<in> set xs. wti_instance_id i = r) \<longleftrightarrow> List.find (\<lambda>i. wti_instance_id i = r) (rev xs) \<noteq> None" for xs :: "ObservedWorldTransferInstance list" and r
    by (auto simp: find_None_iff)
  show ?thesis
    by (auto simp: evaluate_world_transfer_def Let_def transfer_foldl present split: option.splits)
qed

lemma drained_exact:
  "wdt_phase (evaluate_world_drain d) = WdpDrained \<longleftrightarrow>
     wdo_draining d \<and> 2 ^ 32 dvd (\<Sum>i\<leftarrow>wdo_instances d. unat (wdi_active_sessions i)) \<and>
     (wdo_replacement_owner_instance_id d \<noteq> [] \<longrightarrow>
       (\<exists>i. List.find (\<lambda>i. wdi_instance_id i = wdo_replacement_owner_instance_id d) (rev (wdo_instances d)) = Some i \<and>
         wdi_ready i))"
proof -
  have present: "(\<exists>i \<in> set xs. wdi_instance_id i = r) \<longleftrightarrow> List.find (\<lambda>i. wdi_instance_id i = r) (rev xs) \<noteq> None" for xs :: "ObservedWorldDrainInstance list" and r
    by (auto simp: find_None_iff)
  have "word_of_nat n = (0 :: u32) \<longleftrightarrow> 2 ^ 32 dvd n" for n by (simp add: word_of_nat_eq_0_iff)
  then show ?thesis
    by (auto simp: evaluate_world_drain_def Let_def drain_foldl present word_gt_0 split: if_splits option.splits)
qed

lemma drained_iff:
  "wdt_phase (evaluate_world_drain d) = WdpDrained \<Longrightarrow>
     wdo_draining d \<and> word_of_nat (\<Sum>i\<leftarrow>wdo_instances d. unat (wdi_active_sessions i)) = (0 :: u32)"
  by (simp add: drained_exact word_of_nat_eq_0_iff)

lemma no_active_sessions:
  assumes "word_of_nat (\<Sum>i\<leftarrow>xs. unat (wdi_active_sessions i)) = (0 :: u32)"
    and "(\<Sum>i\<leftarrow>xs. unat (wdi_active_sessions i)) < 2 ^ 32" and "i \<in> set xs"
  shows "wdi_active_sessions i = 0"
proof -
  have "(\<Sum>i\<leftarrow>xs. unat (wdi_active_sessions i)) = 0"
    using assms(1,2) by (auto simp: word_of_nat_eq_0_iff dest: dvd_imp_le)
  then have "\<forall>n \<in> set (map (\<lambda>i. unat (wdi_active_sessions i)) xs). n = 0" by (simp add: sum_list_eq_0_iff)
  then show ?thesis using assms(3) by (simp add: unat_eq_zero)
qed


lemma clear_iff:
  "wot_next_action (evaluate_world_drain_orchestration d T M) = WnaClearPolicy \<longleftrightarrow>
     wds_drain_declared (wdt_summary d) \<and> wdt_phase d = WdpDrained \<and>
     (\<forall>t. T = Some t \<longrightarrow> wts_transfer_declared (wtt_summary t) \<longrightarrow> wtt_phase t = WtpOwnerHandoffCommitted) \<and>
     (\<forall>m. M = Some m \<longrightarrow> wms_envelope_present (wmt_summary m) \<longrightarrow> wmt_phase m = WmpReadyToResume)"
  by (cases T; cases M; cases "wdt_phase d")
    (simp_all add: evaluate_world_drain_orchestration_def Let_def)

lemma clear_allowed_iff:
  "wos_clear_allowed (wot_summary (evaluate_world_drain_orchestration d T M)) \<longleftrightarrow>
     wot_next_action (evaluate_world_drain_orchestration d T M) = WnaClearPolicy"
  "wot_phase (evaluate_world_drain_orchestration d T M) = WopReadyToClear \<longleftrightarrow>
     wot_next_action (evaluate_world_drain_orchestration d T M) = WnaClearPolicy"
  by (cases T; cases M; cases "wdt_phase d";
      simp add: evaluate_world_drain_orchestration_def Let_def)+

lemma migration_ready_iff:
  "wmt_phase (evaluate_world_migration sw (Some e) tw) = WmpReadyToResume \<longleftrightarrow>
     wmw_draining sw \<and> (\<exists>w i. tw = Some w \<and> wmw_world_id w \<noteq> [] \<and>
       List.find (\<lambda>i. wmi_instance_id i = we_target_owner_instance_id e) (wmw_instances w) = Some i \<and> wmi_ready i)"
  by (auto simp: evaluate_world_migration_def Let_def split: option.splits)

lemma migration_envelope_present:
  "wms_envelope_present (wmt_summary (evaluate_world_migration sw (Some e) tw))"
  by (simp add: evaluate_world_migration_def Let_def split: option.splits)

lemma transfer_declared_iff:
  "wts_transfer_declared (wtt_summary (evaluate_world_transfer t)) \<longleftrightarrow>
     wto_draining t \<and> wto_replacement_owner_instance_id t \<noteq> []"
  by (simp add: evaluate_world_transfer_def Let_def transfer_foldl)

lemma drain_declared_iff: "wds_drain_declared (wdt_summary (evaluate_world_drain d)) \<longleftrightarrow> wdo_draining d"
  by (simp add: evaluate_world_drain_def Let_def drain_foldl)

lemma no_migration_envelope:
  "\<not> wms_envelope_present (wmt_summary (evaluate_world_migration sw None tw))"
  by (simp add: evaluate_world_migration_def Let_def)

text \<open>C36. When a drain policy may be cleared, for every observation of the world and whether or not a transfer and a
  migration are given. Clearing is the next action exactly when the drain is declared, the session counts add up
  to a multiple of \<open>2 ^ 32\<close> (zero, unless the 32-bit sum wrapped), a declared replacement is present and
  ready, a declared transfer is committed, that is the replacement owns the world and is ready, and for a migration
  with an envelope the source world is draining and the target owner is ready in the target world.\<close>

theorem clear_policy_exact:
  "wot_next_action (evaluate_world_drain_orchestration (evaluate_world_drain d) (map_option evaluate_world_transfer T)
       (map_option (\<lambda>(sw, e, tw). evaluate_world_migration sw e tw) M)) = WnaClearPolicy \<longleftrightarrow>
     wdo_draining d \<and> 2 ^ 32 dvd (\<Sum>i\<leftarrow>wdo_instances d. unat (wdi_active_sessions i)) \<and>
     (wdo_replacement_owner_instance_id d \<noteq> [] \<longrightarrow>
       (\<exists>i. List.find (\<lambda>i. wdi_instance_id i = wdo_replacement_owner_instance_id d) (rev (wdo_instances d)) = Some i \<and>
         wdi_ready i)) \<and>
     (\<forall>t. T = Some t \<and> wto_draining t \<and> wto_replacement_owner_instance_id t \<noteq> [] \<longrightarrow>
       wto_owner_instance_id t = wto_replacement_owner_instance_id t \<and>
       (\<exists>i. List.find (\<lambda>i. wti_instance_id i = wto_replacement_owner_instance_id t) (rev (wto_instances t)) = Some i \<and>
         wti_ready i)) \<and>
     (\<forall>sw e tw. M = Some (sw, Some e, tw) \<longrightarrow>
       wmw_draining sw \<and> (\<exists>w i. tw = Some w \<and> wmw_world_id w \<noteq> [] \<and>
         List.find (\<lambda>i. wmi_instance_id i = we_target_owner_instance_id e) (wmw_instances w) = Some i \<and> wmi_ready i))"
proof -
  have transfer: "(\<forall>t. map_option evaluate_world_transfer T = Some t \<longrightarrow> wts_transfer_declared (wtt_summary t) \<longrightarrow>
      wtt_phase t = WtpOwnerHandoffCommitted) \<longleftrightarrow>
    (\<forall>t. T = Some t \<and> wto_draining t \<and> wto_replacement_owner_instance_id t \<noteq> [] \<longrightarrow>
       wto_owner_instance_id t = wto_replacement_owner_instance_id t \<and>
       (\<exists>i. List.find (\<lambda>i. wti_instance_id i = wto_replacement_owner_instance_id t) (rev (wto_instances t)) = Some i \<and>
         wti_ready i))"
    by (cases T) (auto simp: transfer_declared_iff transfer_committed_iff)
  have migration: "(\<forall>m. map_option (\<lambda>(sw, e, tw). evaluate_world_migration sw e tw) M = Some m \<longrightarrow>
      wms_envelope_present (wmt_summary m) \<longrightarrow> wmt_phase m = WmpReadyToResume) \<longleftrightarrow>
    (\<forall>sw e tw. M = Some (sw, Some e, tw) \<longrightarrow> wmt_phase (evaluate_world_migration sw (Some e) tw) = WmpReadyToResume)"
  proof (cases M)
    case (Some m)
    obtain sw e tw where "m = (sw, e, tw)" by (cases m)
    then show ?thesis using Some by (cases e) (simp_all add: migration_envelope_present no_migration_envelope)
  qed simp
  show ?thesis
    unfolding clear_iff transfer migration by (simp only: drain_declared_iff drained_exact migration_ready_iff) blast
qed

theorem clear_policy_exact_witness:
  "wot_next_action (evaluate_world_drain_orchestration
     (evaluate_world_drain \<lparr>wdo_world_id = ''w'', wdo_owner_instance_id = ''b'', wdo_draining = True,
       wdo_replacement_owner_instance_id = ''b'', wdo_instances =
         [\<lparr>wdi_instance_id = ''a'', wdi_ready = True, wdi_active_sessions = 0\<rparr>,
          \<lparr>wdi_instance_id = ''b'', wdi_ready = True, wdi_active_sessions = 0\<rparr>]\<rparr>)
     (map_option evaluate_world_transfer (Some \<lparr>wto_world_id = ''w'', wto_owner_instance_id = ''b'', wto_draining = True,
       wto_replacement_owner_instance_id = ''b'', wto_instances =
         [\<lparr>wti_instance_id = ''a'', wti_ready = True\<rparr>, \<lparr>wti_instance_id = ''b'', wti_ready = True\<rparr>]\<rparr>))
     (map_option (\<lambda>(sw, e, tw). evaluate_world_migration sw e tw) None)) = WnaClearPolicy"
  by (subst clear_policy_exact) simp

text \<open>The 32-bit sum does matter: two instances with half of the range each count as drained.\<close>

lemma drained_after_wrap:
  "wdt_phase (evaluate_world_drain \<lparr>wdo_world_id = ''w'', wdo_owner_instance_id = [], wdo_draining = True,
     wdo_replacement_owner_instance_id = [], wdo_instances =
       [\<lparr>wdi_instance_id = ''a'', wdi_ready = True, wdi_active_sessions = 2147483648\<rparr>,
        \<lparr>wdi_instance_id = ''b'', wdi_ready = True, wdi_active_sessions = 2147483648\<rparr>]\<rparr>) = WdpDrained"
  by code_simp

end
