(* ===== verification/Pool_Providers.thy ===== *)
theory Pool_Providers
  imports Topology_Actuation World_Lifecycle
begin

text \<open>
  The provider vocabularies of \<open>core/include/server/core/worlds/kubernetes.hpp\<close> and
  \<open>core/include/server/core/worlds/aws.hpp\<close>: a desired pool is bound to workload, service and
  dependency names, and a leased action is read as the next step of the provider. The names are DNS
  labels whatever the world is called, a workload is retired only when the drain orchestration does
  not object, and a scale-out is complete only when pods, load balancer, dependencies and runtime
  assignments are all there.
\<close>

section \<open>Kubernetes\<close>

datatype KubernetesWorkloadKind = KwkDeployment | KwkStatefulSet

fun kubernetes_workload_kind_name :: "KubernetesWorkloadKind \<Rightarrow> string" where
  "kubernetes_workload_kind_name KwkDeployment = ''deployment''"
| "kubernetes_workload_kind_name KwkStatefulSet = ''statefulset''"

definition parse_kubernetes_workload_kind :: "string \<Rightarrow> KubernetesWorkloadKind option" where
  "parse_kubernetes_workload_kind value =
     (if value = ''deployment'' then Some KwkDeployment
      else if value = ''statefulset'' then Some KwkStatefulSet
      else None)"

record KubernetesPoolBinding =
  kb_world_id :: string
  kb_shard :: string
  kb_namespace_name :: string
  kb_workload_name :: string
  kb_workload_kind :: KubernetesWorkloadKind
  kb_target_replicas :: u32
  kb_capacity_class :: string
  kb_placement_tags :: "string list"

record KubernetesPoolObservation =
  ko_current_spec_replicas :: u32
  ko_ready_replicas :: u32
  ko_available_replicas :: u32
  ko_terminating_replicas :: u32
  ko_assigned_runtime_instances :: u32
  ko_idle_ready_runtime_instances :: u32

datatype KubernetesPoolOrchestrationPhase =
    KppIdle | KppScaleWorkload | KppAwaitReadyReplicas | KppAwaitRuntimeAssignment
  | KppAwaitReplacementTarget | KppAwaitDrain | KppAwaitOwnerTransfer | KppAwaitMigration
  | KppRetireWorkload | KppComplete | KppStale

fun kubernetes_pool_orchestration_phase_name :: "KubernetesPoolOrchestrationPhase \<Rightarrow> string" where
  "kubernetes_pool_orchestration_phase_name KppIdle = ''idle''"
| "kubernetes_pool_orchestration_phase_name KppScaleWorkload = ''scale_workload''"
| "kubernetes_pool_orchestration_phase_name KppAwaitReadyReplicas = ''await_ready_replicas''"
| "kubernetes_pool_orchestration_phase_name KppAwaitRuntimeAssignment = ''await_runtime_assignment''"
| "kubernetes_pool_orchestration_phase_name KppAwaitReplacementTarget = ''await_replacement_target''"
| "kubernetes_pool_orchestration_phase_name KppAwaitDrain = ''await_drain''"
| "kubernetes_pool_orchestration_phase_name KppAwaitOwnerTransfer = ''await_owner_transfer''"
| "kubernetes_pool_orchestration_phase_name KppAwaitMigration = ''await_migration''"
| "kubernetes_pool_orchestration_phase_name KppRetireWorkload = ''retire_workload''"
| "kubernetes_pool_orchestration_phase_name KppComplete = ''complete''"
| "kubernetes_pool_orchestration_phase_name KppStale = ''stale''"

datatype KubernetesPoolNextAction =
    KnaNone | KnaPatchWorkloadReplicas | KnaWaitForPodsReady | KnaPublishRuntimeAssignments
  | KnaStabilizeReplacementTarget | KnaWaitForDrain | KnaCommitOwnerTransfer | KnaWaitForMigration
  | KnaPatchWorkloadRetirement

fun kubernetes_pool_next_action_name :: "KubernetesPoolNextAction \<Rightarrow> string" where
  "kubernetes_pool_next_action_name KnaNone = ''none''"
| "kubernetes_pool_next_action_name KnaPatchWorkloadReplicas = ''patch_workload_replicas''"
| "kubernetes_pool_next_action_name KnaWaitForPodsReady = ''wait_for_pods_ready''"
| "kubernetes_pool_next_action_name KnaPublishRuntimeAssignments = ''publish_runtime_assignments''"
| "kubernetes_pool_next_action_name KnaStabilizeReplacementTarget = ''stabilize_replacement_target''"
| "kubernetes_pool_next_action_name KnaWaitForDrain = ''wait_for_drain''"
| "kubernetes_pool_next_action_name KnaCommitOwnerTransfer = ''commit_owner_transfer''"
| "kubernetes_pool_next_action_name KnaWaitForMigration = ''wait_for_migration''"
| "kubernetes_pool_next_action_name KnaPatchWorkloadRetirement = ''patch_workload_retirement''"

record KubernetesPoolOrchestrationSummary =
  ks_action_present :: bool
  ks_assignment_present :: bool
  ks_binding_target_reached :: bool
  ks_pods_ready_for_target :: bool
  ks_runtime_assignment_satisfied :: bool
  ks_drain_ready_to_retire :: bool
  ks_target_replicas :: u32
  ks_current_spec_replicas :: u32
  ks_ready_replicas :: u32
  ks_available_replicas :: u32
  ks_terminating_replicas :: u32
  ks_assigned_runtime_instances :: u32
  ks_idle_ready_runtime_instances :: u32
  ks_drain_orchestration_phase :: WorldDrainOrchestrationPhase

record KubernetesPoolOrchestrationStatus =
  kt_world_id :: string
  kt_shard :: string
  kt_namespace_name :: string
  kt_workload_name :: string
  kt_workload_kind :: KubernetesWorkloadKind
  kt_requested_action :: TopologyActuationActionKind
  kt_phase :: KubernetesPoolOrchestrationPhase
  kt_next_action :: KubernetesPoolNextAction
  kt_target_owner_instance_id :: string
  kt_target_world_id :: string
  kt_summary :: KubernetesPoolOrchestrationSummary

abbreviation dash :: char where "dash \<equiv> CHR ''-''"

definition name_char :: "char \<Rightarrow> char" where
  "name_char ch = (if isalnum ch then tolower ch else dash)"

fun collapse_dashes :: "bool \<Rightarrow> string \<Rightarrow> string" where
  "collapse_dashes previous_dash [] = []"
| "collapse_dashes previous_dash (ch # rest) =
     (if ch = dash then (if previous_dash then [] else [ch]) @ collapse_dashes True rest
      else ch # collapse_dashes False rest)"

definition sanitize_kubernetes_name_token :: "string \<Rightarrow> string" where
  "sanitize_kubernetes_name_token value =
     (let collapsed = collapse_dashes False (map name_char value);
          collapsed = dropWhile (\<lambda>c. c = dash) collapsed;
          collapsed = rev (dropWhile (\<lambda>c. c = dash) (rev collapsed))
      in if collapsed = [] then ''pool'' else collapsed)"

definition make_kubernetes_pool_workload_name :: "string \<Rightarrow> string \<Rightarrow> KubernetesWorkloadKind \<Rightarrow> string" where
  "make_kubernetes_pool_workload_name world_id shard workload_kind =
     (if workload_kind = KwkStatefulSet then ''world-set-'' else ''world-deploy-'') @
     sanitize_kubernetes_name_token world_id @ ''-'' @ sanitize_kubernetes_name_token shard"

definition make_kubernetes_pool_binding ::
  "DesiredTopologyPool \<Rightarrow> string \<Rightarrow> KubernetesWorkloadKind \<Rightarrow> KubernetesPoolBinding"
where
  "make_kubernetes_pool_binding pool namespace_name workload_kind =
     \<lparr>kb_world_id = dp_world_id pool, kb_shard = dp_shard pool, kb_namespace_name = namespace_name,
      kb_workload_name = make_kubernetes_pool_workload_name (dp_world_id pool) (dp_shard pool) workload_kind,
      kb_workload_kind = workload_kind, kb_target_replicas = dp_replicas pool,
      kb_capacity_class = dp_capacity_class pool, kb_placement_tags = dp_placement_tags pool\<rparr>"

definition count_topology_actuation_runtime_assignments ::
  "TopologyActuationRuntimeAssignmentDocument \<Rightarrow> string \<Rightarrow> string \<Rightarrow> TopologyActuationActionKind \<Rightarrow> u32"
where
  "count_topology_actuation_runtime_assignments document world_id shard action =
     foldl (\<lambda>count a. if ri_world_id a = world_id \<and> ri_shard a = shard \<and> ri_action a = action
                      then count + 1 else count) 0 (rd_assignments document)"

definition scale_out_step ::
  "KubernetesPoolBinding \<Rightarrow> KubernetesPoolObservation \<Rightarrow> u32 \<Rightarrow>
   KubernetesPoolOrchestrationPhase \<times> KubernetesPoolNextAction"
where
  "scale_out_step binding observation required_assignments =
     (if ko_current_spec_replicas observation < kb_target_replicas binding then
        (KppScaleWorkload, KnaPatchWorkloadReplicas)
      else if ko_ready_replicas observation < kb_target_replicas binding then
        (KppAwaitReadyReplicas, KnaWaitForPodsReady)
      else if ko_assigned_runtime_instances observation < required_assignments then
        (KppAwaitRuntimeAssignment, KnaPublishRuntimeAssignments)
      else (KppComplete, KnaNone))"

definition restore_step ::
  "KubernetesPoolBinding \<Rightarrow> KubernetesPoolObservation \<Rightarrow>
   KubernetesPoolOrchestrationPhase \<times> KubernetesPoolNextAction"
where
  "restore_step binding observation =
     (if ko_current_spec_replicas observation < kb_target_replicas binding then
        (KppScaleWorkload, KnaPatchWorkloadReplicas)
      else if ko_ready_replicas observation = 0 then (KppAwaitReadyReplicas, KnaWaitForPodsReady)
      else (KppComplete, KnaNone))"

definition scale_in_step ::
  "KubernetesPoolBinding \<Rightarrow> KubernetesPoolObservation \<Rightarrow> WorldDrainOrchestrationStatus option \<Rightarrow>
   KubernetesPoolOrchestrationPhase \<times> KubernetesPoolNextAction"
where
  "scale_in_step binding observation drain_orchestration =
     (let retire =
        (if ko_current_spec_replicas observation > kb_target_replicas binding \<or>
            ko_terminating_replicas observation > 0
         then (KppRetireWorkload, KnaPatchWorkloadRetirement)
         else (KppComplete, KnaNone))
      in case drain_orchestration of
           None \<Rightarrow> retire
         | Some o' \<Rightarrow>
             (case wot_phase o' of
                WopBlockedByReplacementTarget \<Rightarrow> (KppAwaitReplacementTarget, KnaStabilizeReplacementTarget)
              | WopDraining \<Rightarrow> (KppAwaitDrain, KnaWaitForDrain)
              | WopAwaitingOwnerTransfer \<Rightarrow> (KppAwaitOwnerTransfer, KnaCommitOwnerTransfer)
              | WopAwaitingMigration \<Rightarrow> (KppAwaitMigration, KnaWaitForMigration)
              | WopReadyToClear \<Rightarrow> retire
              | WopIdle \<Rightarrow> retire))"

definition evaluate_kubernetes_pool_orchestration ::
  "KubernetesPoolBinding \<Rightarrow> KubernetesPoolObservation \<Rightarrow> TopologyActuationAdapterLeaseAction option \<Rightarrow>
   WorldDrainOrchestrationStatus option \<Rightarrow> KubernetesPoolOrchestrationStatus"
where
  "evaluate_kubernetes_pool_orchestration binding observation lease_action drain_orchestration =
     (let s = \<lparr>ks_action_present = lease_action \<noteq> None,
            ks_assignment_present = ko_assigned_runtime_instances observation > 0,
            ks_binding_target_reached =
              ko_current_spec_replicas observation = kb_target_replicas binding,
            ks_pods_ready_for_target = ko_ready_replicas observation \<ge> kb_target_replicas binding,
            ks_runtime_assignment_satisfied = False,
            ks_drain_ready_to_retire =
              (case drain_orchestration of None \<Rightarrow> False | Some o' \<Rightarrow> wot_phase o' = WopReadyToClear),
            ks_target_replicas = kb_target_replicas binding,
            ks_current_spec_replicas = ko_current_spec_replicas observation,
            ks_ready_replicas = ko_ready_replicas observation,
            ks_available_replicas = ko_available_replicas observation,
            ks_terminating_replicas = ko_terminating_replicas observation,
            ks_assigned_runtime_instances = ko_assigned_runtime_instances observation,
            ks_idle_ready_runtime_instances = ko_idle_ready_runtime_instances observation,
            ks_drain_orchestration_phase =
              (case drain_orchestration of None \<Rightarrow> WopIdle | Some o' \<Rightarrow> wot_phase o')\<rparr>;
          out = \<lparr>kt_world_id = kb_world_id binding, kt_shard = kb_shard binding,
            kt_namespace_name = kb_namespace_name binding, kt_workload_name = kb_workload_name binding,
            kt_workload_kind = kb_workload_kind binding, kt_requested_action = TakObserveUndeclaredPool,
            kt_phase = KppIdle, kt_next_action = KnaNone,
            kt_target_owner_instance_id =
              (case drain_orchestration of None \<Rightarrow> [] | Some o' \<Rightarrow> wot_target_owner_instance_id o'),
            kt_target_world_id =
              (case drain_orchestration of None \<Rightarrow> [] | Some o' \<Rightarrow> wot_target_world_id o'),
            kt_summary = s\<rparr>
      in case lease_action of
           None \<Rightarrow> out\<lparr>kt_phase := KppIdle, kt_next_action := KnaNone\<rparr>
         | Some lease \<Rightarrow>
             (let required_assignments = positive_delta (la_replica_delta lease);
                  (satisfied, phase, action) =
                    (case la_action lease of
                       TakScaleOutPool \<Rightarrow>
                         (ko_assigned_runtime_instances observation \<ge> required_assignments,
                          scale_out_step binding observation required_assignments)
                     | TakRestorePoolReadiness \<Rightarrow> (True, restore_step binding observation)
                     | TakScaleInPool \<Rightarrow> (True, scale_in_step binding observation drain_orchestration)
                     | TakObserveUndeclaredPool \<Rightarrow> (True, KppIdle, KnaNone))
              in out\<lparr>kt_requested_action := la_action lease,
                   kt_summary := s\<lparr>ks_runtime_assignment_satisfied := satisfied\<rparr>,
                   kt_phase := phase, kt_next_action := action\<rparr>))"

section \<open>AWS\<close>

datatype AwsLoadBalancerScheme = AlsInternal | AlsInternetFacing

fun aws_load_balancer_scheme_name :: "AwsLoadBalancerScheme \<Rightarrow> string" where
  "aws_load_balancer_scheme_name AlsInternal = ''internal''"
| "aws_load_balancer_scheme_name AlsInternetFacing = ''internet-facing''"

definition parse_aws_load_balancer_scheme :: "string \<Rightarrow> AwsLoadBalancerScheme option" where
  "parse_aws_load_balancer_scheme value =
     (if value = ''internal'' then Some AlsInternal
      else if value = ''internet-facing'' then Some AlsInternetFacing
      else None)"

datatype AwsLoadBalancerType = AltNetwork | AltApplication

fun aws_load_balancer_type_name :: "AwsLoadBalancerType \<Rightarrow> string" where
  "aws_load_balancer_type_name AltNetwork = ''network''"
| "aws_load_balancer_type_name AltApplication = ''application''"

definition parse_aws_load_balancer_type :: "string \<Rightarrow> AwsLoadBalancerType option" where
  "parse_aws_load_balancer_type value =
     (if value = ''network'' \<or> value = ''nlb'' then Some AltNetwork
      else if value = ''application'' \<or> value = ''alb'' then Some AltApplication
      else None)"

datatype AwsLoadBalancerTargetKind = AtkIp | AtkInstance

fun aws_load_balancer_target_kind_name :: "AwsLoadBalancerTargetKind \<Rightarrow> string" where
  "aws_load_balancer_target_kind_name AtkIp = ''ip''"
| "aws_load_balancer_target_kind_name AtkInstance = ''instance''"

definition parse_aws_load_balancer_target_kind :: "string \<Rightarrow> AwsLoadBalancerTargetKind option" where
  "parse_aws_load_balancer_target_kind value =
     (if value = ''ip'' then Some AtkIp
      else if value = ''instance'' then Some AtkInstance
      else None)"

record AwsPlacementTarget =
  ap_region :: string
  ap_availability_zones :: "string list"
  ap_subnet_ids :: "string list"

record AwsPoolIdentity =
  ai_cluster_name :: string
  ai_namespace_name :: string
  ai_workload_name :: string
  ai_service_name :: string
  ai_iam_role_name :: string

record AwsLoadBalancerAttachment =
  al_kubernetes_service_name :: string
  al_load_balancer_name :: string
  al_target_group_name :: string
  al_type :: AwsLoadBalancerType
  al_scheme :: AwsLoadBalancerScheme
  al_target_kind :: AwsLoadBalancerTargetKind
  al_listener_port :: u16
  al_preserve_client_ip :: bool

record AwsManagedDependencyConventions =
  ac_redis_replication_group_id :: string
  ac_redis_subnet_group_name :: string
  ac_postgres_cluster_id :: string
  ac_postgres_subnet_group_name :: string
  ac_postgres_secret_name :: string

record AwsAdapterDefaults =
  ad_cluster_name :: string
  ad_placement :: AwsPlacementTarget
  ad_load_balancer_type :: AwsLoadBalancerType
  ad_load_balancer_scheme :: AwsLoadBalancerScheme
  ad_load_balancer_target_kind :: AwsLoadBalancerTargetKind
  ad_listener_port :: u16
  ad_preserve_client_ip :: bool
  ad_redis_prefix :: string
  ad_postgres_prefix :: string

record AwsPoolBinding =
  ab_world_id :: string
  ab_shard :: string
  ab_capacity_class :: string
  ab_placement_tags :: "string list"
  ab_identity :: AwsPoolIdentity
  ab_placement :: AwsPlacementTarget
  ab_load_balancer :: AwsLoadBalancerAttachment
  ab_managed_dependencies :: AwsManagedDependencyConventions

record AwsLoadBalancerObservation =
  ao_load_balancer_attached :: bool
  ao_target_group_attached :: bool
  ao_targets_healthy :: bool

record AwsManagedDependencyObservation =
  am_redis_ready :: bool
  am_postgres_ready :: bool

datatype AwsPoolAdapterPhase =
    AppIdle | AppAwaitLoadBalancerAttachment | AppAwaitTargetHealth | AppAwaitManagedDependencies
  | AppAwaitRuntimeAssignment | AppComplete | AppStale

fun aws_pool_adapter_phase_name :: "AwsPoolAdapterPhase \<Rightarrow> string" where
  "aws_pool_adapter_phase_name AppIdle = ''idle''"
| "aws_pool_adapter_phase_name AppAwaitLoadBalancerAttachment = ''await_load_balancer_attachment''"
| "aws_pool_adapter_phase_name AppAwaitTargetHealth = ''await_target_health''"
| "aws_pool_adapter_phase_name AppAwaitManagedDependencies = ''await_managed_dependencies''"
| "aws_pool_adapter_phase_name AppAwaitRuntimeAssignment = ''await_runtime_assignment''"
| "aws_pool_adapter_phase_name AppComplete = ''complete''"
| "aws_pool_adapter_phase_name AppStale = ''stale''"

datatype AwsPoolAdapterNextAction =
    AnaNone | AnaEnsureLoadBalancerAttachment | AnaWaitForTargetHealth | AnaEnsureManagedDependencies
  | AnaPublishRuntimeAssignments

fun aws_pool_adapter_next_action_name :: "AwsPoolAdapterNextAction \<Rightarrow> string" where
  "aws_pool_adapter_next_action_name AnaNone = ''none''"
| "aws_pool_adapter_next_action_name AnaEnsureLoadBalancerAttachment = ''ensure_load_balancer_attachment''"
| "aws_pool_adapter_next_action_name AnaWaitForTargetHealth = ''wait_for_target_health''"
| "aws_pool_adapter_next_action_name AnaEnsureManagedDependencies = ''ensure_managed_dependencies''"
| "aws_pool_adapter_next_action_name AnaPublishRuntimeAssignments = ''publish_runtime_assignments''"

record AwsPoolAdapterStatusSummary =
  as_action_present :: bool
  as_load_balancer_ready :: bool
  as_managed_dependencies_ready :: bool
  as_runtime_assignment_satisfied :: bool
  as_assigned_runtime_instances :: u32
  as_required_runtime_assignments :: u32

record AwsPoolAdapterStatus =
  at_world_id :: string
  at_shard :: string
  at_requested_action :: TopologyActuationActionKind
  at_phase :: AwsPoolAdapterPhase
  at_next_action :: AwsPoolAdapterNextAction
  at_summary :: AwsPoolAdapterStatusSummary

definition starts_with :: "string \<Rightarrow> string \<Rightarrow> bool" where
  "starts_with s p \<longleftrightarrow> take (length p) s = p"

fun find_prefixed_world_tag_value :: "string list \<Rightarrow> string \<Rightarrow> string option" where
  "find_prefixed_world_tag_value [] p = None"
| "find_prefixed_world_tag_value (tag # tags) p =
     (if starts_with tag p then Some (drop (length p) tag) else find_prefixed_world_tag_value tags p)"

fun collect_prefixed_world_tag_values :: "string list \<Rightarrow> string \<Rightarrow> string list" where
  "collect_prefixed_world_tag_values [] p = []"
| "collect_prefixed_world_tag_values (tag # tags) p =
     (if starts_with tag p then drop (length p) tag # collect_prefixed_world_tag_values tags p
      else collect_prefixed_world_tag_values tags p)"

definition make_aws_pool_service_name :: "string \<Rightarrow> string \<Rightarrow> string" where
  "make_aws_pool_service_name world_id shard =
     ''world-svc-'' @ sanitize_kubernetes_name_token world_id @ ''-'' @ sanitize_kubernetes_name_token shard"

definition make_aws_pool_iam_role_name :: "string \<Rightarrow> string" where
  "make_aws_pool_iam_role_name service_name = service_name @ ''-role''"

abbreviation value_or :: "'a option \<Rightarrow> 'a \<Rightarrow> 'a" where
  "value_or x d \<equiv> (case x of None \<Rightarrow> d | Some v \<Rightarrow> v)"

definition aws_placement_of :: "string list \<Rightarrow> AwsPlacementTarget \<Rightarrow> AwsPlacementTarget" where
  "aws_placement_of tags defaults =
     (let zones = collect_prefixed_world_tag_values tags ''az:'';
          zones = (if zones = [] then collect_prefixed_world_tag_values tags ''zone:'' else zones);
          subnets = collect_prefixed_world_tag_values tags ''subnet:''
      in \<lparr>ap_region = value_or (find_prefixed_world_tag_value tags ''region:'') (ap_region defaults),
          ap_availability_zones = (if zones = [] then ap_availability_zones defaults else zones),
          ap_subnet_ids = (if subnets = [] then ap_subnet_ids defaults else subnets)\<rparr>)"

definition aws_load_balancer_of :: "string list \<Rightarrow> AwsAdapterDefaults \<Rightarrow> string \<Rightarrow> AwsLoadBalancerAttachment" where
  "aws_load_balancer_of tags defaults service_name =
     (let lb_scheme = find_prefixed_world_tag_value tags ''aws-lb-scheme:'';
          lb_type = find_prefixed_world_tag_value tags ''aws-lb-type:'';
          lb_target = find_prefixed_world_tag_value tags ''aws-lb-target:'';
          type = (case lb_type of None \<Rightarrow> ad_load_balancer_type defaults
            | Some t \<Rightarrow> value_or (parse_aws_load_balancer_type t) (ad_load_balancer_type defaults))
      in \<lparr>al_kubernetes_service_name = service_name,
          al_load_balancer_name = (if type = AltApplication then ''alb-'' else ''nlb-'') @ service_name,
          al_target_group_name = ''tg-'' @ service_name, al_type = type,
          al_scheme = (case lb_scheme of None \<Rightarrow> ad_load_balancer_scheme defaults
            | Some t \<Rightarrow> value_or (parse_aws_load_balancer_scheme t) (ad_load_balancer_scheme defaults)),
          al_target_kind = (case lb_target of None \<Rightarrow> ad_load_balancer_target_kind defaults
            | Some t \<Rightarrow> value_or (parse_aws_load_balancer_target_kind t) (ad_load_balancer_target_kind defaults)),
          al_listener_port = ad_listener_port defaults,
          al_preserve_client_ip = ad_preserve_client_ip defaults\<rparr>)"

definition make_aws_pool_binding :: "KubernetesPoolBinding \<Rightarrow> AwsAdapterDefaults \<Rightarrow> AwsPoolBinding" where
  "make_aws_pool_binding binding defaults =
     (let service_name = make_aws_pool_service_name (kb_world_id binding) (kb_shard binding);
          placement = aws_placement_of (kb_placement_tags binding) (ad_placement defaults);
          world_token = sanitize_kubernetes_name_token (kb_world_id binding);
          region_token = sanitize_kubernetes_name_token
            (if ap_region placement = [] then ''global'' else ap_region placement);
          redis = sanitize_kubernetes_name_token (ad_redis_prefix defaults);
          postgres = sanitize_kubernetes_name_token (ad_postgres_prefix defaults)
      in \<lparr>ab_world_id = kb_world_id binding, ab_shard = kb_shard binding,
          ab_capacity_class = kb_capacity_class binding, ab_placement_tags = kb_placement_tags binding,
          ab_identity = \<lparr>ai_cluster_name = ad_cluster_name defaults,
            ai_namespace_name = kb_namespace_name binding, ai_workload_name = kb_workload_name binding,
            ai_service_name = service_name, ai_iam_role_name = make_aws_pool_iam_role_name service_name\<rparr>,
          ab_placement = placement,
          ab_load_balancer = aws_load_balancer_of (kb_placement_tags binding) defaults service_name,
          ab_managed_dependencies = \<lparr>ac_redis_replication_group_id = redis @ ''-'' @ world_token,
            ac_redis_subnet_group_name = redis @ ''-'' @ region_token @ ''-subnets'',
            ac_postgres_cluster_id = postgres @ ''-'' @ world_token,
            ac_postgres_subnet_group_name = postgres @ ''-'' @ region_token @ ''-subnets'',
            ac_postgres_secret_name = postgres @ ''-'' @ world_token @ ''-credentials''\<rparr>\<rparr>)"

definition evaluate_aws_pool_adapter_status ::
  "AwsPoolBinding \<Rightarrow> AwsLoadBalancerObservation \<Rightarrow> AwsManagedDependencyObservation \<Rightarrow>
   TopologyActuationAdapterLeaseAction option \<Rightarrow> TopologyActuationRuntimeAssignmentDocument option \<Rightarrow>
   AwsPoolAdapterStatus"
where
  "evaluate_aws_pool_adapter_status binding lb deps lease_action runtime_assignment =
     (let s = \<lparr>as_action_present = lease_action \<noteq> None,
            as_load_balancer_ready =
              ao_load_balancer_attached lb \<and> ao_target_group_attached lb \<and> ao_targets_healthy lb,
            as_managed_dependencies_ready = am_redis_ready deps \<and> am_postgres_ready deps,
            as_runtime_assignment_satisfied = False, as_assigned_runtime_instances = 0,
            as_required_runtime_assignments = 0\<rparr>;
          out = \<lparr>at_world_id = ab_world_id binding, at_shard = ab_shard binding,
            at_requested_action = TakObserveUndeclaredPool, at_phase = AppIdle, at_next_action = AnaNone,
            at_summary = s\<rparr>
      in case lease_action of
           None \<Rightarrow> out\<lparr>at_phase := AppIdle, at_next_action := AnaNone\<rparr>
         | Some lease \<Rightarrow>
             (let assigned = (case runtime_assignment of None \<Rightarrow> 0
                    | Some d \<Rightarrow> count_topology_actuation_runtime_assignments d (ab_world_id binding)
                        (ab_shard binding) (la_action lease));
                  required = (if la_action lease = TakScaleOutPool
                    then positive_delta (la_replica_delta lease) else 0);
                  s = s\<lparr>as_assigned_runtime_instances := assigned,
                    as_required_runtime_assignments := required,
                    as_runtime_assignment_satisfied := assigned \<ge> required\<rparr>;
                  ladder =
                    (if \<not> ao_load_balancer_attached lb then
                       (AppAwaitLoadBalancerAttachment, AnaEnsureLoadBalancerAttachment)
                     else if \<not> ao_target_group_attached lb \<or> \<not> ao_targets_healthy lb then
                       (AppAwaitTargetHealth, AnaWaitForTargetHealth)
                     else if \<not> as_managed_dependencies_ready s then
                       (AppAwaitManagedDependencies, AnaEnsureManagedDependencies)
                     else if \<not> as_runtime_assignment_satisfied s then
                       (AppAwaitRuntimeAssignment, AnaPublishRuntimeAssignments)
                     else (AppComplete, AnaNone));
                  (phase, action) =
                    (case la_action lease of
                       TakObserveUndeclaredPool \<Rightarrow> (AppIdle, AnaNone)
                     | TakScaleInPool \<Rightarrow> (AppComplete, AnaNone)
                     | TakScaleOutPool \<Rightarrow> ladder
                     | TakRestorePoolReadiness \<Rightarrow> ladder)
              in out\<lparr>at_requested_action := la_action lease, at_summary := s, at_phase := phase,
                   at_next_action := action\<rparr>))"

section \<open>Names\<close>

interpretation workload_kind: named_enum kubernetes_workload_kind_name parse_kubernetes_workload_kind
proof (unfold_locales, goal_cases)
  case (1 x)
  show ?case by (cases x) (simp_all add: parse_kubernetes_workload_kind_def)
next
  case (2 s x)
  then show ?case by (auto simp: parse_kubernetes_workload_kind_def split: if_splits)
qed

interpretation lb_scheme: named_enum aws_load_balancer_scheme_name parse_aws_load_balancer_scheme
proof (unfold_locales, goal_cases)
  case (1 x)
  show ?case by (cases x) (simp_all add: parse_aws_load_balancer_scheme_def)
next
  case (2 s x)
  then show ?case by (auto simp: parse_aws_load_balancer_scheme_def split: if_splits)
qed

interpretation lb_target: named_enum aws_load_balancer_target_kind_name parse_aws_load_balancer_target_kind
proof (unfold_locales, goal_cases)
  case (1 x)
  show ?case by (cases x) (simp_all add: parse_aws_load_balancer_target_kind_def)
next
  case (2 s x)
  then show ?case by (auto simp: parse_aws_load_balancer_target_kind_def split: if_splits)
qed

text \<open>The load balancer type also has short names, so only one direction holds.\<close>

lemma parse_aws_load_balancer_type_name:
  "parse_aws_load_balancer_type (aws_load_balancer_type_name t) = Some t"
  by (cases t) (simp_all add: parse_aws_load_balancer_type_def)

definition label_char :: "char \<Rightarrow> bool" where
  "label_char c \<longleftrightarrow> c = dash \<or> (let n = (of_char c :: nat) in 48 \<le> n \<and> n \<le> 57 \<or> 97 \<le> n \<and> n \<le> 122)"

abbreviation no_double_dash :: "string \<Rightarrow> bool" where
  "no_double_dash \<equiv> successively (\<lambda>a b. \<not> (a = dash \<and> b = dash))"

definition dns_label :: "string \<Rightarrow> bool" where
  "dns_label s \<longleftrightarrow> s \<noteq> [] \<and> (\<forall>c \<in> set s. label_char c) \<and> hd s \<noteq> dash \<and> last s \<noteq> dash \<and> no_double_dash s"

lemma label_name_char: "label_char (name_char c)"
  by (auto simp: label_char_def name_char_def isalnum_def tolower_def of_char_of take_bit_eq_mod Let_def)

lemma name_char_label: "label_char c \<Longrightarrow> name_char c = c"
  by (auto simp: label_char_def name_char_def isalnum_def tolower_def Let_def)

lemma set_collapse: "set (collapse_dashes p s) \<subseteq> set s"
  by (induction p s rule: collapse_dashes.induct) auto

lemma collapse_no_double:
  "no_double_dash (collapse_dashes p s) \<and>
   (p \<longrightarrow> collapse_dashes p s = [] \<or> hd (collapse_dashes p s) \<noteq> dash)"
proof (induction p s rule: collapse_dashes.induct)
  case (2 p c rest)
  then show ?case by (auto simp: successively_Cons)
qed simp

lemma collapse_id:
  "no_double_dash s \<Longrightarrow> p \<longrightarrow> s = [] \<or> hd s \<noteq> dash \<Longrightarrow> collapse_dashes p s = s"
  by (induction p s rule: collapse_dashes.induct) (auto simp: successively_Cons)

lemma no_double_dropWhile: "no_double_dash s \<Longrightarrow> no_double_dash (dropWhile P s)"
  by (induction s) (auto simp: successively_Cons)

lemma no_double_rev: "no_double_dash (rev s) = no_double_dash s"
  by (subst successively_rev, rule arg_cong [where f = "\<lambda>P. successively P s"]) auto

lemma trim_dashes:
  fixes s :: string
  defines "t \<equiv> rev (dropWhile (\<lambda>c. c = dash) (rev (dropWhile (\<lambda>c. c = dash) s)))"
  assumes "no_double_dash s"
  shows "no_double_dash t \<and> set t \<subseteq> set s \<and> (t \<noteq> [] \<longrightarrow> hd t \<noteq> dash \<and> last t \<noteq> dash)"
proof -
  have t: "t = trim_with (\<lambda>c. c = dash) s" by (simp add: t_def trim_with_def)
  have "no_double_dash t"
    unfolding t_def no_double_rev by (simp only: no_double_dropWhile no_double_rev assms(2))
  moreover have "t \<noteq> [] \<longrightarrow> hd t \<noteq> dash \<and> last t \<noteq> dash"
    using trim_with_ends [of "\<lambda>c. c = dash" s] by (auto simp: t)
  moreover have "set t \<subseteq> set s" unfolding t by (rule set_trim_with)
  ultimately show ?thesis by blast
qed

text \<open>Every generated name token is a DNS label: not empty, of lower-case letters, digits and single
  inner dashes, whatever the world or shard is called. A token that already is a label is kept, and
  no other is.\<close>

theorem sanitized_names_are_labels:
  "dns_label (sanitize_kubernetes_name_token v) \<and>
   (sanitize_kubernetes_name_token v = v \<longleftrightarrow> dns_label v)"
proof (intro conjI iffI)
  let ?c = "collapse_dashes False (map name_char v)"
  have chars: "\<forall>c \<in> set ?c. label_char c"
    using set_collapse [of False "map name_char v"] label_name_char by fastforce
  have pool: "dns_label ''pool''"
    by (simp add: dns_label_def label_char_def)
  let ?t = "rev (dropWhile (\<lambda>c. c = dash) (rev (dropWhile (\<lambda>c. c = dash) ?c)))"
  note t = trim_dashes [OF collapse_no_double [THEN conjunct1], of False "map name_char v"]
  have "\<forall>c \<in> set ?t. label_char c" using t chars by blast
  then have "?t \<noteq> [] \<Longrightarrow> dns_label ?t" using t unfolding dns_label_def by blast
  then show label: "dns_label (sanitize_kubernetes_name_token v)"
    unfolding sanitize_kubernetes_name_token_def Let_def using pool by presburger
  show "sanitize_kubernetes_name_token v = v \<Longrightarrow> dns_label v" using label by simp
  assume v: "dns_label v"
  then have "map name_char v = v" by (simp add: dns_label_def name_char_label map_idI)
  then have c: "?c = v" using v collapse_id [of v False] by (simp add: dns_label_def)
  have "trim_with (\<lambda>c. c = dash) v = v" using v by (intro trim_with_id) (simp add: dns_label_def)
  moreover have "v \<noteq> []" using v by (simp add: dns_label_def)
  ultimately show "sanitize_kubernetes_name_token v = v"
    unfolding sanitize_kubernetes_name_token_def Let_def c trim_with_def by presburger
qed

text \<open>The names are not unique, however: the separator between world and shard is itself a character
  of the tokens, and so different pools can be given the same workload.\<close>

lemma workload_name_collision:
  "make_kubernetes_pool_workload_name ''a'' ''b-c'' k = make_kubernetes_pool_workload_name ''a-b'' ''c'' k"
  by (cases k) code_simp+

section \<open>Retirement and completion\<close>

lemma retire_iff:
  "kt_next_action (evaluate_kubernetes_pool_orchestration b obs L O') = KnaPatchWorkloadRetirement \<longleftrightarrow>
     (\<exists>l. L = Some l \<and> la_action l = TakScaleInPool) \<and>
     (ko_current_spec_replicas obs > kb_target_replicas b \<or> ko_terminating_replicas obs > 0) \<and>
     (\<forall>s. O' = Some s \<longrightarrow> wot_phase s \<in> {WopReadyToClear, WopIdle})"
  by (cases L; cases O')
    (auto simp: evaluate_kubernetes_pool_orchestration_def scale_out_step_def restore_step_def scale_in_step_def
      Let_def split: TopologyActuationActionKind.splits WorldDrainOrchestrationPhase.splits)




text \<open>Without an orchestration status, or with an idle one, nothing holds the retirement back.\<close>

lemma retirement_without_drain:
  assumes "ko_current_spec_replicas obs > kb_target_replicas b" and "la_action l = TakScaleInPool"
  shows "kt_next_action (evaluate_kubernetes_pool_orchestration b obs (Some l) None) = KnaPatchWorkloadRetirement"
  using assms by (simp add: retire_iff)

lemma unat_positive_delta: "unat (positive_delta delta) = nat (sint delta)"
proof (cases "sint delta < 0")
  case False
  then have "uint delta = sint delta"
    using sint_lt [of delta] by (simp add: uint_sint take_bit_int_eq_self)
  then show ?thesis using False by (simp add: positive_delta_def unat_eq_nat_uint)
qed (simp add: positive_delta_def)

lemma count_assignments:
  "count_topology_actuation_runtime_assignments A w sh k =
     word_of_nat (length (filter (\<lambda>a. ri_world_id a = w \<and> ri_shard a = sh \<and> ri_action a = k) (rd_assignments A)))"
proof -
  have "foldl (\<lambda>count a. if P a then count + 1 else count) c xs =
      c + (word_of_nat (length (filter P xs)) :: u32)" for P c and xs :: "TopologyActuationRuntimeAssignmentItem list"
    by (induction xs arbitrary: c) simp_all
  from this [where P = "\<lambda>a. ri_world_id a = w \<and> ri_shard a = sh \<and> ri_action a = k" and c = 0]
  show ?thesis by (simp add: count_topology_actuation_runtime_assignments_def)
qed

text \<open>The AWS adapter calls a leased scale-out complete only when everything it stands for is there: the
  load balancer and its healthy target group are attached, Redis and Postgres are ready, and at least
  as many runtime instances as the lease adds are assigned to this world and shard for scale-out.\<close>

theorem aws_scale_out_complete:
  assumes "at_phase (evaluate_aws_pool_adapter_status b lb deps (Some l) (Some A)) = AppComplete"
    and "la_action l = TakScaleOutPool" and "length (rd_assignments A) < 2 ^ 32"
  shows "ao_load_balancer_attached lb \<and> ao_target_group_attached lb \<and> ao_targets_healthy lb \<and>
    am_redis_ready deps \<and> am_postgres_ready deps \<and>
    sint (la_replica_delta l) \<le> int (length (filter (\<lambda>a. ri_world_id a = ab_world_id b \<and>
      ri_shard a = ab_shard b \<and> ri_action a = TakScaleOutPool) (rd_assignments A)))"
proof -
  let ?n = "length (filter (\<lambda>a. ri_world_id a = ab_world_id b \<and> ri_shard a = ab_shard b \<and>
    ri_action a = TakScaleOutPool) (rd_assignments A))"
  have "?n \<le> length (rd_assignments A)" by simp
  with assms(3) have n: "?n < 2 ^ 32" by linarith
  have all: "ao_load_balancer_attached lb \<and> ao_target_group_attached lb \<and> ao_targets_healthy lb \<and>
      am_redis_ready deps \<and> am_postgres_ready deps \<and>
      positive_delta (la_replica_delta l) \<le> word_of_nat ?n"
    using assms(1,2)
    by (simp add: evaluate_aws_pool_adapter_status_def Let_def count_assignments split: if_splits)
  then have "unat (positive_delta (la_replica_delta l)) \<le> unat (word_of_nat ?n :: u32)"
    by (simp add: word_le_nat_alt)
  with n have "nat (sint (la_replica_delta l)) \<le> ?n"
    by (simp add: unat_positive_delta unat_of_nat take_bit_nat_eq_self)
  with all show ?thesis by linarith
qed

theorem aws_scale_out_complete_witness:
  "let l = \<lparr>la_world_id = ''w'', la_shard = ''s'', la_action = TakScaleOutPool, la_replica_delta = 1\<rparr>;
       A = \<lparr>rd_adapter_id = ''a'', rd_revision = 1, rd_updated_at_ms = 0, rd_lease_revision = 1,
         rd_assignments = [\<lparr>ri_instance_id = ''i'', ri_world_id = ''w'', ri_shard = ''s'',
           ri_action = TakScaleOutPool\<rparr>]\<rparr>
   in sint (la_replica_delta l) \<le> int (length (filter (\<lambda>a. ri_world_id a = ''w'' \<and> ri_shard a = ''s'' \<and>
      ri_action a = TakScaleOutPool) (rd_assignments A)))"
proof -
  let ?l = "\<lparr>la_world_id = ''w'', la_shard = ''s'', la_action = TakScaleOutPool, la_replica_delta = 1\<rparr>"
  let ?A = "\<lparr>rd_adapter_id = ''a'', rd_revision = 1, rd_updated_at_ms = 0, rd_lease_revision = 1,
     rd_assignments = [\<lparr>ri_instance_id = ''i'', ri_world_id = ''w'', ri_shard = ''s'',
       ri_action = TakScaleOutPool\<rparr>]\<rparr>"
  let ?p = "\<lparr>ap_region = [], ap_availability_zones = [], ap_subnet_ids = []\<rparr>"
  let ?b = "make_aws_pool_binding (make_kubernetes_pool_binding \<lparr>dp_world_id = ''w'', dp_shard = ''s'',
     dp_replicas = 2, dp_capacity_class = [], dp_placement_tags = []\<rparr> ''n'' KwkStatefulSet)
     \<lparr>ad_cluster_name = ''c'', ad_placement = ?p, ad_load_balancer_type = AltNetwork,
      ad_load_balancer_scheme = AlsInternal, ad_load_balancer_target_kind = AtkIp, ad_listener_port = 7000,
      ad_preserve_client_ip = True, ad_redis_prefix = ''r'', ad_postgres_prefix = ''p''\<rparr>"
  have "at_phase (evaluate_aws_pool_adapter_status ?b \<lparr>ao_load_balancer_attached = True,
      ao_target_group_attached = True, ao_targets_healthy = True\<rparr>
      \<lparr>am_redis_ready = True, am_postgres_ready = True\<rparr> (Some ?l) (Some ?A)) = AppComplete"
    by code_simp
  from aws_scale_out_complete [OF this] show ?thesis
    by (simp add: make_aws_pool_binding_def make_kubernetes_pool_binding_def Let_def)
qed

end
