(* ===== verification/World_Runtime.thy ===== *)
theory World_Runtime
  imports Keyed_Index "HOL-Library.Signed_Division"
begin

text \<open>
  The authoritative world runtime of \<open>core/include/server/core/realtime/runtime.hpp\<close> and
  \<open>core/src/realtime/runtime.cpp\<close>: the fixed-step driver, input staging, the tick with its
  replication to viewers, and the rewind history. \<open>std::set\<close> is a strictly sorted list, an
  \<open>std::unordered_map\<close> an index whose iteration order is a parameter (\<open>its\<close> for the sessions,
  \<open>itv\<close> for the viewers). Coordinates are 32-bit two's complement words. The mutex makes each public
  operation atomic, so an operation is a function on the state.
\<close>

section \<open>The fixed-step driver\<close>

text \<open>Durations are counted in nanoseconds, in the 64-bit two's complement integers of \<open>Clock::duration\<close>;
  \<open>to_i64\<close> is the conversion to them, so arithmetic wraps where the code overflows. The number of catch-up steps
  is a \<open>std::size_t\<close>, which \<open>static_cast<long long>\<close> reads with its sign.\<close>

record FixedStepDriver =
  fs_step_duration :: int
  fs_accumulator :: int
  fs_max_catch_up_steps :: u64

definition to_i64 :: "int \<Rightarrow> int" where
  "to_i64 n = signed_take_bit 63 n"

definition new_fixed_step_driver :: "u32 \<Rightarrow> u64 \<Rightarrow> FixedStepDriver" where
  "new_fixed_step_driver tick_rate_hz max_catch_up_steps =
     \<lparr>fs_step_duration = 1000000000 div uint (max 1 tick_rate_hz), fs_accumulator = 0,
      fs_max_catch_up_steps = max 1 max_catch_up_steps\<rparr>"

definition fixed_step_clear :: "FixedStepDriver \<Rightarrow> FixedStepDriver" where
  "fixed_step_clear d = d\<lparr>fs_accumulator := 0\<rparr>"

function consume_loop :: "int \<Rightarrow> nat \<Rightarrow> int \<Rightarrow> nat \<Rightarrow> int \<times> nat" where
  "consume_loop step max_steps accumulator steps =
     (if accumulator \<ge> step \<and> steps < max_steps
      then consume_loop step max_steps (to_i64 (accumulator - step)) (steps + 1)
      else (accumulator, steps))"
  by pat_completeness auto
termination
  by (relation "measure (\<lambda>(step, max_steps, accumulator, steps). max_steps - steps)") auto

declare consume_loop.simps [simp del]

definition consume_elapsed :: "int \<Rightarrow> FixedStepDriver \<Rightarrow> FixedStepDriver \<times> nat" where
  "consume_elapsed elapsed d =
     (if elapsed \<le> 0 then (d, 0)
      else
        (let accumulator = to_i64 (fs_accumulator d + elapsed);
             max_accumulator = to_i64 (fs_step_duration d * sint (fs_max_catch_up_steps d));
             accumulator = (if accumulator > max_accumulator then max_accumulator else accumulator);
             (accumulator, steps) =
               consume_loop (fs_step_duration d) (unat (fs_max_catch_up_steps d)) accumulator 0
         in (d\<lparr>fs_accumulator := accumulator\<rparr>, steps)))"

section \<open>Data of the runtime\<close>

record RuntimeConfig =
  rtc_tick_rate_hz :: u32
  rtc_snapshot_refresh_ticks :: u32
  rtc_interest_cell_size_mm :: i32
  rtc_interest_radius_cells :: i32
  rtc_max_interest_recipients_per_tick :: u32
  rtc_max_delta_actors_per_tick :: u32
  rtc_history_ticks :: u32

definition default_runtime_config :: RuntimeConfig where
  "default_runtime_config =
     \<lparr>rtc_tick_rate_hz = 30, rtc_snapshot_refresh_ticks = 30, rtc_interest_cell_size_mm = 10000,
      rtc_interest_radius_cells = 1, rtc_max_interest_recipients_per_tick = 64,
      rtc_max_delta_actors_per_tick = 32, rtc_history_ticks = 64\<rparr>"

record InputCommand =
  ic_input_seq :: u32
  ic_move_x_mm :: i32
  ic_move_y_mm :: i32
  ic_yaw_mdeg :: i32

record ActorTransformSample =
  ats_actor_id :: u32
  ats_x_mm :: i32
  ats_y_mm :: i32
  ats_yaw_mdeg :: i32
  ats_last_applied_input_seq :: u32
  ats_server_tick :: u32

record RuntimeSnapshot =
  rsn_server_tick :: u32
  rsn_tick_total :: u64
  rsn_snapshot_total :: u64
  rsn_delta_total :: u64
  rsn_delta_budget_snapshot_total :: u64
  rsn_stale_input_reject_total :: u64
  rsn_actor_count :: nat

datatype StageInputDisposition = SidAccepted | SidRejectedStale

record StageInputResult =
  sir_disposition :: StageInputDisposition
  sir_target_server_tick :: u32
  sir_actor_id :: "u32 option"

datatype ReplicationKind = RkSnapshot | RkDelta

record ReplicationUpdate =
  rup_session_id :: u32
  rup_kind :: ReplicationKind
  rup_server_tick :: u32
  rup_self_actor_id :: u32
  rup_actors :: "ActorTransformSample list"
  rup_removed_actor_ids :: "u32 list"

record RewindQuery =
  rwq_actor_id :: u32
  rwq_server_tick :: u32

record RewindResult =
  rwr_sample :: ActorTransformSample
  rwr_exact_tick :: bool

datatype SimulationPhase =
    SpTickBegin | SpInputsApplied | SpActorsAdvanced | SpReplicationComputed | SpTickEnd

record SimulationPhaseContext =
  spc_server_tick :: u32
  spc_actor_count :: nat
  spc_viewer_count :: nat
  spc_staged_input_count :: nat
  spc_replication_update_count :: nat

record StagedInput =
  sti_input :: InputCommand
  sti_present :: bool

definition new_staged_input :: StagedInput where
  "new_staged_input =
     \<lparr>sti_input = \<lparr>ic_input_seq = 0, ic_move_x_mm = 0, ic_move_y_mm = 0, ic_yaw_mdeg = 0\<rparr>, sti_present = False\<rparr>"

record ActorState =
  act_actor_id :: u32
  act_session_id :: u32
  act_x_mm :: i32
  act_y_mm :: i32
  act_yaw_mdeg :: i32
  act_last_applied_input_seq :: u32
  act_cell_x :: i32
  act_cell_y :: i32
  act_dirty :: bool
  act_history :: "ActorTransformSample list"

definition new_actor_state :: "u32 \<Rightarrow> u32 \<Rightarrow> ActorState" where
  "new_actor_state actor_id session_id =
     \<lparr>act_actor_id = actor_id, act_session_id = session_id, act_x_mm = 0, act_y_mm = 0, act_yaw_mdeg = 0,
      act_last_applied_input_seq = 0, act_cell_x = 0, act_cell_y = 0, act_dirty = False, act_history = []\<rparr>"

record ViewerState =
  vws_actor_id :: "u32 option"
  vws_visible_actor_ids :: "u32 list"
  vws_snapshot_pending :: bool
  vws_last_snapshot_tick :: u32

definition new_viewer_state :: ViewerState where
  "new_viewer_state =
     \<lparr>vws_actor_id = None, vws_visible_actor_ids = [], vws_snapshot_pending = False, vws_last_snapshot_tick = 0\<rparr>"

record WorldRuntime =
  wrt_config :: RuntimeConfig
  wrt_next_actor_id :: u32
  wrt_server_tick :: u32
  wrt_tick_total :: u64
  wrt_snapshot_total :: u64
  wrt_delta_total :: u64
  wrt_delta_budget_snapshot_total :: u64
  wrt_stale_input_reject_total :: u64
  wrt_staged_inputs :: "(u32, StagedInput) idx"
  wrt_session_to_actor :: "(u32, u32) idx"
  wrt_actors :: "(u32, ActorState) idx"
  wrt_viewers :: "(u32, ViewerState) idx"
  wrt_removed_actor_ids :: "u32 list"
  wrt_observer :: bool

section \<open>Arithmetic\<close>

definition clamp_i32 :: "int \<Rightarrow> i32" where
  "clamp_i32 value =
     (if value < - 2147483648 then word_of_int (- 2147483648)
      else if value > 2147483647 then 2147483647
      else word_of_int value)"

text \<open>Division of \<open>int\<close> truncates; \<open>sdiv\<close> is that division.\<close>

definition cell_coord :: "i32 \<Rightarrow> i32 \<Rightarrow> i32" where
  "cell_coord value_mm cell_size_mm =
     (if sint cell_size_mm \<le> 0 then 0
      else if sint value_mm \<ge> 0 then word_of_int (sint value_mm sdiv sint cell_size_mm)
      else - word_of_int (sint ((- value_mm) + cell_size_mm - 1) sdiv sint cell_size_mm))"

definition abs_i32 :: "i32 \<Rightarrow> i32" where
  "abs_i32 w = (if sint w < 0 then - w else w)"

section \<open>Operations\<close>

definition sanitize_config :: "RuntimeConfig \<Rightarrow> RuntimeConfig" where
  "sanitize_config config =
     (let config = (if rtc_tick_rate_hz config = 0 then config\<lparr>rtc_tick_rate_hz := 30\<rparr> else config);
          config = (if rtc_snapshot_refresh_ticks config = 0
            then config\<lparr>rtc_snapshot_refresh_ticks := 30\<rparr> else config);
          config = (if sint (rtc_interest_cell_size_mm config) \<le> 0
            then config\<lparr>rtc_interest_cell_size_mm := 10000\<rparr> else config);
          config = (if sint (rtc_interest_radius_cells config) < 0
            then config\<lparr>rtc_interest_radius_cells := 0\<rparr> else config);
          config = (if rtc_max_interest_recipients_per_tick config = 0
            then config\<lparr>rtc_max_interest_recipients_per_tick := 64\<rparr> else config);
          config = (if rtc_max_delta_actors_per_tick config = 0
            then config\<lparr>rtc_max_delta_actors_per_tick := 32\<rparr> else config)
      in if rtc_history_ticks config = 0 then config\<lparr>rtc_history_ticks := 64\<rparr> else config)"

definition new_world_runtime :: "RuntimeConfig \<Rightarrow> WorldRuntime" where
  "new_world_runtime config =
     \<lparr>wrt_config = sanitize_config config, wrt_next_actor_id = 1, wrt_server_tick = 0, wrt_tick_total = 0,
      wrt_snapshot_total = 0, wrt_delta_total = 0, wrt_delta_budget_snapshot_total = 0,
      wrt_stale_input_reject_total = 0, wrt_staged_inputs = idx_empty, wrt_session_to_actor = idx_empty,
      wrt_actors = idx_empty, wrt_viewers = idx_empty, wrt_removed_actor_ids = [], wrt_observer = False\<rparr>"

definition set_simulation_phase_observer :: "bool \<Rightarrow> WorldRuntime \<Rightarrow> WorldRuntime" where
  "set_simulation_phase_observer observer r = r\<lparr>wrt_observer := observer\<rparr>"

definition update_actor_cells :: "RuntimeConfig \<Rightarrow> ActorState \<Rightarrow> ActorState" where
  "update_actor_cells config actor =
     actor\<lparr>act_cell_x := cell_coord (act_x_mm actor) (rtc_interest_cell_size_mm config),
           act_cell_y := cell_coord (act_y_mm actor) (rtc_interest_cell_size_mm config)\<rparr>"

definition ensure_actor_for_session :: "u32 \<Rightarrow> WorldRuntime \<Rightarrow> WorldRuntime \<times> u32" where
  "ensure_actor_for_session session_id r =
     (case idx_find (wrt_session_to_actor r) session_id of
        Some actor_id \<Rightarrow> (r, actor_id)
      | None \<Rightarrow>
          (let actor_id = wrt_next_actor_id r;
               actor = update_actor_cells (wrt_config r) (new_actor_state actor_id session_id);
               actor = actor\<lparr>act_dirty := True\<rparr>;
               viewer = (case idx_find (wrt_viewers r) session_id of None \<Rightarrow> new_viewer_state | Some v \<Rightarrow> v)
           in (r\<lparr>wrt_next_actor_id := actor_id + 1,
                 wrt_session_to_actor := idx_put session_id actor_id (wrt_session_to_actor r),
                 wrt_actors := idx_emplace actor_id actor (wrt_actors r),
                 wrt_viewers := idx_put session_id
                   (viewer\<lparr>vws_actor_id := Some actor_id, vws_snapshot_pending := True\<rparr>) (wrt_viewers r)\<rparr>,
               actor_id)))"

definition stage_input :: "u32 \<Rightarrow> InputCommand \<Rightarrow> WorldRuntime \<Rightarrow> WorldRuntime \<times> StageInputResult" where
  "stage_input session_id input r =
     (let (r, actor_id) = ensure_actor_for_session session_id r;
          staged = (case idx_find (wrt_staged_inputs r) session_id of None \<Rightarrow> new_staged_input | Some s \<Rightarrow> s)
      in if sti_present staged \<and> ic_input_seq input < ic_input_seq (sti_input staged) then
           (r\<lparr>wrt_stale_input_reject_total := wrt_stale_input_reject_total r + 1,
              wrt_staged_inputs := idx_put session_id staged (wrt_staged_inputs r)\<rparr>,
            \<lparr>sir_disposition = SidRejectedStale, sir_target_server_tick = wrt_server_tick r + 1,
             sir_actor_id = Some actor_id\<rparr>)
         else
           (r\<lparr>wrt_staged_inputs := idx_put session_id
                (staged\<lparr>sti_input := input, sti_present := True\<rparr>) (wrt_staged_inputs r)\<rparr>,
            \<lparr>sir_disposition = SidAccepted, sir_target_server_tick = wrt_server_tick r + 1,
             sir_actor_id = Some actor_id\<rparr>))"

definition remove_session :: "u32 \<Rightarrow> WorldRuntime \<Rightarrow> WorldRuntime" where
  "remove_session session_id r =
     (let r = r\<lparr>wrt_staged_inputs := idx_erase session_id (wrt_staged_inputs r),
              wrt_viewers := idx_erase session_id (wrt_viewers r)\<rparr>
      in case idx_find (wrt_session_to_actor r) session_id of
           None \<Rightarrow> r
         | Some actor_id \<Rightarrow>
             r\<lparr>wrt_removed_actor_ids := insort_insert actor_id (wrt_removed_actor_ids r),
               wrt_actors := idx_erase actor_id (wrt_actors r),
               wrt_session_to_actor := idx_erase session_id (wrt_session_to_actor r)\<rparr>)"

section \<open>The tick\<close>

definition capture_phase ::
  "WorldRuntime \<Rightarrow> SimulationPhase \<Rightarrow> nat \<Rightarrow> (SimulationPhase \<times> SimulationPhaseContext) list \<Rightarrow>
   (SimulationPhase \<times> SimulationPhaseContext) list"
where
  "capture_phase r phase replication_update_count events =
     (if \<not> wrt_observer r then events
      else events @ [(phase,
        \<lparr>spc_server_tick = wrt_server_tick r, spc_actor_count = length (wrt_actors r),
         spc_viewer_count = length (wrt_viewers r), spc_staged_input_count = length (wrt_staged_inputs r),
         spc_replication_update_count = replication_update_count\<rparr>)])"

definition apply_staged :: "StagedInput option \<Rightarrow> ActorState \<Rightarrow> ActorState" where
  "apply_staged staged actor =
     (case staged of
        Some s \<Rightarrow>
          if sti_present s \<and> ic_input_seq (sti_input s) > act_last_applied_input_seq actor then
            actor\<lparr>act_x_mm := clamp_i32 (sint (act_x_mm actor) + sint (ic_move_x_mm (sti_input s))),
                  act_y_mm := clamp_i32 (sint (act_y_mm actor) + sint (ic_move_y_mm (sti_input s))),
                  act_yaw_mdeg := ic_yaw_mdeg (sti_input s),
                  act_last_applied_input_seq := ic_input_seq (sti_input s), act_dirty := True\<rparr>
          else actor
      | None \<Rightarrow> actor)"

definition apply_input :: "WorldRuntime \<Rightarrow> u32 \<Rightarrow> WorldRuntime" where
  "apply_input r session_id =
     (case idx_find (wrt_session_to_actor r) session_id of
        None \<Rightarrow> r
      | Some actor_id \<Rightarrow>
          (case idx_find (wrt_actors r) actor_id of
             None \<Rightarrow> r
           | Some actor \<Rightarrow>
               (let actor = apply_staged (idx_find (wrt_staged_inputs r) session_id) actor;
                    actor = update_actor_cells (wrt_config r) actor
                in r\<lparr>wrt_actors := idx_update actor_id (\<lambda>_. actor) (wrt_actors r)\<rparr>)))"

definition sample_of :: "u32 \<Rightarrow> ActorState \<Rightarrow> ActorTransformSample" where
  "sample_of tick actor =
     \<lparr>ats_actor_id = act_actor_id actor, ats_x_mm = act_x_mm actor, ats_y_mm = act_y_mm actor,
      ats_yaw_mdeg = act_yaw_mdeg actor, ats_last_applied_input_seq = act_last_applied_input_seq actor,
      ats_server_tick = tick\<rparr>"

definition push_history :: "u32 \<Rightarrow> u32 \<Rightarrow> ActorState \<Rightarrow> ActorState" where
  "push_history tick history_ticks actor =
     (let history = act_history actor @ [sample_of tick actor]
      in actor\<lparr>act_history := drop (length history - unat history_ticks) history\<rparr>)"

definition near :: "RuntimeConfig \<Rightarrow> ActorState \<Rightarrow> ActorState \<Rightarrow> bool" where
  "near config viewer_actor actor \<longleftrightarrow>
     sint (abs_i32 (act_cell_x actor - act_cell_x viewer_actor)) \<le> sint (rtc_interest_radius_cells config) \<and>
     sint (abs_i32 (act_cell_y actor - act_cell_y viewer_actor)) \<le> sint (rtc_interest_radius_cells config)"

definition interested_in :: "RuntimeConfig \<Rightarrow> (u32, ActorState) idx \<Rightarrow> ActorState \<Rightarrow> u32 list" where
  "interested_in config actors viewer_actor =
     foldl (\<lambda>visible (actor_id, actor).
        if actor_id = act_actor_id viewer_actor then visible
        else if near config viewer_actor actor then insort_insert actor_id visible else visible)
      [act_actor_id viewer_actor] actors"

fun limit_loop :: "nat \<Rightarrow> u32 list \<Rightarrow> u32 list \<Rightarrow> u32 list" where
  "limit_loop limit limited [] = limited"
| "limit_loop limit limited (actor_id # rest) =
     (if length limited \<ge> limit then limited
      else limit_loop limit (insort_insert actor_id limited) rest)"

definition desired_visible_of :: "RuntimeConfig \<Rightarrow> (u32, ActorState) idx \<Rightarrow> ActorState \<Rightarrow> u32 list" where
  "desired_visible_of config actors viewer_actor =
     (let desired_visible = interested_in config actors viewer_actor;
          limit = unat (rtc_max_interest_recipients_per_tick config)
      in if length desired_visible > limit
         then limit_loop limit [act_actor_id viewer_actor] desired_visible
         else desired_visible)"

definition removed_for :: "u32 list \<Rightarrow> u32 list \<Rightarrow> u32 list \<Rightarrow> u32 list" where
  "removed_for visible desired_visible removed_actor_ids =
     (let gone = filter (\<lambda>actor_id. actor_id \<notin> set desired_visible) visible
      in foldl (\<lambda>removed actor_id.
           if actor_id \<in> set visible \<and> actor_id \<notin> set removed then removed @ [actor_id] else removed)
         gone removed_actor_ids)"

definition dirty_samples_of :: "u32 \<Rightarrow> (u32, ActorState) idx \<Rightarrow> u32 list \<Rightarrow> ActorTransformSample list" where
  "dirty_samples_of tick actors desired_visible =
     concat (map (\<lambda>actor_id. case idx_find actors actor_id of
         None \<Rightarrow> []
       | Some actor \<Rightarrow> if \<not> act_dirty actor then [] else [sample_of tick actor]) desired_visible)"

definition all_samples_of :: "u32 \<Rightarrow> (u32, ActorState) idx \<Rightarrow> u32 list \<Rightarrow> ActorTransformSample list" where
  "all_samples_of tick actors desired_visible =
     concat (map (\<lambda>actor_id. case idx_find actors actor_id of
         None \<Rightarrow> [] | Some actor \<Rightarrow> [sample_of tick actor]) desired_visible)"

text \<open>The replication for one viewer that has an actor: the viewer after it, the update if one is
  sent, and whether the delta budget forced a snapshot.\<close>

definition replicate_to ::
  "WorldRuntime \<Rightarrow> u32 \<Rightarrow> ViewerState \<Rightarrow> ActorState \<Rightarrow> ViewerState \<times> ReplicationUpdate option \<times> bool"
where
  "replicate_to r session_id viewer viewer_actor =
     (let tick = wrt_server_tick r;
          desired_visible = desired_visible_of (wrt_config r) (wrt_actors r) viewer_actor;
          removed_for_viewer = removed_for (vws_visible_actor_ids viewer) desired_visible (wrt_removed_actor_ids r);
          viewer = (if desired_visible \<noteq> vws_visible_actor_ids viewer
            then viewer\<lparr>vws_snapshot_pending := True\<rparr> else viewer);
          viewer = (if vws_last_snapshot_tick viewer = 0 \<or>
              tick - vws_last_snapshot_tick viewer \<ge> rtc_snapshot_refresh_ticks (wrt_config r)
            then viewer\<lparr>vws_snapshot_pending := True\<rparr> else viewer);
          dirty_samples = dirty_samples_of tick (wrt_actors r) desired_visible;
          over_budget = (\<not> vws_snapshot_pending viewer \<and>
            length dirty_samples > unat (rtc_max_delta_actors_per_tick (wrt_config r)));
          viewer = (if over_budget then viewer\<lparr>vws_snapshot_pending := True\<rparr> else viewer)
      in if vws_snapshot_pending viewer then
           (viewer\<lparr>vws_snapshot_pending := False, vws_last_snapshot_tick := tick,
              vws_visible_actor_ids := desired_visible\<rparr>,
            Some \<lparr>rup_session_id = session_id, rup_kind = RkSnapshot, rup_server_tick = tick,
              rup_self_actor_id = act_actor_id viewer_actor,
              rup_actors = all_samples_of tick (wrt_actors r) desired_visible,
              rup_removed_actor_ids = removed_for_viewer\<rparr>, over_budget)
         else
           (viewer\<lparr>vws_visible_actor_ids := desired_visible\<rparr>,
            (if dirty_samples \<noteq> [] \<or> removed_for_viewer \<noteq> [] then
               Some \<lparr>rup_session_id = session_id, rup_kind = RkDelta, rup_server_tick = tick,
                 rup_self_actor_id = act_actor_id viewer_actor, rup_actors = dirty_samples,
                 rup_removed_actor_ids = removed_for_viewer\<rparr>
             else None), over_budget))"

definition replicate_viewer ::
  "WorldRuntime \<times> ReplicationUpdate list \<Rightarrow> u32 \<Rightarrow> WorldRuntime \<times> ReplicationUpdate list"
where
  "replicate_viewer st session_id =
     (let (r, outbound) = st
      in case idx_find (wrt_viewers r) session_id of
           None \<Rightarrow> (r, outbound)
         | Some viewer \<Rightarrow>
             (case vws_actor_id viewer of
                None \<Rightarrow> (r, outbound)
              | Some actor_id \<Rightarrow>
                  (case idx_find (wrt_actors r) actor_id of
                     None \<Rightarrow> (r, outbound)
                   | Some viewer_actor \<Rightarrow>
                       (let (viewer', update, over_budget) = replicate_to r session_id viewer viewer_actor;
                            r = r\<lparr>wrt_viewers := idx_update session_id (\<lambda>_. viewer') (wrt_viewers r)\<rparr>;
                            r = (if over_budget
                              then r\<lparr>wrt_delta_budget_snapshot_total := wrt_delta_budget_snapshot_total r + 1\<rparr> else r)
                        in case update of
                             None \<Rightarrow> (r, outbound)
                           | Some u \<Rightarrow>
                               (if rup_kind u = RkSnapshot
                                then r\<lparr>wrt_snapshot_total := wrt_snapshot_total r + 1\<rparr>
                                else r\<lparr>wrt_delta_total := wrt_delta_total r + 1\<rparr>,
                                outbound @ [u])))))"

definition tick ::
  "(u32 list \<Rightarrow> u32 list) \<Rightarrow> (u32 list \<Rightarrow> u32 list) \<Rightarrow> WorldRuntime \<Rightarrow>
   WorldRuntime \<times> ReplicationUpdate list \<times> (SimulationPhase \<times> SimulationPhaseContext) list"
where
  "tick its itv r =
     (let r = r\<lparr>wrt_server_tick := wrt_server_tick r + 1, wrt_tick_total := wrt_tick_total r + 1\<rparr>;
          events = capture_phase r SpTickBegin 0 [];
          r = foldl apply_input r (its (map fst (wrt_session_to_actor r)));
          events = capture_phase r SpInputsApplied 0 events;
          r = r\<lparr>wrt_actors := idx_map
                (push_history (wrt_server_tick r) (rtc_history_ticks (wrt_config r))) (wrt_actors r)\<rparr>;
          events = capture_phase r SpActorsAdvanced 0 events;
          (r, outbound) = foldl replicate_viewer (r, []) (itv (map fst (wrt_viewers r)));
          events = capture_phase r SpReplicationComputed (length outbound) events;
          r = r\<lparr>wrt_actors := idx_map (\<lambda>actor. actor\<lparr>act_dirty := False\<rparr>) (wrt_actors r),
                wrt_removed_actor_ids := []\<rparr>;
          events = capture_phase r SpTickEnd (length outbound) events
      in (r, outbound, events))"

section \<open>Queries\<close>

definition rewind_at_or_before :: "RewindQuery \<Rightarrow> WorldRuntime \<Rightarrow> RewindResult option" where
  "rewind_at_or_before query r =
     (case idx_find (wrt_actors r) (rwq_actor_id query) of
        None \<Rightarrow> None
      | Some actor \<Rightarrow>
          map_option (\<lambda>s. \<lparr>rwr_sample = s, rwr_exact_tick = (ats_server_tick s = rwq_server_tick query)\<rparr>)
            (List.find (\<lambda>s. ats_server_tick s \<le> rwq_server_tick query) (rev (act_history actor))))"

definition actor_id_for_session :: "u32 \<Rightarrow> WorldRuntime \<Rightarrow> u32 option" where
  "actor_id_for_session session_id r = idx_find (wrt_session_to_actor r) session_id"

definition runtime_snapshot :: "WorldRuntime \<Rightarrow> RuntimeSnapshot" where
  "runtime_snapshot r =
     \<lparr>rsn_server_tick = wrt_server_tick r, rsn_tick_total = wrt_tick_total r,
      rsn_snapshot_total = wrt_snapshot_total r, rsn_delta_total = wrt_delta_total r,
      rsn_delta_budget_snapshot_total = wrt_delta_budget_snapshot_total r,
      rsn_stale_input_reject_total = wrt_stale_input_reject_total r,
      rsn_actor_count = length (wrt_actors r)\<rparr>"

end
