(* ===== verification/World_Replication.thy ===== *)
theory World_Replication
  imports World_Runtime
begin

text \<open>
  What the world runtime guarantees over every run: its tables stay consistent, a client that applies
  the replication updates holds exactly the actors the runtime decided to show it, and a rewind
  returns the pose the actor had at the tick asked for.
\<close>

section \<open>The fixed-step driver\<close>

lemma to_i64_id: "- (2 ^ 63) \<le> n \<Longrightarrow> n < 2 ^ 63 \<Longrightarrow> to_i64 n = n"
  by (simp add: to_i64_def signed_take_bit_int_eq_self)

lemma consume_loop_spec:
  assumes "consume_loop step limit acc n = (acc', n')" "0 < step" "0 \<le> acc" "acc < 2 ^ 63"
  shows "acc' + int n' * step = acc + int n * step \<and> n \<le> n' \<and> (n' < limit \<longrightarrow> acc' < step) \<and>
    (n \<le> limit \<longrightarrow> n' \<le> limit) \<and> acc' \<ge> 0"
  using assms
proof (induction step limit acc n arbitrary: acc' n' rule: consume_loop.induct)
  case (1 step limit acc n)
  show ?case
  proof (cases "acc \<ge> step \<and> n < limit")
    case True
    then have id: "to_i64 (acc - step) = acc - step" using "1.prems" by (intro to_i64_id) simp_all
    then have rec: "consume_loop step limit (acc - step) (n + 1) = (acc', n')"
      using "1.prems" True by (simp add: consume_loop.simps [of step limit acc n])
    from "1.IH" [unfolded id, OF True rec] "1.prems" True show ?thesis
      by (auto simp: algebra_simps)
  next
    case False
    then have "acc' = acc" "n' = n"
      using "1.prems" by (auto simp: consume_loop.simps [of step limit acc n])
    with False "1.prems" show ?thesis by auto
  qed
qed

text \<open>A size that is below the sign bit is read by \<open>static_cast<long long>\<close> as it is.\<close>

lemma sint_small: "uint (w :: u64) < 2 ^ 63 \<Longrightarrow> sint w = uint w"
  using to_i64_id [of "uint w"] order.trans [OF _ uint_ge_0 [of w], of "- (2 ^ 63)"] by (simp add: sint_uint to_i64_def)

text \<open>C29.
  The fixed-step driver returns, never asks for more than the configured number of catch-up steps, and loses no
  time below that cap: the steps taken and what stays accumulated add up to the time that was there, and less
  than one step stays. This holds whenever the cap, the step length times the number of catch-up steps, and the
  accumulated time fit the 64-bit clock duration.\<close>

theorem consume_elapsed_accounts:
  assumes "0 < fs_step_duration d" and "0 \<le> fs_accumulator d" and "0 < elapsed"
    and "fs_accumulator d + elapsed < 2 ^ 63" and "fs_step_duration d * uint (fs_max_catch_up_steps d) < 2 ^ 63"
    and "consume_elapsed elapsed d = (d', steps)"
  shows "steps \<le> unat (fs_max_catch_up_steps d) \<and> 0 \<le> fs_accumulator d' \<and> fs_accumulator d' < fs_step_duration d \<and>
    fs_accumulator d' + int steps * fs_step_duration d =
      min (fs_accumulator d + elapsed) (fs_step_duration d * uint (fs_max_catch_up_steps d)) \<and>
    fs_step_duration d' = fs_step_duration d \<and> fs_max_catch_up_steps d' = fs_max_catch_up_steps d"
proof -
  let ?n = "unat (fs_max_catch_up_steps d)" and ?cap = "fs_step_duration d * uint (fs_max_catch_up_steps d)"
  let ?acc = "min (fs_accumulator d + elapsed) ?cap"
  have cap: "0 \<le> ?cap" "uint (fs_max_catch_up_steps d) \<le> ?cap" using assms(1) by (simp_all add: mult_le_cancel_right1)
  then have "sint (fs_max_catch_up_steps d) = uint (fs_max_catch_up_steps d)" using assms(5) by (intro sint_small) linarith
  moreover have "to_i64 ?cap = ?cap" by (rule to_i64_id) (use cap assms(5) in linarith)+
  moreover have "to_i64 (fs_accumulator d + elapsed) = fs_accumulator d + elapsed"
    by (rule to_i64_id) (use assms(2-4) in linarith)+
  ultimately obtain a where a: "consume_loop (fs_step_duration d) ?n ?acc 0 = (a, steps)"
    and d': "d' = d\<lparr>fs_accumulator := a\<rparr>"
    using assms(3,6) by (auto simp: consume_elapsed_def Let_def min_def split: prod.splits if_splits)
  have acc: "0 \<le> ?acc" "?acc < 2 ^ 63" using assms(2-5) cap by (auto simp: min_def)
  note spec = consume_loop_spec [OF a assms(1) acc]
  have "a < fs_step_duration d"
  proof (cases "steps < ?n")
    case False
    with spec have "int steps = uint (fs_max_catch_up_steps d)" by simp
    moreover have "a + int steps * fs_step_duration d \<le> ?cap" using spec by simp
    ultimately have "a \<le> 0" by (simp add: mult.commute)
    then show ?thesis using assms(1) by linarith
  qed (use spec in blast)
  with spec acc show ?thesis by (simp add: d')
qed

theorem consume_elapsed_accounts_witness:
  "let d = new_fixed_step_driver 30 4 in
   snd (consume_elapsed 40000000 d) = 1 \<and> fs_accumulator (fst (consume_elapsed 40000000 d)) < fs_step_duration d"
proof -
  let ?d = "new_fixed_step_driver 30 4"
  have pos: "0 < fs_step_duration ?d" "0 \<le> fs_accumulator ?d" by code_simp+
  have "(0 :: int) < 40000000" by simp
  moreover have "fs_accumulator ?d + 40000000 < 2 ^ 63" "fs_step_duration ?d * uint (fs_max_catch_up_steps ?d) < 2 ^ 63"
    by (simp_all add: new_fixed_step_driver_def max_def)
  ultimately have "fs_accumulator (fst (consume_elapsed 40000000 ?d)) < fs_step_duration ?d"
    using consume_elapsed_accounts [OF pos, of 40000000 "fst (consume_elapsed 40000000 ?d)" "snd (consume_elapsed 40000000 ?d)"]
    by simp
  moreover have "snd (consume_elapsed 40000000 ?d) = 1"
    by (simp add: consume_elapsed_def new_fixed_step_driver_def max_def to_i64_id consume_loop.simps)
  ultimately show ?thesis by (simp add: Let_def)
qed

text \<open>The bound on the cap is needed. The largest \<open>std::size_t\<close>, which reads as "no limit", is -1 as a
  \<open>long long\<close>: the cap is then one step below zero, no step is ever taken and the elapsed time is lost.\<close>

lemma unlimited_catch_up_loses_time:
  assumes "0 < fs_step_duration d" "fs_step_duration d < 2 ^ 63" "0 \<le> fs_accumulator d" "0 < elapsed"
    and "fs_accumulator d + elapsed < 2 ^ 63" "fs_max_catch_up_steps d = - 1"
  shows "consume_elapsed elapsed d = (d\<lparr>fs_accumulator := - fs_step_duration d\<rparr>, 0)"
  using assms by (simp add: consume_elapsed_def to_i64_id consume_loop.simps)

section \<open>Cells\<close>

lemma sint_word_of_int_id: "- (2 ^ 31) \<le> x \<Longrightarrow> x < 2 ^ 31 \<Longrightarrow> sint (word_of_int x :: i32) = x"
  by (simp add: sint_sbintrunc' signed_take_bit_int_eq_self)

lemma i32_range: "- (2 ^ 31) \<le> sint (w :: i32)" "sint (w :: i32) < 2 ^ 31"
  using sint_ge [of w] sint_lt [of w] by simp_all

lemma ceiling_div: "0 < c \<Longrightarrow> (c - v - 1) div c = - (v div c)" for v c :: int
proof -
  assume c: "0 < c"
  have "c - v - 1 = (c - 1 - v mod c) + c * (- (v div c))"
    by (simp add: algebra_simps)
  moreover have "(c - 1 - v mod c) div c = 0"
    using c pos_mod_bound [OF c, of v] pos_mod_sign [OF c, of v] by (simp add: div_pos_pos_trivial)
  ultimately show ?thesis using c by (metis add.right_neutral div_mult_self2 less_irrefl)
qed

text \<open>The interest grid is a proper grid: a coordinate lies in the cell whose index is its quotient by the
  cell size rounded down, on both sides of the origin, as long as the intermediate sum of the code fits
  an \<open>int\<close>.\<close>

lemma cell_coord_floor:
  assumes "0 < sint cs" and "sint cs - sint v \<le> 2 ^ 31"
  shows "sint (cell_coord v cs) = sint v div sint cs"
proof (cases "0 \<le> sint v")
  case True
  have "sint v div sint cs \<le> sint v" using True assms(1) zdiv_mono2 [of "sint v" 1 "sint cs"] by simp
  moreover have "0 \<le> sint v div sint cs" using True assms(1) by (simp add: pos_imp_zdiv_nonneg_iff)
  ultimately show ?thesis
    using True assms(1) i32_range [of v]
    by (simp add: cell_coord_def signed_divide_int_def sint_word_of_int_id sgn_if)
next
  case False
  let ?n = "sint cs - sint v - 1"
  have range: "- (2 ^ 31) \<le> ?n" "?n < 2 ^ 31" using assms False by auto
  have "(- v) + cs - 1 = word_of_int ?n"
    by simp
  then have n: "sint ((- v) + cs - 1) = ?n"
    using sint_word_of_int_id [OF range] by simp
  have q: "?n div sint cs = - (sint v div sint cs)" by (rule ceiling_div [OF assms(1)])
  have "0 \<le> ?n div sint cs" "?n div sint cs \<le> ?n"
    using assms False zdiv_mono2 [of ?n 1 "sint cs"] by (simp_all add: pos_imp_zdiv_nonneg_iff)
  then have "sint (word_of_int (- (?n div sint cs)) :: i32) = - (?n div sint cs)"
    using range by (intro sint_word_of_int_id) auto
  then show ?thesis
    using False assms n q by (simp add: cell_coord_def signed_divide_int_def sgn_if)
qed

section \<open>Visibility\<close>

abbreviation std_set :: "u32 list \<Rightarrow> bool" where
  "std_set xs \<equiv> sorted xs \<and> distinct xs"

lemma std_set_eq: "std_set xs \<Longrightarrow> std_set ys \<Longrightarrow> set xs = set ys \<Longrightarrow> xs = ys"
  by (simp add: sorted_distinct_set_unique)

lemma std_set_insert [simp]:
  "std_set xs \<Longrightarrow> std_set (insort_insert x xs)" "set (insort_insert x xs) = insert x (set xs)"
  by (auto simp: sorted_insort_insert distinct_insort_insert set_insort_insert)

lemma interested_in_props:
  "std_set (interested_in c actors va) \<and>
   set (interested_in c actors va) = insert (act_actor_id va)
     {i. \<exists>a. (i, a) \<in> set actors \<and> near c va a}"
proof -
  let ?f = "\<lambda>visible (actor_id, actor). if actor_id = act_actor_id va then visible
    else if near c va actor then insort_insert actor_id visible else visible"
  have "std_set (foldl ?f vis xs) \<and> set (foldl ?f vis xs) =
      set vis \<union> {i. \<exists>a. (i, a) \<in> set xs \<and> near c va a}"
    if "std_set vis" "act_actor_id va \<in> set vis" for vis xs
    using that
  proof (induction xs arbitrary: vis)
    case (Cons x xs)
    obtain i a where x: "x = (i, a)" by (cases x)
    have step: "std_set (?f vis x)" "act_actor_id va \<in> set (?f vis x)"
      using Cons.prems by (simp_all add: x)
    have "set (?f vis x) \<union> {i. \<exists>a. (i, a) \<in> set xs \<and> near c va a} =
        set vis \<union> {i. \<exists>a. (i, a) \<in> set (x # xs) \<and> near c va a}"
      using Cons.prems by (auto simp: x)
    with Cons.IH [OF step] show ?case by simp
  qed simp
  from this [of "[act_actor_id va]" actors] show ?thesis by (simp add: interested_in_def)
qed

lemma limit_loop_props:
  "std_set lim \<Longrightarrow> std_set (limit_loop n lim xs) \<and> set lim \<subseteq> set (limit_loop n lim xs) \<and>
     set (limit_loop n lim xs) \<subseteq> set lim \<union> set xs \<and> length (limit_loop n lim xs) \<le> max n (length lim)"
proof (induction n lim xs rule: limit_loop.induct)
  case (2 n lim x xs)
  show ?case
  proof (cases "length lim \<ge> n")
    case False
    have "length (insort_insert x lim) \<le> Suc (length lim)"
      by (simp add: insort_insert_key_def)
    with False 2 show ?thesis by (auto simp: max_def split: if_splits)
  qed (use 2 in auto)
qed simp

lemma desired_visible_props:
  assumes "rtc_max_interest_recipients_per_tick c \<noteq> 0"
  shows "std_set (desired_visible_of c actors va) \<and> act_actor_id va \<in> set (desired_visible_of c actors va) \<and>
    set (desired_visible_of c actors va) \<subseteq> insert (act_actor_id va) (fst ` set actors) \<and>
    length (desired_visible_of c actors va) \<le> unat (rtc_max_interest_recipients_per_tick c)"
proof -
  have "1 \<le> unat (rtc_max_interest_recipients_per_tick c)"
    using assms by (simp add: unat_gt_0 Suc_leI)
  with interested_in_props [of c actors va]
    limit_loop_props [of "[act_actor_id va]" "unat (rtc_max_interest_recipients_per_tick c)"
      "interested_in c actors va"]
  show ?thesis
    by (force simp: desired_visible_of_def Let_def max_def)
qed

lemma desired_visible_exact:
  assumes "length (interested_in c actors va) \<le> unat (rtc_max_interest_recipients_per_tick c)"
  shows "set (desired_visible_of c actors va) =
    insert (act_actor_id va) {i. \<exists>a. (i, a) \<in> set actors \<and> near c va a}"
  using assms interested_in_props [of c actors va] by (simp add: desired_visible_of_def Let_def)

section \<open>Consistency of the tables\<close>

definition runtime_ok :: "WorldRuntime \<Rightarrow> bool" where
  "runtime_ok r \<longleftrightarrow>
     idx_invar (wrt_session_to_actor r) \<and> idx_invar (wrt_actors r) \<and> idx_invar (wrt_viewers r) \<and>
     (\<forall>s a. idx_find (wrt_session_to_actor r) s = Some a \<longrightarrow>
        (\<exists>ac. idx_find (wrt_actors r) a = Some ac \<and> act_session_id ac = s)) \<and>
     (\<forall>a ac. idx_find (wrt_actors r) a = Some ac \<longrightarrow>
        act_actor_id ac = a \<and> idx_find (wrt_session_to_actor r) (act_session_id ac) = Some a \<and>
        a < wrt_next_actor_id r \<and> length (act_history ac) \<le> unat (rtc_history_ticks (wrt_config r))) \<and>
     (\<forall>s v. idx_find (wrt_viewers r) s = Some v \<longrightarrow>
        vws_actor_id v = idx_find (wrt_session_to_actor r) s \<and> std_set (vws_visible_actor_ids v) \<and>
        (\<forall>i \<in> set (vws_visible_actor_ids v). i < wrt_next_actor_id r) \<and>
        length (vws_visible_actor_ids v) \<le> unat (rtc_max_interest_recipients_per_tick (wrt_config r))) \<and>
     (\<forall>s. idx_find (wrt_viewers r) s = None \<longleftrightarrow> idx_find (wrt_session_to_actor r) s = None) \<and>
     (\<forall>i \<in> set (wrt_removed_actor_ids r). i < wrt_next_actor_id r \<and> idx_find (wrt_actors r) i = None) \<and>
     rtc_max_interest_recipients_per_tick (wrt_config r) \<noteq> 0"

lemma runtime_ok_new: "runtime_ok (new_world_runtime c)"
proof -
  have "rtc_max_interest_recipients_per_tick (sanitize_config c) \<noteq> 0"
    by (simp add: sanitize_config_def Let_def)
  then show ?thesis
    by (simp add: runtime_ok_def new_world_runtime_def idx.invar_empty idx.find_empty)
qed

lemma runtime_okD:
  assumes "runtime_ok r"
  shows "idx_invar (wrt_session_to_actor r)" "idx_invar (wrt_actors r)" "idx_invar (wrt_viewers r)"
    "rtc_max_interest_recipients_per_tick (wrt_config r) \<noteq> 0"
    "idx_find (wrt_viewers r) s = None \<longleftrightarrow> idx_find (wrt_session_to_actor r) s = None"
  using assms by (simp_all add: runtime_ok_def)

lemma ok_session:
  "runtime_ok r \<Longrightarrow> idx_find (wrt_session_to_actor r) s = Some a \<Longrightarrow>
     \<exists>ac. idx_find (wrt_actors r) a = Some ac \<and> act_session_id ac = s"
  by (simp add: runtime_ok_def)

lemma ok_actor:
  "runtime_ok r \<Longrightarrow> idx_find (wrt_actors r) a = Some ac \<Longrightarrow>
     act_actor_id ac = a \<and> idx_find (wrt_session_to_actor r) (act_session_id ac) = Some a \<and>
     a < wrt_next_actor_id r \<and> length (act_history ac) \<le> unat (rtc_history_ticks (wrt_config r))"
  by (simp add: runtime_ok_def)

lemma ok_viewer:
  "runtime_ok r \<Longrightarrow> idx_find (wrt_viewers r) s = Some v \<Longrightarrow>
     vws_actor_id v = idx_find (wrt_session_to_actor r) s \<and> std_set (vws_visible_actor_ids v) \<and>
     (\<forall>i \<in> set (vws_visible_actor_ids v). i < wrt_next_actor_id r) \<and>
     length (vws_visible_actor_ids v) \<le> unat (rtc_max_interest_recipients_per_tick (wrt_config r))"
  unfolding runtime_ok_def by blast

lemma ok_removed:
  "runtime_ok r \<Longrightarrow> i \<in> set (wrt_removed_actor_ids r) \<Longrightarrow>
     i < wrt_next_actor_id r \<and> idx_find (wrt_actors r) i = None"
  unfolding runtime_ok_def by blast

lemma unat_suc: "w \<noteq> - 1 \<Longrightarrow> unat (w + 1) = Suc (unat w)" for w :: u32
  using unatSuc [of w] by (simp add: add.commute eq_neg_iff_add_eq_0)

lemma word_less_suc: "w \<noteq> - 1 \<Longrightarrow> x \<le> w \<Longrightarrow> x < w + 1" for w x :: u32
  by (simp add: word_less_nat_alt word_le_nat_alt unat_suc)

lemma ensure_actor_tables:
  assumes ok: "runtime_ok r" and none: "idx_find (wrt_session_to_actor r) s = None"
  defines "n \<equiv> wrt_next_actor_id r" and "r' \<equiv> fst (ensure_actor_for_session s r)"
  shows "idx_find (wrt_session_to_actor r') x = (if x = s then Some n else idx_find (wrt_session_to_actor r) x)"
    "idx_find (wrt_actors r') x = (if x = n then
       Some ((update_actor_cells (wrt_config r) (new_actor_state n s))\<lparr>act_dirty := True\<rparr>)
       else idx_find (wrt_actors r) x)"
    "idx_find (wrt_viewers r') x = (if x = s then
       Some (new_viewer_state\<lparr>vws_actor_id := Some n, vws_snapshot_pending := True\<rparr>)
       else idx_find (wrt_viewers r) x)"
    "wrt_next_actor_id r' = n + 1" "wrt_config r' = wrt_config r" "wrt_server_tick r' = wrt_server_tick r"
    "wrt_removed_actor_ids r' = wrt_removed_actor_ids r"
    "idx_invar (wrt_session_to_actor r')" "idx_invar (wrt_actors r')" "idx_invar (wrt_viewers r')"
proof -
  have fresh: "idx_find (wrt_actors r) n = None"
    using ok_actor [OF ok, of n] by (cases "idx_find (wrt_actors r) n") (auto simp: n_def)
  have noview: "idx_find (wrt_viewers r) s = None" using runtime_okD(5) [OF ok] none by simp
  note defs = r'_def n_def ensure_actor_for_session_def none noview Let_def
  show "idx_find (wrt_actors r') x = (if x = n then
       Some ((update_actor_cells (wrt_config r) (new_actor_state n s))\<lparr>act_dirty := True\<rparr>)
       else idx_find (wrt_actors r) x)"
    using fresh by (simp add: defs idx.find_emplace)
qed (use runtime_okD(1-3) [OF ok] none runtime_okD(5) [OF ok, of s] in
  \<open>simp_all add: r'_def n_def ensure_actor_for_session_def Let_def idx.invar_emplace\<close>)

lemma ensure_actor_ok:
  assumes "runtime_ok r" and "wrt_next_actor_id r \<noteq> - 1"
  shows "runtime_ok (fst (ensure_actor_for_session s r))"
proof (cases "idx_find (wrt_session_to_actor r) s")
  case None
  note t = ensure_actor_tables [OF assms(1) None]
  let ?n = "wrt_next_actor_id r"
  have less: "i < ?n \<Longrightarrow> i < ?n + 1" for i using word_less_suc [OF assms(2), of i] by simp
  have n: "?n < ?n + 1" using word_less_suc [OF assms(2), of ?n] by simp
  have no_n: "idx_find (wrt_session_to_actor r) x \<noteq> Some ?n" for x
    using ok_session [OF assms(1), of x ?n] ok_actor [OF assms(1), of ?n] by auto
  have no_rem: "?n \<notin> set (wrt_removed_actor_ids r)" using ok_removed [OF assms(1), of ?n] by auto
  have no_s: "idx_find (wrt_actors r) a = Some ac \<Longrightarrow> act_session_id ac \<noteq> s" for a ac
    using ok_actor [OF assms(1), of a ac] None by auto
  show ?thesis
    unfolding runtime_ok_def t
  proof (intro conjI allI impI ballI, goal_cases)
    case (4 x a)
    then show ?case using ok_session [OF assms(1), of x a] no_n
      by (auto simp: update_actor_cells_def new_actor_state_def split: if_splits)
  next
    case (5 a ac)
    then show ?case using ok_actor [OF assms(1), of a ac]
      by (auto simp: update_actor_cells_def new_actor_state_def split: if_splits)
  qed (use t assms ok_actor [OF assms(1)] ok_viewer [OF assms(1)] ok_removed [OF assms(1)] less n no_s no_rem
      runtime_okD [OF assms(1)] in \<open>auto simp: update_actor_cells_def new_actor_state_def
      new_viewer_state_def split: if_splits\<close>)
qed (simp add: ensure_actor_for_session_def assms)

lemma stage_input_tables:
  "wrt_session_to_actor (fst (stage_input s i r)) = wrt_session_to_actor (fst (ensure_actor_for_session s r))"
  "wrt_actors (fst (stage_input s i r)) = wrt_actors (fst (ensure_actor_for_session s r))"
  "wrt_viewers (fst (stage_input s i r)) = wrt_viewers (fst (ensure_actor_for_session s r))"
  "wrt_next_actor_id (fst (stage_input s i r)) = wrt_next_actor_id (fst (ensure_actor_for_session s r))"
  "wrt_config (fst (stage_input s i r)) = wrt_config (fst (ensure_actor_for_session s r))"
  "wrt_server_tick (fst (stage_input s i r)) = wrt_server_tick (fst (ensure_actor_for_session s r))"
  "wrt_removed_actor_ids (fst (stage_input s i r)) = wrt_removed_actor_ids (fst (ensure_actor_for_session s r))"
  by (simp_all add: stage_input_def Let_def split_beta)

lemma stage_input_ok:
  assumes "runtime_ok r" and "wrt_next_actor_id r \<noteq> - 1"
  shows "runtime_ok (fst (stage_input s i r))"
  using ensure_actor_ok [OF assms, of s] unfolding runtime_ok_def stage_input_tables .

lemma remove_session_tables:
  "idx_find (wrt_session_to_actor (remove_session s r)) x =
     (if x = s then None else idx_find (wrt_session_to_actor r) x)"
  "idx_find (wrt_actors (remove_session s r)) a =
     (if idx_find (wrt_session_to_actor r) s = Some a then None else idx_find (wrt_actors r) a)"
  "idx_find (wrt_viewers (remove_session s r)) x = (if x = s then None else idx_find (wrt_viewers r) x)"
  "wrt_next_actor_id (remove_session s r) = wrt_next_actor_id r"
  "wrt_config (remove_session s r) = wrt_config r" "wrt_server_tick (remove_session s r) = wrt_server_tick r"
  "set (wrt_removed_actor_ids (remove_session s r)) =
     set (wrt_removed_actor_ids r) \<union> set_option (idx_find (wrt_session_to_actor r) s)"
  by (auto simp: remove_session_def idx.find_erase Let_def split: option.split)

lemma remove_session_invars:
  assumes "runtime_ok r"
  shows "idx_invar (wrt_session_to_actor (remove_session s r))" "idx_invar (wrt_actors (remove_session s r))"
    "idx_invar (wrt_viewers (remove_session s r))"
  using runtime_okD(1-3) [OF assms]
  by (simp_all add: remove_session_def idx.invar_erase Let_def split: option.split)

lemma remove_session_ok:
  assumes ok: "runtime_ok r"
  shows "runtime_ok (remove_session s r)"
  unfolding runtime_ok_def remove_session_tables
proof (intro conjI allI impI ballI, goal_cases)
  case (4 x a)
  then show ?case
    using ok_session [OF ok, of x a] ok_session [OF ok, of s a] by (auto split: if_splits)
next
  case (5 a ac)
  then show ?case using ok_actor [OF ok, of a ac] by (auto split: if_splits)
next
  case (15 i)
  then show ?case using ok_removed [OF ok, of i] ok_session [OF ok, of s i] ok_actor [OF ok, of i] by auto
qed (use remove_session_invars [OF ok] ok_actor [OF ok] ok_viewer [OF ok] ok_removed [OF ok] runtime_okD [OF ok]
    in \<open>auto split: if_splits\<close>)

section \<open>The phases of a tick\<close>

type_synonym pose = "i32 \<times> i32 \<times> i32 \<times> u32"

definition pose_of :: "ActorState \<Rightarrow> pose" where
  "pose_of a = (act_x_mm a, act_y_mm a, act_yaw_mdeg a, act_last_applied_input_seq a)"

definition sample_pose :: "ActorTransformSample \<Rightarrow> pose" where
  "sample_pose s = (ats_x_mm s, ats_y_mm s, ats_yaw_mdeg s, ats_last_applied_input_seq s)"

lemma sample_pose_of [simp]:
  "sample_pose (sample_of t a) = pose_of a" "ats_actor_id (sample_of t a) = act_actor_id a"
  "ats_server_tick (sample_of t a) = t"
  by (simp_all add: sample_pose_def sample_of_def pose_of_def)

text \<open>What applying inputs may do to an actor: a pose changes only together with the dirty flag.\<close>

definition advanced :: "ActorState \<Rightarrow> ActorState \<Rightarrow> bool" where
  "advanced a a' \<longleftrightarrow> act_actor_id a' = act_actor_id a \<and> act_session_id a' = act_session_id a \<and>
     act_history a' = act_history a \<and> (act_dirty a' \<or> \<not> act_dirty a \<and> pose_of a' = pose_of a)"

lemma advanced_refl [simp]: "advanced a a" by (auto simp: advanced_def)

lemma advanced_trans: "advanced a b \<Longrightarrow> advanced b c \<Longrightarrow> advanced a c"
  by (auto simp: advanced_def)

lemma advanced_apply: "advanced a (update_actor_cells c (apply_staged st a))"
  by (auto simp: advanced_def update_actor_cells_def apply_staged_def pose_of_def split: option.splits)

definition only_actors_advanced :: "WorldRuntime \<Rightarrow> WorldRuntime \<Rightarrow> bool" where
  "only_actors_advanced r r' \<longleftrightarrow> r' = r\<lparr>wrt_actors := wrt_actors r'\<rparr> \<and>
     (idx_invar (wrt_actors r) \<longrightarrow> idx_invar (wrt_actors r')) \<and>
     (\<forall>a. rel_option advanced (idx_find (wrt_actors r) a) (idx_find (wrt_actors r') a))"

lemma apply_input_advances: "only_actors_advanced r (apply_input r s)"
proof -
  have refl: "rel_option advanced x x" for x by (cases x) simp_all
  show ?thesis
    by (auto simp: only_actors_advanced_def apply_input_def refl advanced_apply Let_def split: option.splits)
qed

lemma only_actors_advanced_trans:
  assumes "only_actors_advanced r r'" and "only_actors_advanced r' r''"
  shows "only_actors_advanced r r''"
proof -
  have "rel_option advanced x y \<Longrightarrow> rel_option advanced y z \<Longrightarrow> rel_option advanced x z" for x y z
    by (cases x; cases y; cases z) (auto intro: advanced_trans)
  moreover have "r'' = r\<lparr>wrt_actors := wrt_actors r''\<rparr>"
  proof -
    obtain A B where "r' = r\<lparr>wrt_actors := A\<rparr>" "r'' = r'\<lparr>wrt_actors := B\<rparr>"
      using assms unfolding only_actors_advanced_def by blast
    then show ?thesis by simp
  qed
  ultimately show ?thesis
    using assms unfolding only_actors_advanced_def by blast
qed

lemma apply_inputs_advance: "only_actors_advanced r (foldl apply_input r ss)"
proof (induction ss arbitrary: r)
  case Nil
  have "rel_option advanced x x" for x by (cases x) simp_all
  then show ?case by (simp add: only_actors_advanced_def)
next
  case (Cons s ss)
  from only_actors_advanced_trans [OF apply_input_advances Cons [of "apply_input r s"]]
  show ?case by simp
qed

section \<open>Replication to the viewers\<close>

definition view_after :: "WorldRuntime \<Rightarrow> u32 \<Rightarrow> ViewerState \<Rightarrow> ViewerState \<times> ReplicationUpdate option" where
  "view_after r s v =
     (case vws_actor_id v of None \<Rightarrow> (v, None) | Some a \<Rightarrow>
        (case idx_find (wrt_actors r) a of None \<Rightarrow> (v, None) | Some va \<Rightarrow>
           (fst (replicate_to r s v va), fst (snd (replicate_to r s v va)))))"

definition same_world :: "WorldRuntime \<Rightarrow> WorldRuntime \<Rightarrow> bool" where
  "same_world r r' \<longleftrightarrow> wrt_actors r' = wrt_actors r \<and> wrt_config r' = wrt_config r \<and>
     wrt_server_tick r' = wrt_server_tick r \<and> wrt_removed_actor_ids r' = wrt_removed_actor_ids r \<and>
     wrt_session_to_actor r' = wrt_session_to_actor r \<and> wrt_next_actor_id r' = wrt_next_actor_id r \<and>
     wrt_staged_inputs r' = wrt_staged_inputs r"

lemma view_after_same: "same_world r r' \<Longrightarrow> view_after r' = view_after r"
proof -
  assume same: "same_world r r'"
  then have eqs: "wrt_actors r' = wrt_actors r" "wrt_config r' = wrt_config r"
      "wrt_server_tick r' = wrt_server_tick r" "wrt_removed_actor_ids r' = wrt_removed_actor_ids r"
    by (simp_all add: same_world_def)
  have rt: "replicate_to r' = replicate_to r"
    unfolding replicate_to_def eqs ..
  show ?thesis unfolding view_after_def eqs rt ..
qed

lemma replicate_viewer_step:
  "same_world r (fst (replicate_viewer (r, out) s)) \<and>
   (idx_invar (wrt_viewers r) \<longrightarrow> idx_invar (wrt_viewers (fst (replicate_viewer (r, out) s)))) \<and>
   idx_find (wrt_viewers (fst (replicate_viewer (r, out) s))) x =
     (if x = s then map_option (\<lambda>v. fst (view_after r s v)) (idx_find (wrt_viewers r) s)
      else idx_find (wrt_viewers r) x) \<and>
   snd (replicate_viewer (r, out) s) = out @
     (case idx_find (wrt_viewers r) s of None \<Rightarrow> [] | Some v \<Rightarrow>
        (case snd (view_after r s v) of None \<Rightarrow> [] | Some u \<Rightarrow> [u]))"
  by (auto simp: replicate_viewer_def view_after_def same_world_def Let_def split_beta split: option.splits)


definition updates_of :: "WorldRuntime \<Rightarrow> u32 \<Rightarrow> ReplicationUpdate list" where
  "updates_of r s =
     (case idx_find (wrt_viewers r) s of None \<Rightarrow> [] | Some v \<Rightarrow>
        (case snd (view_after r s v) of None \<Rightarrow> [] | Some u \<Rightarrow> [u]))"

lemma view_after_session: "snd (view_after r s v) = Some u \<Longrightarrow> rup_session_id u = s"
  by (auto simp: view_after_def replicate_to_def Let_def split: option.splits if_splits)

lemma same_world_trans: "same_world a b \<Longrightarrow> same_world b c \<Longrightarrow> same_world a c"
  by (simp add: same_world_def)

lemma replicate_all:
  assumes "distinct ss"
  shows "same_world r (fst (foldl replicate_viewer (r, out) ss)) \<and>
   (idx_invar (wrt_viewers r) \<longrightarrow> idx_invar (wrt_viewers (fst (foldl replicate_viewer (r, out) ss)))) \<and>
   idx_find (wrt_viewers (fst (foldl replicate_viewer (r, out) ss))) x =
     (if x \<in> set ss then map_option (\<lambda>v. fst (view_after r x v)) (idx_find (wrt_viewers r) x)
      else idx_find (wrt_viewers r) x) \<and>
   snd (foldl replicate_viewer (r, out) ss) = out @ concat (map (updates_of r) ss)"
  using assms
proof (induction ss arbitrary: r out)
  case (Cons s ss)
  obtain r1 out1 where p: "replicate_viewer (r, out) s = (r1, out1)" by fastforce
  note step = replicate_viewer_step [of r out s, unfolded p fst_conv snd_conv]
  have same: "same_world r r1" and out1: "out1 = out @ updates_of r s"
    using step by (simp_all add: updates_of_def)
  note va = view_after_same [OF same]
  have upd: "updates_of r1 y = updates_of r y" if "y \<noteq> s" for y
    using step [of y] that unfolding updates_of_def va by simp
  have upds: "map (updates_of r1) ss = map (updates_of r) ss"
    using Cons.prems by (intro map_cong [OF refl] upd) auto
  have "distinct ss" "s \<notin> set ss" using Cons.prems by simp_all
  note IH = Cons.IH [OF this(1), of r1 out1, unfolded va upds]
  show ?case
    unfolding foldl.simps p
  proof (intro conjI)
    show "same_world r (fst (foldl replicate_viewer (r1, out1) ss))"
      using same_world_trans [OF same] IH by blast
    show "idx_invar (wrt_viewers r) \<longrightarrow> idx_invar (wrt_viewers (fst (foldl replicate_viewer (r1, out1) ss)))"
      using step IH by blast
    show "snd (foldl replicate_viewer (r1, out1) ss) = out @ concat (map (updates_of r) (s # ss))"
      using IH out1 by simp
    show "idx_find (wrt_viewers (fst (foldl replicate_viewer (r1, out1) ss))) x =
       (if x \<in> set (s # ss) then map_option (\<lambda>v. fst (view_after r x v)) (idx_find (wrt_viewers r) x)
        else idx_find (wrt_viewers r) x)"
      using IH step [of x] \<open>s \<notin> set ss\<close> by auto
  qed
qed (simp add: same_world_def)

section \<open>The client's mirror\<close>

type_synonym mirror = "u32 \<rightharpoonup> pose"

definition pose_map :: "ActorTransformSample list \<Rightarrow> mirror" where
  "pose_map ss = map_of (map (\<lambda>s. (ats_actor_id s, sample_pose s)) ss)"

definition apply_update :: "ReplicationUpdate \<Rightarrow> mirror \<Rightarrow> mirror" where
  "apply_update u m =
     (case rup_kind u of
        RkSnapshot \<Rightarrow> pose_map (rup_actors u)
      | RkDelta \<Rightarrow> (m ++ pose_map (rup_actors u)) |` (- set (rup_removed_actor_ids u)))"

definition client_step :: "ReplicationUpdate list \<Rightarrow> u32 \<Rightarrow> mirror \<Rightarrow> mirror" where
  "client_step out s m = foldl (\<lambda>m u. if rup_session_id u = s then apply_update u m else m) m out"

definition world_view :: "WorldRuntime \<Rightarrow> u32 list \<Rightarrow> mirror" where
  "world_view r vis = (\<lambda>i. if i \<in> set vis then map_option pose_of (idx_find (wrt_actors r) i) else None)"

definition mirror_ok :: "WorldRuntime \<Rightarrow> ViewerState \<Rightarrow> mirror \<Rightarrow> bool" where
  "mirror_ok r v m \<longleftrightarrow> vws_last_snapshot_tick v = 0 \<or>
     dom m = set (vws_visible_actor_ids v) \<and>
     (\<forall>i \<in> set (vws_visible_actor_ids v). \<forall>a. idx_find (wrt_actors r) i = Some a \<longrightarrow> \<not> act_dirty a \<longrightarrow>
        m i = Some (pose_of a))"

abbreviation keyed_actors :: "(u32, ActorState) idx \<Rightarrow> bool" where
  "keyed_actors actors \<equiv> \<forall>i a. idx_find actors i = Some a \<longrightarrow> act_actor_id a = i"

lemma idx_find_key: "k \<in> fst ` set m \<longleftrightarrow> idx_find m k \<noteq> None"
  by (simp add: idx_find_def map_of_eq_None_iff)

lemma pose_map_append: "pose_map (xs @ ys) = pose_map ys ++ pose_map xs"
  by (simp add: pose_map_def)

lemma pose_map_all:
  assumes "keyed_actors actors"
  shows "pose_map (all_samples_of t actors vis) i =
    (if i \<in> set vis then map_option pose_of (idx_find actors i) else None)"
proof (induction vis)
  case (Cons x vis)
  have "all_samples_of t actors (x # vis) =
      (case idx_find actors x of None \<Rightarrow> [] | Some a \<Rightarrow> [sample_of t a]) @ all_samples_of t actors vis"
    by (simp add: all_samples_of_def)
  with Cons assms show ?case
    by (cases "idx_find actors x") (auto simp: pose_map_def map_add_def split: option.splits)
qed (simp add: all_samples_of_def pose_map_def)

lemma pose_map_dirty:
  assumes "keyed_actors actors"
  shows "pose_map (dirty_samples_of t actors vis) i =
    (if i \<in> set vis then (case idx_find actors i of None \<Rightarrow> None | Some a \<Rightarrow>
       if act_dirty a then Some (pose_of a) else None) else None)"
proof (induction vis)
  case (Cons x vis)
  have "dirty_samples_of t actors (x # vis) =
      (case idx_find actors x of None \<Rightarrow> [] | Some a \<Rightarrow> if \<not> act_dirty a then [] else [sample_of t a]) @
      dirty_samples_of t actors vis"
    by (simp add: dirty_samples_of_def)
  with Cons assms show ?case
    by (cases "idx_find actors x") (auto simp: pose_map_def map_add_def split: option.splits)
qed (simp add: dirty_samples_of_def pose_map_def)

lemma removed_for_none:
  assumes "set removed \<inter> set vis = {}"
  shows "removed_for vis vis removed = []"
proof -
  have "foldl (\<lambda>rm i. if i \<in> set vis \<and> i \<notin> set rm then rm @ [i] else rm) [] removed = []"
    using assms by (induction removed) auto
  then show ?thesis by (simp add: removed_for_def)
qed

text \<open>The step of one viewer: what the client holds after it is the world seen through the new set.\<close>

lemma replicate_to_exact:
  assumes keyed: "keyed_actors (wrt_actors r)"
    and mirror: "mirror_ok r v m"
    and own: "idx_find (wrt_actors r) (act_actor_id va) = Some va"
    and limit: "rtc_max_interest_recipients_per_tick (wrt_config r) \<noteq> 0"
    and removed: "\<forall>i \<in> set (wrt_removed_actor_ids r). idx_find (wrt_actors r) i = None"
    and step: "replicate_to r s v va = (v', u, b)"
  shows "vws_visible_actor_ids v' = desired_visible_of (wrt_config r) (wrt_actors r) va"
    "(case u of None \<Rightarrow> m | Some u \<Rightarrow> apply_update u m) = world_view r (vws_visible_actor_ids v')"
    "vws_actor_id v' = vws_actor_id v"
proof -
  let ?d = "desired_visible_of (wrt_config r) (wrt_actors r) va"
  show vis: "vws_visible_actor_ids v' = ?d" and "vws_actor_id v' = vws_actor_id v"
    using step by (auto simp: replicate_to_def Let_def split: if_splits)
  have dom: "idx_find (wrt_actors r) i \<noteq> None" if "i \<in> set ?d" for i
  proof -
    have "i = act_actor_id va \<or> i \<in> fst ` set (wrt_actors r)"
      using that desired_visible_props [OF limit, of "wrt_actors r" va] by blast
    then show ?thesis using own by (auto simp only: idx_find_key)
  qed
  show "(case u of None \<Rightarrow> m | Some u \<Rightarrow> apply_update u m) = world_view r (vws_visible_actor_ids v')"
  proof (cases "\<exists>x. u = Some x \<and> rup_kind x = RkSnapshot")
    case True
    then obtain x where "u = Some x" "rup_kind x = RkSnapshot"
        "rup_actors x = all_samples_of (wrt_server_tick r) (wrt_actors r) ?d"
      using step by (auto simp: replicate_to_def Let_def split: if_splits)
    then show ?thesis
      by (auto simp: apply_update_def vis world_view_def pose_map_all [OF keyed])
  next
    case False
    then have unchanged: "vws_visible_actor_ids v = ?d" "vws_last_snapshot_tick v \<noteq> 0"
      using step by (auto simp: replicate_to_def Let_def split: if_splits)
    have none: "removed_for (vws_visible_actor_ids v) ?d (wrt_removed_actor_ids r) = []"
      unfolding unchanged(1) using removed dom by (intro removed_for_none) blast
    have "(case u of None \<Rightarrow> m | Some u \<Rightarrow> apply_update u m) =
        m ++ pose_map (dirty_samples_of (wrt_server_tick r) (wrt_actors r) ?d)"
      using step False unchanged none
      by (auto simp: replicate_to_def Let_def apply_update_def pose_map_def restrict_map_def split: if_splits)
    also have "\<dots> = world_view r ?d"
    proof
      fix i
      have "dom m = set ?d" using mirror unchanged by (simp add: mirror_ok_def)
      then have out: "m i = None" if "i \<notin> set ?d" using that by (metis domIff)
      show "(m ++ pose_map (dirty_samples_of (wrt_server_tick r) (wrt_actors r) ?d)) i = world_view r ?d i"
        using mirror unchanged dom [of i] out
        by (auto simp: mirror_ok_def map_add_def pose_map_dirty [OF keyed] world_view_def
            split: option.splits)
    qed
    finally show ?thesis by (simp add: vis)
  qed
qed

section \<open>Every tick preserves the tables\<close>

lemma ok_actors_changed:
  assumes ok: "runtime_ok r" and "idx_invar A"
    and rel: "\<And>a. rel_option (\<lambda>x y. act_actor_id y = act_actor_id x \<and> act_session_id y = act_session_id x \<and>
      length (act_history y) \<le> unat (rtc_history_ticks (wrt_config r))) (idx_find (wrt_actors r) a) (idx_find A a)"
  shows "runtime_ok (r\<lparr>wrt_actors := A\<rparr>)"
proof -
  have some: "\<exists>x. idx_find (wrt_actors r) a = Some x \<and> act_actor_id y = act_actor_id x \<and>
      act_session_id y = act_session_id x \<and> length (act_history y) \<le> unat (rtc_history_ticks (wrt_config r))"
    if "idx_find A a = Some y" for a y
    using rel [of a] that by (cases "idx_find (wrt_actors r) a") auto
  have fwd: "\<exists>y. idx_find A a = Some y \<and> act_session_id y = act_session_id x"
    if "idx_find (wrt_actors r) a = Some x" for a x
    using rel [of a] that by (cases "idx_find A a") auto
  have none: "idx_find A a = None \<longleftrightarrow> idx_find (wrt_actors r) a = None" for a
    using rel [of a] by (cases "idx_find A a"; cases "idx_find (wrt_actors r) a") auto
  show ?thesis
    unfolding runtime_ok_def
  proof (intro conjI allI impI ballI, goal_cases)
    case (4 s a)
    then show ?case using ok_session [OF ok, of s a] fwd by fastforce
  qed (use runtime_okD [OF ok] assms(2) ok_viewer [OF ok] ok_removed [OF ok] none in
      \<open>auto dest!: some dest: ok_actor [OF ok]\<close>)
qed

lemma ok_viewers_changed:
  assumes ok: "runtime_ok r" and same: "same_world r r'" and "idx_invar (wrt_viewers r')"
    and rel: "\<And>s. rel_option (\<lambda>v v'. vws_actor_id v' = vws_actor_id v \<and> std_set (vws_visible_actor_ids v') \<and>
      (\<forall>i \<in> set (vws_visible_actor_ids v'). i < wrt_next_actor_id r) \<and>
      length (vws_visible_actor_ids v') \<le> unat (rtc_max_interest_recipients_per_tick (wrt_config r)))
      (idx_find (wrt_viewers r) s) (idx_find (wrt_viewers r') s)"
  shows "runtime_ok r'"
proof -
  have some: "\<exists>v. idx_find (wrt_viewers r) s = Some v \<and> vws_actor_id v' = vws_actor_id v \<and>
      std_set (vws_visible_actor_ids v') \<and> (\<forall>i \<in> set (vws_visible_actor_ids v'). i < wrt_next_actor_id r) \<and>
      length (vws_visible_actor_ids v') \<le> unat (rtc_max_interest_recipients_per_tick (wrt_config r))"
    if "idx_find (wrt_viewers r') s = Some v'" for s v'
    using rel [of s] that by (cases "idx_find (wrt_viewers r) s") auto
  have none: "idx_find (wrt_viewers r') s = None \<longleftrightarrow> idx_find (wrt_viewers r) s = None" for s
    using rel [of s] by (cases "idx_find (wrt_viewers r') s"; cases "idx_find (wrt_viewers r) s") auto
  have eqs: "wrt_actors r' = wrt_actors r" "wrt_config r' = wrt_config r"
      "wrt_removed_actor_ids r' = wrt_removed_actor_ids r" "wrt_session_to_actor r' = wrt_session_to_actor r"
      "wrt_next_actor_id r' = wrt_next_actor_id r"
    using same by (simp_all add: same_world_def)
  show ?thesis
    unfolding runtime_ok_def eqs
  proof (intro conjI allI impI ballI, goal_cases)
    case (4 s a)
    then show ?case using ok_session [OF ok, of s a] by blast
  qed (use runtime_okD [OF ok] assms(3) ok_removed [OF ok] none in
      \<open>auto dest!: some dest: ok_actor [OF ok] ok_viewer [OF ok]\<close>)
qed

definition begin_tick :: "WorldRuntime \<Rightarrow> WorldRuntime" where
  "begin_tick r = r\<lparr>wrt_server_tick := wrt_server_tick r + 1, wrt_tick_total := wrt_tick_total r + 1\<rparr>"

definition with_inputs :: "(u32 list \<Rightarrow> u32 list) \<Rightarrow> WorldRuntime \<Rightarrow> WorldRuntime" where
  "with_inputs its r = foldl apply_input (begin_tick r) (its (map fst (wrt_session_to_actor r)))"

definition with_history :: "(u32 list \<Rightarrow> u32 list) \<Rightarrow> WorldRuntime \<Rightarrow> WorldRuntime" where
  "with_history its r = (with_inputs its r)\<lparr>wrt_actors :=
     idx_map (push_history (wrt_server_tick r + 1) (rtc_history_ticks (wrt_config r)))
       (wrt_actors (with_inputs its r))\<rparr>"

definition replicated :: "(u32 list \<Rightarrow> u32 list) \<Rightarrow> (u32 list \<Rightarrow> u32 list) \<Rightarrow> WorldRuntime \<Rightarrow>
   WorldRuntime \<times> ReplicationUpdate list" where
  "replicated its itv r = foldl replicate_viewer (with_history its r, []) (itv (map fst (wrt_viewers r)))"

lemma with_inputs_fields:
  "only_actors_advanced (begin_tick r) (with_inputs its r)"
  "wrt_server_tick (with_inputs its r) = wrt_server_tick r + 1"
  "wrt_config (with_inputs its r) = wrt_config r" "wrt_viewers (with_inputs its r) = wrt_viewers r"
  "wrt_session_to_actor (with_inputs its r) = wrt_session_to_actor r"
  "wrt_removed_actor_ids (with_inputs its r) = wrt_removed_actor_ids r"
  "wrt_next_actor_id (with_inputs its r) = wrt_next_actor_id r"
proof -
  show adv: "only_actors_advanced (begin_tick r) (with_inputs its r)"
    unfolding with_inputs_def by (rule apply_inputs_advance)
  obtain A where "with_inputs its r = (begin_tick r)\<lparr>wrt_actors := A\<rparr>"
    using adv unfolding only_actors_advanced_def by blast
  then show "wrt_server_tick (with_inputs its r) = wrt_server_tick r + 1"
    "wrt_config (with_inputs its r) = wrt_config r" "wrt_viewers (with_inputs its r) = wrt_viewers r"
    "wrt_session_to_actor (with_inputs its r) = wrt_session_to_actor r"
    "wrt_removed_actor_ids (with_inputs its r) = wrt_removed_actor_ids r"
    "wrt_next_actor_id (with_inputs its r) = wrt_next_actor_id r"
    by (simp_all add: begin_tick_def)
qed

lemma with_history_fields [simp]:
  "wrt_server_tick (with_history its r) = wrt_server_tick r + 1"
  "wrt_config (with_history its r) = wrt_config r" "wrt_viewers (with_history its r) = wrt_viewers r"
  "wrt_session_to_actor (with_history its r) = wrt_session_to_actor r"
  "wrt_removed_actor_ids (with_history its r) = wrt_removed_actor_ids r"
  "wrt_next_actor_id (with_history its r) = wrt_next_actor_id r"
  by (simp_all add: with_history_def with_inputs_fields)

lemma tick_parts:
  "fst (tick its itv r) = (fst (replicated its itv r))\<lparr>wrt_actors :=
     idx_map (\<lambda>actor. actor\<lparr>act_dirty := False\<rparr>) (wrt_actors (fst (replicated its itv r))),
     wrt_removed_actor_ids := []\<rparr>"
  "fst (snd (tick its itv r)) = snd (replicated its itv r)"
  by (simp_all add: tick_def replicated_def with_history_def with_inputs_def begin_tick_def Let_def split_beta
      with_inputs_fields [unfolded with_inputs_def begin_tick_def])

text \<open>An actor before the tick and the same actor after inputs and history.\<close>

definition ticked :: "u32 \<Rightarrow> u32 \<Rightarrow> ActorState \<Rightarrow> ActorState \<Rightarrow> bool" where
  "ticked t limit a a' \<longleftrightarrow> act_actor_id a' = act_actor_id a \<and> act_session_id a' = act_session_id a \<and>
     (act_dirty a' \<or> \<not> act_dirty a \<and> pose_of a' = pose_of a) \<and>
     (\<exists>s. act_history a' = drop (Suc (length (act_history a)) - unat limit) (act_history a @ [s]) \<and>
       sample_pose s = pose_of a' \<and> ats_server_tick s = t \<and> ats_actor_id s = act_actor_id a)"

lemma with_history_actors:
  "rel_option (ticked (wrt_server_tick r + 1) (rtc_history_ticks (wrt_config r)))
     (idx_find (wrt_actors r) a) (idx_find (wrt_actors (with_history its r)) a)"
proof -
  have "rel_option advanced (idx_find (wrt_actors r) a) (idx_find (wrt_actors (with_inputs its r)) a)"
    using with_inputs_fields(1) [of r its] by (simp add: only_actors_advanced_def begin_tick_def)
  moreover have "ticked t l x (push_history t l y)" if "advanced x y" for x y t l
    using that by (auto simp: ticked_def advanced_def push_history_def Let_def pose_of_def
        intro!: exI [of _ "sample_of t y"])
  ultimately show ?thesis
    by (auto simp: with_history_def elim!: option.rel_cases)
qed

lemma with_history_ok:
  assumes ok: "runtime_ok r"
  shows "runtime_ok (with_history its r)"
proof -
  have inv: "idx_invar (wrt_actors (with_history its r))"
    using with_inputs_fields(1) [of r its] runtime_okD(2) [OF ok]
    by (simp add: with_history_def only_actors_advanced_def begin_tick_def)
  have "runtime_ok (r\<lparr>wrt_actors := wrt_actors (with_history its r)\<rparr>)"
  proof (rule ok_actors_changed [OF ok inv])
    fix a
    show "rel_option (\<lambda>x y. act_actor_id y = act_actor_id x \<and> act_session_id y = act_session_id x \<and>
        length (act_history y) \<le> unat (rtc_history_ticks (wrt_config r)))
        (idx_find (wrt_actors r) a) (idx_find (wrt_actors (with_history its r)) a)"
      by (rule option.rel_mono_strong [OF with_history_actors]) (auto simp: ticked_def)
  qed
  then show ?thesis unfolding runtime_ok_def by simp
qed

text \<open>What one tick does to a viewer and to what its client holds.\<close>

lemma replicated_props:
  fixes its :: "u32 list \<Rightarrow> u32 list"
  assumes ok: "runtime_ok r" and itv: "iteration_order itv"
  defines "h \<equiv> with_history its r"
  shows "same_world h (fst (replicated its itv r))" "idx_invar (wrt_viewers (fst (replicated its itv r)))"
    "idx_find (wrt_viewers (fst (replicated its itv r))) s =
       map_option (\<lambda>v. fst (view_after h s v)) (idx_find (wrt_viewers r) s)"
    "snd (replicated its itv r) = concat (map (updates_of h) (itv (map fst (wrt_viewers r))))"
proof -
  have d: "distinct (itv (map fst (wrt_viewers r)))"
    using runtime_okD(3) [OF ok] itv unfolding iteration_order_def idx_invar_def
    by (metis mset_eq_imp_distinct_iff)
  note all = replicate_all [OF d, of h "[]", folded replicated_def h_def]
  have mem: "s \<in> set (itv (map fst (wrt_viewers r)))" if "idx_find (wrt_viewers r) s \<noteq> None"
    using that iteration_order_set [OF itv] by (simp add: idx_find_def map_of_eq_None_iff)
  show "same_world h (fst (replicated its itv r))"
    and "idx_invar (wrt_viewers (fst (replicated its itv r)))"
    and "snd (replicated its itv r) = concat (map (updates_of h) (itv (map fst (wrt_viewers r))))"
    using all runtime_okD(3) [OF ok] by (simp_all add: replicated_def h_def)
  show "idx_find (wrt_viewers (fst (replicated its itv r))) s =
       map_option (\<lambda>v. fst (view_after h s v)) (idx_find (wrt_viewers r) s)"
    using all mem by (cases "idx_find (wrt_viewers r) s") (auto simp: replicated_def h_def)
qed

lemma client_step_concat:
  assumes "\<And>x. x \<in> set xs \<Longrightarrow> \<forall>u \<in> set (f x). rup_session_id u = x" and "distinct xs"
  shows "client_step (concat (map f xs)) s m = (if s \<in> set xs then client_step (f s) s m else m)"
  using assms
proof (induction xs arbitrary: m)
  case (Cons x xs)
  have other: "client_step us s m = m" if "\<forall>u \<in> set us. rup_session_id u \<noteq> s" for us m
    using that by (induction us) (auto simp: client_step_def)
  have split: "client_step (us @ vs) s m = client_step vs s (client_step us s m)" for us vs m
    by (simp add: client_step_def)
  have skip: "client_step (f x) s m = m" if "x \<noteq> s"
    using other [of "f x" m] Cons.prems(1) [of x] that by simp
  show ?case
    using Cons skip by (cases "x = s") (auto simp: split)
qed (simp add: client_step_def)

lemma updates_of_session: "u \<in> set (updates_of r s) \<Longrightarrow> rup_session_id u = s"
  by (auto simp: updates_of_def view_after_session split: option.splits)

lemma client_after_tick:
  fixes its :: "u32 list \<Rightarrow> u32 list"
  assumes ok: "runtime_ok r" and itv: "iteration_order itv"
    and v: "idx_find (wrt_viewers r) s = Some v"
  defines "h \<equiv> with_history its r"
  shows "client_step (snd (replicated its itv r)) s m =
    (case snd (view_after h s v) of None \<Rightarrow> m | Some u \<Rightarrow> apply_update u m)"
proof -
  have "distinct (itv (map fst (wrt_viewers r)))"
    using runtime_okD(3) [OF ok] itv unfolding iteration_order_def idx_invar_def
    by (metis mset_eq_imp_distinct_iff)
  moreover have "s \<in> set (itv (map fst (wrt_viewers r)))"
    using v iteration_order_set [OF itv] by (simp add: idx_find_def) (metis image_eqI map_of_SomeD fst_conv)
  ultimately have "client_step (snd (replicated its itv r)) s m = client_step (updates_of h s) s m"
    using replicated_props(4) [OF ok itv, of its] updates_of_session
    by (simp add: client_step_concat h_def)
  also have "\<dots> = (case snd (view_after h s v) of None \<Rightarrow> m | Some u \<Rightarrow> apply_update u m)"
    using v view_after_session [of h s v]
    by (auto simp: updates_of_def client_step_def h_def split: option.splits)
  finally show ?thesis .
qed

lemma tick_viewer:
  fixes its :: "u32 list \<Rightarrow> u32 list"
  assumes ok: "runtime_ok r" and itv: "iteration_order itv"
    and v: "idx_find (wrt_viewers r) s = Some v" and m: "mirror_ok (with_history its r) v m"
  defines "h \<equiv> with_history its r"
  obtains va v' where "idx_find (wrt_viewers (fst (replicated its itv r))) s = Some v'"
    "idx_find (wrt_actors h) (act_actor_id va) = Some va" "act_session_id va = s"
    "vws_actor_id v' = vws_actor_id v"
    "vws_visible_actor_ids v' = desired_visible_of (wrt_config r) (wrt_actors h) va"
    "client_step (snd (replicated its itv r)) s m = world_view h (vws_visible_actor_ids v')"
proof -
  have okh: "runtime_ok h" unfolding h_def by (rule with_history_ok [OF ok])
  obtain a where a: "idx_find (wrt_session_to_actor r) s = Some a" "vws_actor_id v = Some a"
    using ok_viewer [OF ok v] runtime_okD(5) [OF ok, of s] v by auto
  then obtain va where va: "idx_find (wrt_actors h) a = Some va" "act_session_id va = s"
    using ok_session [OF okh, of s a] by (auto simp: h_def)
  then have id: "act_actor_id va = a" using ok_actor [OF okh] by blast
  obtain v' u b where rep: "replicate_to h s v va = (v', u, b)" by (metis prod_cases3)
  have after: "view_after h s v = (v', u)" by (simp add: view_after_def a va rep)
  have keyed: "keyed_actors (wrt_actors h)" using ok_actor [OF okh] by blast
  have removed: "\<forall>i \<in> set (wrt_removed_actor_ids h). idx_find (wrt_actors h) i = None"
    using ok_removed [OF okh] by blast
  have own: "idx_find (wrt_actors h) (act_actor_id va) = Some va" by (simp add: id va)
  note exact = replicate_to_exact [OF keyed m [folded h_def] own runtime_okD(4) [OF okh] removed rep]
  show ?thesis
  proof (rule that [of v' va])
    show "idx_find (wrt_viewers (fst (replicated its itv r))) s = Some v'"
      using replicated_props(3) [OF ok itv, of its s] v after by (simp add: h_def)
    show "client_step (snd (replicated its itv r)) s m = world_view h (vws_visible_actor_ids v')"
      using client_after_tick [OF ok itv v, of its m] after exact(2) by (simp add: h_def)
  qed (use own va exact in \<open>simp_all add: h_def\<close>)
qed

lemma dom_if_mem: "dom (\<lambda>i. if i \<in> S then Some (f i) else None) = S"
  by (auto split: if_splits)

lemma mirror_exists: "\<exists>m. mirror_ok r v m"
proof
  show "mirror_ok r v (\<lambda>i. if i \<in> set (vws_visible_actor_ids v)
      then Some (case idx_find (wrt_actors r) i of None \<Rightarrow> (0, 0, 0, 0) | Some a \<Rightarrow> pose_of a) else None)"
    by (simp add: mirror_ok_def dom_if_mem)
qed

lemma visible_found:
  assumes ok: "runtime_ok r" and va: "idx_find (wrt_actors r) (act_actor_id va) = Some va"
    and i: "i \<in> set (desired_visible_of (wrt_config r) (wrt_actors r) va)"
  shows "\<exists>a. idx_find (wrt_actors r) i = Some a \<and> i < wrt_next_actor_id r"
proof -
  have "i = act_actor_id va \<or> i \<in> fst ` set (wrt_actors r)"
    using i desired_visible_props [OF runtime_okD(4) [OF ok], of "wrt_actors r" va] by blast
  then have "idx_find (wrt_actors r) i \<noteq> None"
    using va by (auto simp only: idx_find_key)
  then show ?thesis using ok_actor [OF ok] by blast
qed

lemma ok_removed_cleared: "runtime_ok r \<Longrightarrow> runtime_ok (r\<lparr>wrt_removed_actor_ids := []\<rparr>)"
  by (simp add: runtime_ok_def)

lemma tick_ok:
  assumes ok: "runtime_ok r" and itv: "iteration_order itv"
  shows "runtime_ok (fst (tick its itv r))"
proof -
  let ?h = "with_history its r" and ?p = "fst (replicated its itv r)"
  have okh: "runtime_ok ?h" by (rule with_history_ok [OF ok])
  note props = replicated_props [OF ok itv, of its]
  have okp: "runtime_ok ?p"
  proof (rule ok_viewers_changed [OF okh props(1,2)])
    fix s
    show "rel_option (\<lambda>v v'. vws_actor_id v' = vws_actor_id v \<and> std_set (vws_visible_actor_ids v') \<and>
        (\<forall>i \<in> set (vws_visible_actor_ids v'). i < wrt_next_actor_id ?h) \<and>
        length (vws_visible_actor_ids v') \<le> unat (rtc_max_interest_recipients_per_tick (wrt_config ?h)))
        (idx_find (wrt_viewers ?h) s) (idx_find (wrt_viewers ?p) s)"
    proof (cases "idx_find (wrt_viewers r) s")
      case None
      then show ?thesis using props(3) [of s] by simp
    next
      case (Some v)
      obtain m where m: "mirror_ok ?h v m" using mirror_exists by blast
      obtain va v' where v': "idx_find (wrt_viewers ?p) s = Some v'"
          "idx_find (wrt_actors ?h) (act_actor_id va) = Some va" "vws_actor_id v' = vws_actor_id v"
          "vws_visible_actor_ids v' = desired_visible_of (wrt_config r) (wrt_actors ?h) va"
        by (rule tick_viewer [OF ok itv Some m]) blast
      have "rtc_max_interest_recipients_per_tick (wrt_config r) \<noteq> 0" by (rule runtime_okD(4) [OF ok])
      from desired_visible_props [OF this, of "wrt_actors ?h" va] visible_found [OF okh v'(2)] v' Some
      show ?thesis by auto
    qed
  qed
  have "runtime_ok (?p\<lparr>wrt_actors := idx_map (\<lambda>actor. actor\<lparr>act_dirty := False\<rparr>) (wrt_actors ?p)\<rparr>)"
  proof (rule ok_actors_changed [OF okp])
    show "idx_invar (idx_map (\<lambda>actor. actor\<lparr>act_dirty := False\<rparr>) (wrt_actors ?p))"
      using runtime_okD(2) [OF okp] by simp
    fix a
    show "rel_option (\<lambda>x y. act_actor_id y = act_actor_id x \<and> act_session_id y = act_session_id x \<and>
        length (act_history y) \<le> unat (rtc_history_ticks (wrt_config ?p)))
        (idx_find (wrt_actors ?p) a) (idx_find (idx_map (\<lambda>actor. actor\<lparr>act_dirty := False\<rparr>) (wrt_actors ?p)) a)"
      using ok_actor [OF okp] by (cases "idx_find (wrt_actors ?p) a") auto
  qed
  then show ?thesis unfolding tick_parts by (rule ok_removed_cleared)
qed

section \<open>Runs\<close>

text \<open>
  A run of the runtime with its clients. \<open>ms\<close> holds what the client of each session has built from the
  updates sent to it, and \<open>log\<close> records the pose of every actor at every tick. Identifiers and ticks are
  32-bit counters; a run ends before one of them wraps.
\<close>

inductive world_run :: "WorldRuntime \<Rightarrow> (u32 \<Rightarrow> mirror) \<Rightarrow> (u32 \<times> u32 \<Rightarrow> pose option) \<Rightarrow> bool" where
  start: "world_run (new_world_runtime config) (\<lambda>_. Map.empty) (\<lambda>_. None)"
| stage: "world_run r ms log \<Longrightarrow> wrt_next_actor_id r \<noteq> - 1 \<Longrightarrow> world_run (fst (stage_input s i r)) ms log"
| remove: "world_run r ms log \<Longrightarrow> world_run (remove_session s r) ms log"
| observe: "world_run r ms log \<Longrightarrow> world_run (set_simulation_phase_observer b r) ms log"
| tick: "world_run r ms log \<Longrightarrow> wrt_server_tick r \<noteq> - 1 \<Longrightarrow> iteration_order its \<Longrightarrow> iteration_order itv \<Longrightarrow>
    tick its itv r = (r', out, events) \<Longrightarrow>
    world_run r' (\<lambda>s. client_step out s (ms s))
      (\<lambda>(a, t). if t = wrt_server_tick r' then map_option pose_of (idx_find (wrt_actors r') a) else log (a, t))"

lemma run_ok: "world_run r ms log \<Longrightarrow> runtime_ok r"
proof (induction rule: world_run.induct)
  case (observe r ms log b)
  then show ?case by (simp add: runtime_ok_def set_simulation_phase_observer_def)
next
  case (tick r ms log its itv r' out events)
  then show ?case using tick_ok [of r itv its] by simp
qed (simp_all add: runtime_ok_new stage_input_ok remove_session_ok)


lemma desired_visible_near:
  "set (desired_visible_of c actors va) \<subseteq> insert (act_actor_id va) {i. \<exists>a. (i, a) \<in> set actors \<and> near c va a}"
proof -
  have "set (desired_visible_of c actors va) \<subseteq> insert (act_actor_id va) (set (interested_in c actors va))"
    using limit_loop_props [of "[act_actor_id va]" "unat (rtc_max_interest_recipients_per_tick c)"
        "interested_in c actors va"]
    by (auto simp: desired_visible_of_def Let_def)
  then show ?thesis using interested_in_props [of c actors va] by blast
qed

lemma mirror_with_history: "mirror_ok r v m \<Longrightarrow> mirror_ok (with_history its r) v m"
proof -
  assume m: "mirror_ok r v m"
  have "\<exists>a. idx_find (wrt_actors r) i = Some a \<and> \<not> act_dirty a \<and> pose_of a' = pose_of a"
    if "idx_find (wrt_actors (with_history its r)) i = Some a'" "\<not> act_dirty a'" for i a'
    using with_history_actors [of r i its] that
    by (cases "idx_find (wrt_actors r) i") (auto simp: ticked_def)
  with m show ?thesis unfolding mirror_ok_def by metis
qed

lemma tick_fields:
  assumes ok: "runtime_ok r" and itv: "iteration_order itv"
  shows "idx_find (wrt_actors (fst (tick its itv r))) a =
      map_option (\<lambda>x. x\<lparr>act_dirty := False\<rparr>) (idx_find (wrt_actors (with_history its r)) a)"
    "wrt_server_tick (fst (tick its itv r)) = wrt_server_tick r + 1"
    "wrt_config (fst (tick its itv r)) = wrt_config r"
    "wrt_session_to_actor (fst (tick its itv r)) = wrt_session_to_actor r"
    "wrt_next_actor_id (fst (tick its itv r)) = wrt_next_actor_id r"
    "wrt_viewers (fst (tick its itv r)) = wrt_viewers (fst (replicated its itv r))"
  using replicated_props(1) [OF ok itv, of its] by (simp_all add: tick_parts same_world_def)

lemma pose_of_dirty [simp]: "pose_of (a\<lparr>act_dirty := b\<rparr>) = pose_of a"
  by (simp add: pose_of_def)

lemma dom_world_view:
  assumes "\<forall>i \<in> set vis. idx_find (wrt_actors r) i \<noteq> None"
  shows "dom (world_view r vis) = set vis"
proof (rule set_eqI)
  fix i
  have "world_view r vis i = None \<longleftrightarrow> i \<notin> set vis" using assms by (simp add: world_view_def)
  then show "i \<in> dom (world_view r vis) \<longleftrightarrow> i \<in> set vis" by (simp only: domIff not_not)
qed

lemma tick_client:
  assumes ok: "runtime_ok r" and itv: "iteration_order itv" and t: "tick its itv r = (r', out, ev)"
    and m: "\<And>v. idx_find (wrt_viewers r) s = Some v \<Longrightarrow> mirror_ok r v m"
    and v': "idx_find (wrt_viewers r') s = Some v'"
  shows "client_step out s m = world_view r' (vws_visible_actor_ids v') \<and>
    (\<forall>i \<in> set (vws_visible_actor_ids v'). idx_find (wrt_actors r') i \<noteq> None) \<and>
    (\<exists>a va. idx_find (wrt_session_to_actor r') s = Some a \<and> idx_find (wrt_actors r') a = Some va \<and>
      a \<in> set (vws_visible_actor_ids v') \<and>
      (\<forall>i \<in> set (vws_visible_actor_ids v'). i = a \<or>
        (\<exists>b. idx_find (wrt_actors r') i = Some b \<and> near (wrt_config r') va b)))"
proof -
  have r': "r' = fst (tick its itv r)" and out: "out = snd (replicated its itv r)"
    using t tick_parts(2) [of its itv r] by simp_all
  note f = tick_fields [OF ok itv, of its, folded r']
  let ?h = "with_history its r"
  have okh: "runtime_ok ?h" by (rule with_history_ok [OF ok])
  obtain v where v: "idx_find (wrt_viewers r) s = Some v"
    using v' replicated_props(3) [OF ok itv, of its s] by (auto simp: f)
  obtain va v2 where w: "idx_find (wrt_viewers (fst (replicated its itv r))) s = Some v2"
      "idx_find (wrt_actors ?h) (act_actor_id va) = Some va" "act_session_id va = s"
      "vws_visible_actor_ids v2 = desired_visible_of (wrt_config r) (wrt_actors ?h) va"
      "client_step (snd (replicated its itv r)) s m = world_view ?h (vws_visible_actor_ids v2)"
    by (rule tick_viewer [OF ok itv v mirror_with_history [OF m [OF v]], of its]) blast
  have v2: "v2 = v'" using w(1) v' by (simp add: f)
  have view: "world_view ?h vis = world_view r' vis" for vis
    by (rule ext) (simp add: world_view_def f option.map_comp comp_def)
  have s2a: "idx_find (wrt_session_to_actor r) s = Some (act_actor_id va)"
    using ok_actor [OF okh w(2)] w(3) by simp
  have own: "act_actor_id va \<in> set (vws_visible_actor_ids v')"
    using desired_visible_props [OF runtime_okD(4) [OF ok], of "wrt_actors ?h" va] w(4) v2 by simp
  have near: "i = act_actor_id va \<or> (\<exists>b. idx_find (wrt_actors r') i = Some b \<and>
      near (wrt_config r) (va\<lparr>act_dirty := False\<rparr>) b)" if "i \<in> set (vws_visible_actor_ids v')" for i
    using that desired_visible_near [of "wrt_config r" "wrt_actors ?h" va] w(4) v2 idx_mem_find [OF runtime_okD(2) [OF okh]]
    by (auto simp: f near_def)
  have found: "idx_find (wrt_actors r') i \<noteq> None" if "i \<in> set (vws_visible_actor_ids v')" for i
    using visible_found [OF okh w(2), of i] that w(4) v2 by (auto simp: f)
  show ?thesis
    using w(5) view v2 s2a own near found w(2) by (auto simp: out f)
qed

lemma run_mirror:
  assumes "world_run r ms log" and "idx_find (wrt_viewers r) s = Some v"
  shows "mirror_ok r v (ms s)"
  using assms
proof (induction arbitrary: v rule: world_run.induct)
  case (start config)
  then show ?case by (simp add: new_world_runtime_def idx.find_empty)
next
  case (stage r ms log x i)
  have ok: "runtime_ok r" by (rule run_ok [OF stage(1)])
  show ?case
  proof (cases "idx_find (wrt_session_to_actor r) x")
    case None
    note t = ensure_actor_tables [OF ok None]
    show ?thesis
    proof (cases "s = x")
      case True
      then show ?thesis using stage(4) by (auto simp: stage_input_tables t mirror_ok_def new_viewer_state_def)
    next
      case False
      then have v: "idx_find (wrt_viewers r) s = Some v" using stage(4) by (simp add: stage_input_tables t)
      have "i \<noteq> wrt_next_actor_id r" if "i \<in> set (vws_visible_actor_ids v)" for i
        using ok_viewer [OF ok v] that by auto
      with stage(3) [OF v] show ?thesis by (auto simp: mirror_ok_def stage_input_tables t)
    qed
  next
    case (Some a)
    then have "fst (ensure_actor_for_session x r) = r" by (simp add: ensure_actor_for_session_def)
    with stage show ?thesis by (simp add: mirror_ok_def stage_input_tables)
  qed
next
  case (remove r ms log x)
  then show ?case by (auto simp: mirror_ok_def remove_session_tables split: if_splits)
next
  case (observe r ms log b)
  then show ?case by (simp add: mirror_ok_def set_simulation_phase_observer_def)
next
  case (tick r ms log its itv r' out events)
  have ok: "runtime_ok r" by (rule run_ok [OF tick(1)])
  have c: "client_step out s (ms s) = world_view r' (vws_visible_actor_ids v) \<and>
      (\<forall>i \<in> set (vws_visible_actor_ids v). idx_find (wrt_actors r') i \<noteq> None)"
    using tick_client [OF ok tick(4,5) tick.IH tick.prems] by blast
  then have "dom (client_step out s (ms s)) = set (vws_visible_actor_ids v)"
    by (metis dom_world_view)
  with c show ?case by (simp add: mirror_ok_def world_view_def)
qed


text \<open>C26.
  Replication is exact. In every run, whatever inputs, joins, departures and iteration orders, after
  every tick the client of a session, which replaces its state on a snapshot and merges a delta, holds
  precisely the current poses of the actors the runtime shows to it: none missing, none left over, none
  stale. The session's own actor is always among them, every other one is within the interest radius,
  and there are never more than the configured number.\<close>

theorem replication_exact:
  assumes "world_run r ms log" and "iteration_order its" and "iteration_order itv"
    and "tick its itv r = (r', out, events)" and "idx_find (wrt_viewers r') s = Some v"
  shows "client_step out s (ms s) = (\<lambda>i. if i \<in> set (vws_visible_actor_ids v)
      then map_option pose_of (idx_find (wrt_actors r') i) else None) \<and>
    (\<forall>i \<in> set (vws_visible_actor_ids v). idx_find (wrt_actors r') i \<noteq> None) \<and>
    length (vws_visible_actor_ids v) \<le> unat (rtc_max_interest_recipients_per_tick (wrt_config r')) \<and>
    (\<exists>a va. idx_find (wrt_session_to_actor r') s = Some a \<and> idx_find (wrt_actors r') a = Some va \<and>
      a \<in> set (vws_visible_actor_ids v) \<and>
      (\<forall>i \<in> set (vws_visible_actor_ids v). i = a \<or>
        (\<exists>b. idx_find (wrt_actors r') i = Some b \<and> near (wrt_config r') va b)))"
proof -
  have ok: "runtime_ok r" by (rule run_ok [OF assms(1)])
  have ok': "runtime_ok r'" using tick_ok [OF ok assms(3), of its] assms(4) by simp
  have "length (vws_visible_actor_ids v) \<le> unat (rtc_max_interest_recipients_per_tick (wrt_config r'))"
    using ok_viewer [OF ok' assms(5)] by blast
  with tick_client [OF ok assms(3,4) run_mirror [OF assms(1)] assms(5)] show ?thesis
    by (simp add: world_view_def)
qed


definition sample_runtime :: WorldRuntime where
  "sample_runtime = fst (stage_input 7 \<lparr>ic_input_seq = 1, ic_move_x_mm = 5, ic_move_y_mm = - 3, ic_yaw_mdeg = 0\<rparr>
     (new_world_runtime default_runtime_config))"

lemma sample_run: "world_run sample_runtime (\<lambda>_. Map.empty) (\<lambda>_. None)"
  unfolding sample_runtime_def
  by (rule world_run.stage [OF world_run.start]) (simp add: new_world_runtime_def)

theorem replication_exact_witness:
  "client_step (fst (snd (tick id id sample_runtime))) 7 Map.empty 1 = Some (5, - 3, 0, 1)"
proof -
  let ?r = "fst (tick id id sample_runtime)"
  have t: "tick id id sample_runtime = (?r, fst (snd (tick id id sample_runtime)), snd (snd (tick id id sample_runtime)))"
    by simp
  have vis: "map_option vws_visible_actor_ids (idx_find (wrt_viewers ?r) 7) = Some [1]" by code_simp
  then obtain v where v: "idx_find (wrt_viewers ?r) 7 = Some v" "vws_visible_actor_ids v = [1]" by auto
  have "map_option pose_of (idx_find (wrt_actors ?r) 1) = Some (5, - 3, 0, 1)" by code_simp
  with replication_exact [OF sample_run iteration_order_id(1) iteration_order_id(1) t v(1)] v(2)
  show ?thesis by simp
qed

text \<open>C28.
  The tables of a world stay consistent. In every reachable world the three indexes have one entry per key,
  sessions and actors point at each other, every actor is stored under its own id and below the next id to
  be given out, every session has exactly one viewer whose visible set is sorted, without duplicates and
  within the recipient limit, no history exceeds its limit, and an actor announced as removed is gone.\<close>

theorem reachable_world_consistent:
  assumes "world_run r ms log"
  shows "runtime_ok r"
  using assms by (rule run_ok)

theorem reachable_world_consistent_witness: "runtime_ok sample_runtime"
  by (rule reachable_world_consistent [OF sample_run])

section \<open>Rewind\<close>

definition hist_ok :: "WorldRuntime \<Rightarrow> (u32 \<times> u32 \<Rightarrow> pose option) \<Rightarrow> u32 \<Rightarrow> ActorTransformSample list \<Rightarrow> bool" where
  "hist_ok r log a h \<longleftrightarrow> length h \<le> unat (wrt_server_tick r) \<and>
     length h \<le> unat (rtc_history_ticks (wrt_config r)) \<and>
     map (\<lambda>s. unat (ats_server_tick s)) h = [Suc (unat (wrt_server_tick r)) - length h ..< Suc (unat (wrt_server_tick r))] \<and>
     (\<forall>s \<in> set h. ats_actor_id s = a \<and> log (a, ats_server_tick s) = Some (sample_pose s)) \<and>
     (\<forall>t. log (a, t) \<noteq> None \<longrightarrow> unat (wrt_server_tick r) < unat t + unat (rtc_history_ticks (wrt_config r)) \<longrightarrow>
        unat (wrt_server_tick r) < unat t + length h)"

lemma run_log_range:
  "world_run r ms log \<Longrightarrow> log (a, t) \<noteq> None \<Longrightarrow> t \<le> wrt_server_tick r \<and> a < wrt_next_actor_id r"
proof (induction arbitrary: a t rule: world_run.induct)
  case (stage r ms log s i)
  have ok: "runtime_ok r" by (rule run_ok [OF stage(1)])
  note IH = stage(3) [OF stage(4)]
  show ?case
  proof (cases "idx_find (wrt_session_to_actor r) s")
    case None
    with IH ensure_actor_tables(4,6) [OF ok None] word_less_suc [OF stage(2), of a] show ?thesis
      by (simp add: stage_input_tables order_less_imp_le)
  next
    case (Some b)
    with IH show ?thesis by (simp add: stage_input_tables ensure_actor_for_session_def)
  qed
next
  case (remove r ms log s)
  then show ?case by (simp add: remove_session_tables)
next
  case (observe r ms log b)
  then show ?case by (simp add: set_simulation_phase_observer_def)
next
  case (tick r ms log its itv r' out events)
  have ok: "runtime_ok r" by (rule run_ok [OF tick(1)])
  have ok': "runtime_ok r'" using tick_ok [OF ok tick(4), of its] tick(5) by simp
  have f: "wrt_server_tick r' = wrt_server_tick r + 1" "wrt_next_actor_id r' = wrt_next_actor_id r"
    using tick_fields(2,5) [OF ok tick(4), of its] tick(5) by simp_all
  show ?case
  proof (cases "t = wrt_server_tick r'")
    case True
    then show ?thesis using tick.prems ok_actor [OF ok', of a] by auto
  next
    case False
    with tick.prems tick.IH [of a t] have "t \<le> wrt_server_tick r" "a < wrt_next_actor_id r" by auto
    then show ?thesis using word_less_suc [OF tick(2), of t] by (simp add: f)
  qed
qed simp

lemma hist_ok_cong:
  "hist_ok r log a h \<Longrightarrow> wrt_server_tick r' = wrt_server_tick r \<Longrightarrow> wrt_config r' = wrt_config r \<Longrightarrow>
   hist_ok r' log a h"
  unfolding hist_ok_def by simp

lemma hist_ok_tick:
  assumes h: "hist_ok r log a h" and nowrap: "wrt_server_tick r \<noteq> - 1"
    and r': "wrt_server_tick r' = wrt_server_tick r + 1" "wrt_config r' = wrt_config r"
    and s: "ats_server_tick s = wrt_server_tick r'" "ats_actor_id s = a" "log' (a, wrt_server_tick r') = Some (sample_pose s)"
    and log': "\<And>t. t \<noteq> wrt_server_tick r' \<Longrightarrow> log' (a, t) = log (a, t)"
    and h': "h' = drop (Suc (length h) - unat (rtc_history_ticks (wrt_config r))) (h @ [s])"
  shows "hist_ok r' log' a h'"
proof -
  let ?t = "unat (wrt_server_tick r)" and ?n = "length h" and ?L = "unat (rtc_history_ticks (wrt_config r))"
  have t': "unat (wrt_server_tick r') = Suc ?t" using unat_suc [OF nowrap] by (simp add: r')
  have n: "?n \<le> ?t" and ticks: "map (\<lambda>s. unat (ats_server_tick s)) h = [Suc ?t - ?n ..< Suc ?t]"
    using h by (simp_all add: hist_ok_def)
  have len: "length h' = min ?L (Suc ?n)"
    unfolding h' length_drop length_append by simp
  have old: "ats_server_tick x \<noteq> wrt_server_tick r'" if "x \<in> set h" for x
  proof -
    have "unat (ats_server_tick x) \<in> set (map (\<lambda>s. unat (ats_server_tick s)) h)" using that by simp
    then have "unat (ats_server_tick x) < Suc ?t" unfolding ticks by auto
    then show ?thesis using t' by auto
  qed
  have "map (\<lambda>s. unat (ats_server_tick s)) (h @ [s]) = [Suc ?t - ?n ..< Suc (Suc ?t)]"
    using n by (simp add: ticks s t')
  then have "map (\<lambda>s. unat (ats_server_tick s)) h' = [Suc ?t - ?n + (Suc ?n - ?L) ..< Suc (Suc ?t)]"
    by (simp only: h' drop_map [symmetric] drop_upt)
  moreover have "Suc ?t - ?n + (Suc ?n - ?L) = Suc (Suc ?t) - length h'" using n len by simp
  ultimately have ticks': "map (\<lambda>s. unat (ats_server_tick s)) h' = [Suc (Suc ?t) - length h' ..< Suc (Suc ?t)]"
    by simp
  have mem: "ats_actor_id x = a \<and> log' (a, ats_server_tick x) = Some (sample_pose x)" if "x \<in> set h'" for x
  proof -
    have "x \<in> set h \<or> x = s" using that set_drop_subset by (fastforce simp: h')
    then show ?thesis using h old [of x] log' s by (auto simp: hist_ok_def)
  qed
  have recent: "Suc ?t < unat t + length h'" if "log' (a, t) \<noteq> None" "Suc ?t < unat t + ?L" for t
  proof (cases "t = wrt_server_tick r'")
    case True
    then show ?thesis using that t' len by simp
  next
    case False
    then have "?t < unat t + ?n" using h that log' [OF False] by (auto simp: hist_ok_def)
    then show ?thesis using that len by simp
  qed
  have "length h' \<le> Suc ?t" "length h' \<le> ?L" using n len by simp_all
  then show ?thesis unfolding hist_ok_def t' r'(2) using ticks' mem recent by blast
qed

lemma run_hist:
  "world_run r ms log \<Longrightarrow> idx_find (wrt_actors r) a = Some ac \<Longrightarrow> hist_ok r log a (act_history ac)"
proof (induction arbitrary: a ac rule: world_run.induct)
  case (start config)
  then show ?case by (simp add: new_world_runtime_def idx.find_empty)
next
  case (stage r ms log x i)
  have ok: "runtime_ok r" by (rule run_ok [OF stage(1)])
  show ?case
  proof (cases "idx_find (wrt_session_to_actor r) x")
    case None
    note t = ensure_actor_tables [OF ok None]
    have new: "log (wrt_next_actor_id r, t) = None" for t
      using run_log_range [OF stage(1), of "wrt_next_actor_id r" t] by (metis order_less_irrefl)
    show ?thesis
    proof (cases "a = wrt_next_actor_id r")
      case True
      then have "act_history ac = []"
        using stage(4) by (auto simp: stage_input_tables t update_actor_cells_def new_actor_state_def)
      then show ?thesis using new True by (simp add: hist_ok_def)
    next
      case False
      then have "idx_find (wrt_actors r) a = Some ac" using stage(4) by (simp add: stage_input_tables t)
      then show ?thesis by (rule hist_ok_cong [OF stage(3)]) (simp_all add: stage_input_tables t)
    qed
  next
    case (Some b)
    then have "idx_find (wrt_actors r) a = Some ac"
      using stage(4) by (simp add: stage_input_tables ensure_actor_for_session_def)
    then show ?thesis
      by (rule hist_ok_cong [OF stage(3)]) (simp_all add: stage_input_tables ensure_actor_for_session_def Some)
  qed
next
  case (remove r ms log x)
  then have "idx_find (wrt_actors r) a = Some ac" by (simp add: remove_session_tables split: if_splits)
  then show ?case by (rule hist_ok_cong [OF remove(2)]) (simp_all add: remove_session_tables)
next
  case (observe r ms log b)
  then have "idx_find (wrt_actors r) a = Some ac" by (simp add: set_simulation_phase_observer_def)
  then show ?case by (rule hist_ok_cong [OF observe(2)]) (simp_all add: set_simulation_phase_observer_def)
next
  case (tick r ms log its itv r' out events)
  have ok: "runtime_ok r" by (rule run_ok [OF tick(1)])
  note f = tick_fields [OF ok tick(4), of its, unfolded tick(5) fst_conv]
  obtain y where y: "idx_find (wrt_actors (with_history its r)) a = Some y" "ac = y\<lparr>act_dirty := False\<rparr>"
    using tick.prems by (auto simp: f)
  then obtain x where x: "idx_find (wrt_actors r) a = Some x"
      "ticked (wrt_server_tick r + 1) (rtc_history_ticks (wrt_config r)) x y"
    using with_history_actors [of r a its] by (cases "idx_find (wrt_actors r) a") auto
  then obtain s where s: "act_history y = drop (Suc (length (act_history x)) - unat (rtc_history_ticks (wrt_config r)))
      (act_history x @ [s])" "sample_pose s = pose_of y" "ats_server_tick s = wrt_server_tick r + 1"
      "ats_actor_id s = act_actor_id x"
    by (auto simp: ticked_def)
  have id: "act_actor_id x = a" using ok_actor [OF ok x(1)] by blast
  show ?case
    by (rule hist_ok_tick [OF tick.IH [OF x(1)] tick(2), where s = s])
      (use s y id tick.prems in \<open>simp_all add: f\<close>)
qed

lemma find_latest_upt:
  "map f h = [lo ..< hi] \<Longrightarrow> lo \<le> q \<Longrightarrow> lo < hi \<Longrightarrow>
   \<exists>x. List.find (\<lambda>x. f x \<le> q) (rev h) = Some x \<and> x \<in> set h \<and> f x = min q (hi - 1)" for f :: "'a \<Rightarrow> nat"
proof (induction h arbitrary: hi rule: rev_induct)
  case (snoc x h)
  then obtain k where k: "hi = Suc k" "lo \<le> k" by (cases hi) auto
  with snoc(2) have x: "f x = k" "map f h = [lo ..< k]" by simp_all
  show ?case
  proof (cases "k \<le> q")
    case True
    with k x show ?thesis by simp
  next
    case False
    with snoc(1) [OF x(2) snoc(3)] snoc(3) k x show ?thesis by (auto simp: min_def)
  qed
qed (simp add: upt_conv_Cons)

lemma find_latest_none: "\<forall>x \<in> set h. \<not> P x \<Longrightarrow> List.find P (rev h) = None"
  by (simp add: find_None_iff)

text \<open>C27. Rewinding answers exactly what the world looked like.  In every reachable world and for every actor in
  it, \<open>rewind_at_or_before\<close> for tick \<open>q\<close> returns the pose the actor had when tick \<open>min q now\<close> ended, marked exact
  just when \<open>q\<close> is not in the future; and it returns nothing just when that tick is \<open>history_ticks\<close> or more
  ticks old or the actor did not exist then.\<close>
theorem rewind_exact:
  assumes run: "world_run r ms log" and a: "idx_find (wrt_actors r) a = Some ac"
  shows "map_option (\<lambda>x. (ats_actor_id (rwr_sample x), ats_server_tick (rwr_sample x), sample_pose (rwr_sample x), rwr_exact_tick x))
           (rewind_at_or_before \<lparr>rwq_actor_id = a, rwq_server_tick = q\<rparr> r) =
         (let t = min q (wrt_server_tick r)
          in if unat (wrt_server_tick r) - unat t < unat (rtc_history_ticks (wrt_config r))
             then map_option (\<lambda>p. (a, t, p, q \<le> wrt_server_tick r)) (log (a, t)) else None)"
proof -
  define T where "T = wrt_server_tick r"
  define t where "t = min q T"
  define h where "h = act_history ac"
  let ?H = "unat (rtc_history_ticks (wrt_config r))" and ?f = "\<lambda>s. unat (ats_server_tick s)"
  have h: "length h \<le> unat T" "length h \<le> ?H" "map ?f h = [Suc (unat T) - length h ..< Suc (unat T)]"
      "\<And>s. s \<in> set h \<Longrightarrow> ats_actor_id s = a \<and> log (a, ats_server_tick s) = Some (sample_pose s)"
      "\<And>t. log (a, t) \<noteq> None \<Longrightarrow> unat T < unat t + ?H \<Longrightarrow> unat T < unat t + length h"
    using run_hist [OF run a] unfolding hist_ok_def T_def h_def by blast+
  have t: "unat t = min (unat q) (unat T)" by (simp add: t_def min_def word_le_nat_alt)
  let ?find = "List.find (\<lambda>s. ats_server_tick s \<le> q) (rev h)"
  have find: "?find = List.find (\<lambda>s. ?f s \<le> unat q) (rev h)" by (simp add: word_le_nat_alt)
  show ?thesis
  proof (cases "Suc (unat T) - length h \<le> unat q \<and> h \<noteq> []")
    case True
    then have "Suc (unat T) - length h < Suc (unat T)" by (cases h) auto
    with True obtain s where s: "?find = Some s" "s \<in> set h" "?f s = min (unat q) (unat T)"
      using find_latest_upt [OF h(3), of "unat q"] unfolding find by auto
    then have st: "ats_server_tick s = t" using t by (simp add: word_unat_eq_iff)
    have "unat T < unat t + length h" using True h(1) t by (cases h) auto
    then have recent: "unat T - unat t < ?H" using h(2) t by linarith
    have "t = q \<longleftrightarrow> q \<le> T" by (auto simp: t_def min_def)
    with s st recent h(4) [OF s(2)] a show ?thesis
      by (simp add: rewind_at_or_before_def Let_def flip: T_def t_def h_def)
  next
    case False
    have "\<not> ?f s \<le> unat q" if "s \<in> set h" for s
    proof -
      have "?f s \<in> set (map ?f h)" using that by simp
      then show ?thesis using False that unfolding h(3) by auto
    qed
    then have none: "?find = None" unfolding find by (intro find_latest_none) blast
    have old: "unat t + length h \<le> unat T" using False h(1) t by (cases h) auto
    have "log (a, t) = None" if "unat T - unat t < ?H"
    proof (rule ccontr)
      assume "log (a, t) \<noteq> None"
      moreover have "unat T < unat t + ?H" using that by linarith
      ultimately have "unat T < unat t + length h" by (rule h(5))
      with old show False by linarith
    qed
    with none a show ?thesis
      by (simp add: rewind_at_or_before_def Let_def flip: T_def t_def h_def)
  qed
qed

theorem rewind_exact_witness:
  "map_option (\<lambda>x. (ats_actor_id (rwr_sample x), ats_server_tick (rwr_sample x), sample_pose (rwr_sample x), rwr_exact_tick x))
     (rewind_at_or_before \<lparr>rwq_actor_id = 1, rwq_server_tick = 9\<rparr> (fst (tick id id sample_runtime))) =
   Some (1, 1, (5, - 3, 0, 1), False)"
proof -
  let ?r = "fst (tick id id sample_runtime)"
  have t: "tick id id sample_runtime = (?r, fst (snd (tick id id sample_runtime)), snd (snd (tick id id sample_runtime)))"
    by simp
  have "wrt_server_tick sample_runtime \<noteq> - 1" by code_simp
  note run = world_run.tick [OF sample_run this iteration_order_id(1) iteration_order_id(1) t]
  have pose: "map_option pose_of (idx_find (wrt_actors ?r) 1) = Some (5, - 3, 0, 1)" by code_simp
  then obtain ac where ac: "idx_find (wrt_actors ?r) 1 = Some ac" by auto
  have "wrt_server_tick ?r = 1" "unat (rtc_history_ticks (wrt_config ?r)) = 64" "\<not> (9::u32) \<le> 1" by code_simp+
  with rewind_exact [OF run ac, of 9] pose show ?thesis by (simp add: min_def)
qed

end
