(* ===== verification/Resilience.thy ===== *)
theory Resilience
  imports Keyed_Index
begin

text \<open>
  Load and failure control: the retry budget and the circuit breaker of
  \<open>core/net/resilience_controls.hpp\<close>, the guard against repeated bind failures of
  \<open>gateway/udp_bind_abuse_guard.hpp\<close> and the retry delays of
  \<open>core/storage_execution/retry_backoff.hpp\<close>. Every call takes the clock reading as an argument, as
  the code does. The mutex that each class holds during a call makes the calls atomic, so a run is a
  sequence of calls. The token bucket of the first file computes in \<open>double\<close> and is left out.
\<close>

section \<open>Retry budget\<close>

record RetryBudget =
  rb_budget_per_window :: u32
  rb_window_ms :: u64
  rb_window_start_ms :: u64
  rb_used_in_window :: u32

definition new_retry_budget :: RetryBudget where
  "new_retry_budget =
     \<lparr>rb_budget_per_window = 0, rb_window_ms = 60000, rb_window_start_ms = 0, rb_used_in_window = 0\<rparr>"

definition retry_budget_configure :: "u32 \<Rightarrow> u64 \<Rightarrow> RetryBudget \<Rightarrow> RetryBudget" where
  "retry_budget_configure budget_per_window window_ms b =
     \<lparr>rb_budget_per_window = budget_per_window, rb_window_ms = max 1 window_ms,
      rb_window_start_ms = 0, rb_used_in_window = 0\<rparr>"

definition roll_window :: "u64 \<Rightarrow> RetryBudget \<Rightarrow> RetryBudget" where
  "roll_window now b =
     (if rb_window_start_ms b = 0 then b\<lparr>rb_window_start_ms := now\<rparr>
      else if now < rb_window_start_ms b then b\<lparr>rb_window_start_ms := now, rb_used_in_window := 0\<rparr>
      else if now - rb_window_start_ms b \<ge> rb_window_ms b
           then b\<lparr>rb_window_start_ms := now, rb_used_in_window := 0\<rparr>
      else b)"

definition retry_consume :: "u64 \<Rightarrow> RetryBudget \<Rightarrow> RetryBudget \<times> bool" where
  "retry_consume now b =
     (let b = roll_window now b
      in if rb_used_in_window b \<ge> rb_budget_per_window b then (b, False)
         else (b\<lparr>rb_used_in_window := rb_used_in_window b + 1\<rparr>, True))"

definition retry_remaining :: "u64 \<Rightarrow> RetryBudget \<Rightarrow> RetryBudget \<times> u32" where
  "retry_remaining now b =
     (let b = roll_window now b
      in if rb_used_in_window b \<ge> rb_budget_per_window b then (b, 0)
         else (b, rb_budget_per_window b - rb_used_in_window b))"

section \<open>Circuit breaker\<close>

record CircuitBreaker =
  cb_enabled :: bool
  cb_failure_threshold :: u32
  cb_open_window_ms :: u64
  cb_consecutive_failures :: u32
  cb_open_until_ms :: u64

definition new_circuit_breaker :: CircuitBreaker where
  "new_circuit_breaker =
     \<lparr>cb_enabled = True, cb_failure_threshold = 5, cb_open_window_ms = 10000,
      cb_consecutive_failures = 0, cb_open_until_ms = 0\<rparr>"

definition circuit_configure :: "bool \<Rightarrow> u32 \<Rightarrow> u64 \<Rightarrow> CircuitBreaker \<Rightarrow> CircuitBreaker" where
  "circuit_configure enabled failure_threshold open_window_ms b =
     \<lparr>cb_enabled = enabled, cb_failure_threshold = max 1 failure_threshold,
      cb_open_window_ms = max 1 open_window_ms, cb_consecutive_failures = 0, cb_open_until_ms = 0\<rparr>"

definition circuit_allow :: "u64 \<Rightarrow> CircuitBreaker \<Rightarrow> CircuitBreaker \<times> bool" where
  "circuit_allow now b =
     (if \<not> cb_enabled b then (b, True)
      else if cb_open_until_ms b = 0 then (b, True)
      else if now \<ge> cb_open_until_ms b
           then (b\<lparr>cb_open_until_ms := 0, cb_consecutive_failures := 0\<rparr>, True)
      else (b, False))"

definition circuit_record_failure :: "u64 \<Rightarrow> CircuitBreaker \<Rightarrow> CircuitBreaker \<times> bool" where
  "circuit_record_failure now b =
     (if \<not> cb_enabled b then (b, False)
      else if cb_open_until_ms b \<noteq> 0 \<and> now < cb_open_until_ms b then (b, False)
      else
        (let b = (if cb_open_until_ms b \<noteq> 0 \<and> now \<ge> cb_open_until_ms b
                  then b\<lparr>cb_open_until_ms := 0, cb_consecutive_failures := 0\<rparr> else b);
             b = b\<lparr>cb_consecutive_failures := cb_consecutive_failures b + 1\<rparr>
         in if cb_consecutive_failures b \<ge> cb_failure_threshold b
            then (b\<lparr>cb_open_until_ms := now + cb_open_window_ms b, cb_consecutive_failures := 0\<rparr>, True)
            else (b, False)))"

definition circuit_record_success :: "CircuitBreaker \<Rightarrow> CircuitBreaker" where
  "circuit_record_success b =
     (if \<not> cb_enabled b then b else b\<lparr>cb_open_until_ms := 0, cb_consecutive_failures := 0\<rparr>)"

definition circuit_is_open :: "u64 \<Rightarrow> CircuitBreaker \<Rightarrow> CircuitBreaker \<times> bool" where
  "circuit_is_open now b =
     (if \<not> cb_enabled b then (b, False)
      else if cb_open_until_ms b = 0 then (b, False)
      else if now \<ge> cb_open_until_ms b
           then (b\<lparr>cb_open_until_ms := 0, cb_consecutive_failures := 0\<rparr>, False)
      else (b, True))"

section \<open>Bind abuse guard\<close>

record BlockState =
  bs_blocked :: bool
  bs_retry_after_ms :: u64

record AbuseEntry =
  ae_window_started_ms :: u64
  ae_failures_in_window :: u32
  ae_blocked_until_ms :: u64

record UdpBindAbuseGuard =
  ag_fail_window_ms :: u32
  ag_fail_limit :: u32
  ag_block_ms :: u32
  ag_entries :: "(string, AbuseEntry) idx"

definition new_abuse_entry :: AbuseEntry where
  "new_abuse_entry = \<lparr>ae_window_started_ms = 0, ae_failures_in_window = 0, ae_blocked_until_ms = 0\<rparr>"

definition new_abuse_guard :: UdpBindAbuseGuard where
  "new_abuse_guard =
     \<lparr>ag_fail_window_ms = 10000, ag_fail_limit = 5, ag_block_ms = 60000, ag_entries = []\<rparr>"

definition abuse_configure :: "u32 \<Rightarrow> u32 \<Rightarrow> u32 \<Rightarrow> UdpBindAbuseGuard \<Rightarrow> UdpBindAbuseGuard" where
  "abuse_configure fail_window_ms fail_limit block_ms g =
     g\<lparr>ag_fail_window_ms := fail_window_ms, ag_fail_limit := fail_limit, ag_block_ms := block_ms\<rparr>"

definition block_state :: "string \<Rightarrow> u64 \<Rightarrow> UdpBindAbuseGuard \<Rightarrow> UdpBindAbuseGuard \<times> BlockState" where
  "block_state key now g =
     (case idx_find (ag_entries g) key of
        None \<Rightarrow> (g, \<lparr>bs_blocked = False, bs_retry_after_ms = 0\<rparr>)
      | Some entry \<Rightarrow>
          if ae_blocked_until_ms entry \<le> now
          then (g\<lparr>ag_entries := idx_update key (\<lambda>e. e\<lparr>ae_blocked_until_ms := 0\<rparr>) (ag_entries g)\<rparr>,
                \<lparr>bs_blocked = False, bs_retry_after_ms = 0\<rparr>)
          else (g, \<lparr>bs_blocked = True, bs_retry_after_ms = ae_blocked_until_ms entry - now\<rparr>))"

text \<open>The entry of an endpoint after one more failure, and whether that failure starts a block.\<close>

definition abuse_fail_entry :: "UdpBindAbuseGuard \<Rightarrow> u64 \<Rightarrow> AbuseEntry \<Rightarrow> AbuseEntry \<times> bool" where
  "abuse_fail_entry g now entry =
     (if ae_blocked_until_ms entry > now then (entry, False)
      else
        (let entry = (if ae_window_started_ms entry = 0 \<or> now < ae_window_started_ms entry \<or>
                         now - ae_window_started_ms entry > ucast (ag_fail_window_ms g)
                      then entry\<lparr>ae_window_started_ms := now, ae_failures_in_window := 0\<rparr> else entry);
             entry = entry\<lparr>ae_failures_in_window := ae_failures_in_window entry + 1\<rparr>
         in if ae_failures_in_window entry < ag_fail_limit g then (entry, False)
            else (entry\<lparr>ae_failures_in_window := 0, ae_window_started_ms := 0,
                        ae_blocked_until_ms := now + ucast (ag_block_ms g)\<rparr>, True)))"

definition abuse_record_failure :: "string \<Rightarrow> u64 \<Rightarrow> UdpBindAbuseGuard \<Rightarrow> UdpBindAbuseGuard \<times> bool" where
  "abuse_record_failure key now g =
     (let entry = (case idx_find (ag_entries g) key of None \<Rightarrow> new_abuse_entry | Some entry \<Rightarrow> entry);
          (entry', blocked) = abuse_fail_entry g now entry
      in (g\<lparr>ag_entries := idx_put key entry' (ag_entries g)\<rparr>, blocked))"

definition abuse_record_success :: "string \<Rightarrow> UdpBindAbuseGuard \<Rightarrow> UdpBindAbuseGuard" where
  "abuse_record_success key g =
     (case idx_find (ag_entries g) key of
        None \<Rightarrow> g
      | Some _ \<Rightarrow> g\<lparr>ag_entries := idx_update key
          (\<lambda>e. e\<lparr>ae_failures_in_window := 0, ae_window_started_ms := 0\<rparr>) (ag_entries g)\<rparr>)"

section \<open>Retry delays\<close>

datatype RetryBackoffMode = RbLinear | RbExponentialFullJitter

record RetryBackoffPolicy =
  rbp_mode :: RetryBackoffMode
  rbp_base_delay_ms :: u64
  rbp_max_delay_ms :: u64

definition retry_backoff_upper_bound_ms :: "RetryBackoffPolicy \<Rightarrow> u32 \<Rightarrow> u64" where
  "retry_backoff_upper_bound_ms policy attempt =
     (let base_delay_ms = (if rbp_base_delay_ms policy = 0 then 1 else rbp_base_delay_ms policy);
          max_delay_ms = max base_delay_ms (rbp_max_delay_ms policy)
      in if rbp_mode policy = RbLinear then
           if attempt = 0 then 0
           else
             (let attempt_u64 = ucast attempt
              in if attempt_u64 > (- 1) div base_delay_ms then max_delay_ms
                 else min max_delay_ms (base_delay_ms * attempt_u64))
         else
           (let capped_attempt = min attempt 16;
                multiplier = push_bit (unat capped_attempt) 1
            in if multiplier > (- 1) div base_delay_ms then max_delay_ms
               else min max_delay_ms (base_delay_ms * multiplier)))"

text \<open>The random distribution is a parameter: \<open>distribution lo hi\<close> is the number drawn from \<open>[lo, hi]\<close>.\<close>

definition sample_retry_backoff_delay_ms ::
  "(u64 \<Rightarrow> u64 \<Rightarrow> u64) \<Rightarrow> RetryBackoffPolicy \<Rightarrow> u32 \<Rightarrow> u64"
where
  "sample_retry_backoff_delay_ms distribution policy attempt =
     (let upper_bound_ms = retry_backoff_upper_bound_ms policy attempt
      in if upper_bound_ms = 0 \<or> rbp_mode policy = RbLinear then upper_bound_ms
         else distribution 0 upper_bound_ms)"

section \<open>The retry budget bounds the retry rate\<close>

text \<open>The times, out of those at which a retry is asked for, at which it is granted.\<close>

fun grants :: "RetryBudget \<Rightarrow> u64 list \<Rightarrow> u64 list" where
  "grants b [] = []"
| "grants b (t # ts) =
     (let (b', ok) = retry_consume t b in (if ok then [t] else []) @ grants b' ts)"

definition budget_ok :: "u64 list \<Rightarrow> RetryBudget \<Rightarrow> bool" where
  "budget_ok ts b \<longleftrightarrow> rb_used_in_window b \<le> rb_budget_per_window b \<and> 0 < rb_window_ms b \<and> sorted ts \<and>
     (\<forall>t \<in> set ts. rb_window_start_ms b \<le> t)"

lemma unat_suc_less: "a < b \<Longrightarrow> unat (a + 1) = Suc (unat a)" for a b :: "'a::len word"
proof -
  assume "a < b"
  then have "a \<noteq> - 1" by (metis word_not_simps(3))
  then have "1 + a \<noteq> 0" by (metis add.commute add_eq_0_iff2)
  then show ?thesis by (metis unatSuc add.commute)
qed

lemma roll_window_keeps [simp]:
  "rb_budget_per_window (roll_window t b) = rb_budget_per_window b"
  "rb_window_ms (roll_window t b) = rb_window_ms b"
  by (simp_all add: roll_window_def)

lemma retry_consume_keeps [simp]:
  "rb_budget_per_window (fst (retry_consume t b)) = rb_budget_per_window b"
  "rb_window_ms (fst (retry_consume t b)) = rb_window_ms b"
  by (simp_all add: retry_consume_def Let_def)

lemma roll_window_idem: "rb_window_start_ms b \<le> t \<Longrightarrow> 0 < rb_window_ms b \<Longrightarrow> roll_window t (roll_window t b) = roll_window t b"
  by (auto simp: roll_window_def)

lemma grants_roll: "budget_ok (t # ts) b \<Longrightarrow> grants (roll_window t b) (t # ts) = grants b (t # ts)"
  by (simp add: retry_consume_def roll_window_idem budget_ok_def)

lemma grants_set: "set (grants b ts) \<subseteq> set ts"
  by (induction ts arbitrary: b) (auto simp: Let_def split: prod.splits)

lemma budget_ok_roll: "budget_ok (t # ts) b \<Longrightarrow> budget_ok (t # ts) (roll_window t b)"
  by (auto simp: budget_ok_def roll_window_def)

lemma retry_consume_step:
  assumes "budget_ok (t # ts) b"
  shows "budget_ok ts (fst (retry_consume t b))"
    and "unat (rb_used_in_window (fst (retry_consume t b))) =
      unat (rb_used_in_window (roll_window t b)) + (if snd (retry_consume t b) then 1 else 0)"
    and "rb_window_start_ms (fst (retry_consume t b)) = rb_window_start_ms (roll_window t b)"
proof -
  let ?b = "roll_window t b"
  have ok: "budget_ok (t # ts) ?b" by (rule budget_ok_roll [OF assms])
  have suc: "unat (rb_used_in_window ?b + 1) = Suc (unat (rb_used_in_window ?b))"
    if "rb_used_in_window ?b < rb_budget_per_window ?b"
    using that by (rule unat_suc_less)
  show "budget_ok ts (fst (retry_consume t b))"
    using ok suc by (auto simp: budget_ok_def retry_consume_def Let_def word_le_nat_alt word_less_nat_alt)
  show "unat (rb_used_in_window (fst (retry_consume t b))) =
      unat (rb_used_in_window ?b) + (if snd (retry_consume t b) then 1 else 0)"
    using suc by (auto simp: retry_consume_def Let_def not_le)
  show "rb_window_start_ms (fst (retry_consume t b)) = rb_window_start_ms ?b"
    by (simp add: retry_consume_def Let_def)
qed

lemma grants_Cons:
  "length (filter P (grants b (t # ts))) =
   (if snd (retry_consume t b) \<and> P t then 1 else 0) + length (filter P (grants (fst (retry_consume t b)) ts))"
  by (simp add: Let_def case_prod_beta)

lemma no_late_grants:
  assumes "sorted (t # ts)" and "e \<le> unat t"
  shows "filter (\<lambda>t. unat t < e) (grants b (t # ts)) = []"
proof -
  have "e \<le> unat x" if "x \<in> set (grants b (t # ts))" for x
  proof -
    from that grants_set have "x \<in> set (t # ts)" by blast
    with assms show ?thesis by (auto simp: word_le_nat_alt)
  qed
  then show ?thesis by (auto simp: filter_empty_conv not_less)
qed

lemma grants_in_window:
  assumes "budget_ok ts b"
    and "e \<le> unat (if rb_window_start_ms b = 0 then (if ts = [] then 0 else hd ts) else rb_window_start_ms b) + unat (rb_window_ms b)"
  shows "length (filter (\<lambda>t. unat t < e) (grants b ts)) + unat (rb_used_in_window b) \<le> unat (rb_budget_per_window b)"
  using assms
proof (induction ts arbitrary: b)
  case Nil
  then show ?case by (simp add: budget_ok_def word_le_nat_alt)
next
  case (Cons t ts)
  show ?case
  proof (cases "e \<le> unat t")
    case True
    have "sorted (t # ts)" "unat (rb_used_in_window b) \<le> unat (rb_budget_per_window b)"
      using Cons.prems(1) by (simp_all add: budget_ok_def word_le_nat_alt)
    with no_late_grants [OF this(1) True, of b] show ?thesis by simp
  next
    case False
    have le: "rb_window_start_ms b \<le> t" using Cons.prems(1) by (simp add: budget_ok_def)
    have "\<not> rb_window_ms b \<le> t - rb_window_start_ms b" if "rb_window_start_ms b \<noteq> 0"
      using that False Cons.prems(2) le by (simp add: word_le_nat_alt unat_sub_le)
    then have roll: "rb_used_in_window (roll_window t b) = rb_used_in_window b"
        "rb_window_start_ms (roll_window t b) = (if rb_window_start_ms b = 0 then t else rb_window_start_ms b)"
      using le by (auto simp: roll_window_def)
    note step = retry_consume_step [OF Cons.prems(1)]
    have hd: "unat t \<le> unat (hd ts)" if "ts \<noteq> []"
      using that Cons.prems(1) by (cases ts) (simp_all add: budget_ok_def word_le_nat_alt)
    let ?b = "fst (retry_consume t b)"
    have "e \<le> unat (if rb_window_start_ms ?b = 0 then (if ts = [] then 0 else hd ts) else rb_window_start_ms ?b) +
        unat (rb_window_ms ?b)"
      unfolding step(3) roll retry_consume_keeps using Cons.prems(2) hd by auto
    from Cons.IH [OF step(1) this]
    have "length (filter (\<lambda>t. unat t < e) (grants ?b ts)) + unat (rb_used_in_window ?b) \<le> unat (rb_budget_per_window b)"
      by simp
    then show ?thesis unfolding grants_Cons step(2) roll by (auto split: if_splits)
  qed
qed

lemma grants_from:
  assumes "budget_ok ts b" and "\<forall>t \<in> set ts. a \<le> unat t"
  shows "length (filter (\<lambda>t. unat t < a + unat (rb_window_ms b)) (grants b ts)) + unat (rb_used_in_window b)
    \<le> 2 * unat (rb_budget_per_window b)"
  using assms
proof (induction ts arbitrary: b)
  case Nil
  then show ?case by (simp add: budget_ok_def word_le_nat_alt)
next
  case (Cons t ts)
  let ?b = "fst (retry_consume t b)" and ?r = "roll_window t b"
  have used: "unat (rb_used_in_window b) \<le> unat (rb_budget_per_window b)" and le: "rb_window_start_ms b \<le> t"
    using Cons.prems(1) by (simp_all add: budget_ok_def word_le_nat_alt)
  note step = retry_consume_step [OF Cons.prems(1)]
  show ?case
  proof (cases "rb_window_start_ms b \<noteq> 0 \<and> rb_window_ms b \<le> t - rb_window_start_ms b")
    case True
    then have "rb_used_in_window ?r = 0" "rb_window_start_ms ?r = t" using le by (auto simp: roll_window_def)
    with grants_in_window [OF budget_ok_roll [OF Cons.prems(1)], of "a + unat (rb_window_ms b)"] Cons.prems(2)
    have "length (filter (\<lambda>t. unat t < a + unat (rb_window_ms b)) (grants b (t # ts))) \<le> unat (rb_budget_per_window b)"
      unfolding grants_roll [OF Cons.prems(1)] by simp
    then show ?thesis using used by simp
  next
    case False
    then have roll: "rb_used_in_window ?r = rb_used_in_window b" using le by (auto simp: roll_window_def)
    from Cons.IH [OF step(1)] Cons.prems(2)
    have "length (filter (\<lambda>t. unat t < a + unat (rb_window_ms b)) (grants ?b ts)) + unat (rb_used_in_window ?b)
        \<le> 2 * unat (rb_budget_per_window b)"
      by simp
    then show ?thesis unfolding grants_Cons step(2) roll by (auto split: if_splits)
  qed
qed

text \<open>C38.
  A retry budget bounds the rate of retries. Whatever the times at which retries are asked for, as long as the
  clock does not run backwards, no span of one window length contains more granted retries than twice the
  budget.\<close>

theorem retry_budget_rate:
  assumes "sorted ts"
  shows "length (filter (\<lambda>t. a \<le> unat t \<and> unat t < a + unat (max 1 window_ms))
           (grants (retry_budget_configure budget window_ms b) ts)) \<le> 2 * unat budget"
proof -
  let ?W = "max 1 window_ms"
  have "length (filter (\<lambda>t. a \<le> unat t \<and> unat t < a + unat ?W) (grants c ts)) \<le> 2 * unat budget"
    if "budget_ok ts c" "rb_window_ms c = ?W" "rb_budget_per_window c = budget" for c
    using that
  proof (induction ts arbitrary: c)
    case (Cons t ts)
    show ?case
    proof (cases "a \<le> unat t")
      case True
      then have late: "\<forall>t \<in> set (t # ts). a \<le> unat t"
        using Cons.prems(1) by (auto simp: budget_ok_def word_le_nat_alt intro: order_trans)
      then have "filter (\<lambda>t. a \<le> unat t \<and> unat t < a + unat ?W) (grants c (t # ts)) =
          filter (\<lambda>t. unat t < a + unat ?W) (grants c (t # ts))"
        using grants_set [of c "t # ts"] by (intro filter_cong) auto
      with grants_from [OF Cons.prems(1) late] show ?thesis by (simp only: Cons.prems(2,3))
    next
      case False
      with Cons.IH [OF retry_consume_step(1) [OF Cons.prems(1)]] Cons.prems show ?thesis
        unfolding grants_Cons by simp
    qed
  qed simp
  moreover have "0 < ?W" by (auto simp: max_def word_gt_0)
  ultimately show ?thesis using assms by (simp add: retry_budget_configure_def budget_ok_def)
qed

theorem retry_budget_rate_witness:
  "grants (retry_budget_configure 2 1000 new_retry_budget) [5, 6, 7, 1004, 1005, 1006, 1007] = [5, 6, 1005, 1006] \<and>
   length (filter (\<lambda>t. (6 :: nat) \<le> unat t \<and> unat t < 6 + unat (max 1 (1000 :: u64)))
     (grants (retry_budget_configure 2 1000 new_retry_budget) [5, 6, 7, 1004, 1005, 1006, 1007])) \<le> 2 * unat (2 :: u32)"
proof -
  have s: "sorted ([5, 6, 7, 1004, 1005, 1006, 1007] :: u64 list)" by code_simp
  have "grants (retry_budget_configure 2 1000 new_retry_budget) [5, 6, 7, 1004, 1005, 1006, 1007] = [5, 6, 1005, 1006]"
    by code_simp
  with retry_budget_rate [OF s, where budget = 2 and window_ms = 1000 and b = new_retry_budget and a = 6]
  show ?thesis by blast
qed

section \<open>The circuit breaker\<close>

definition circuit_closed :: "CircuitBreaker \<Rightarrow> bool" where
  "circuit_closed b \<longleftrightarrow> cb_open_until_ms b = 0 \<and> cb_consecutive_failures b < cb_failure_threshold b"

definition circuit_fail :: "CircuitBreaker \<Rightarrow> u64 \<Rightarrow> CircuitBreaker" where
  "circuit_fail b t = fst (circuit_record_failure t b)"

lemma circuit_fail_closed:
  assumes "cb_enabled b" and "circuit_closed b"
  shows "circuit_fail b t =
    (if Suc (unat (cb_consecutive_failures b)) < unat (cb_failure_threshold b)
     then b\<lparr>cb_consecutive_failures := cb_consecutive_failures b + 1\<rparr>
     else b\<lparr>cb_open_until_ms := t + cb_open_window_ms b, cb_consecutive_failures := 0\<rparr>)"
proof -
  have "unat (cb_consecutive_failures b + 1) = Suc (unat (cb_consecutive_failures b))"
    using assms by (auto simp: circuit_closed_def intro: unat_suc_less)
  then show ?thesis
    using assms by (auto simp: circuit_fail_def circuit_record_failure_def circuit_closed_def Let_def word_le_nat_alt)
qed

lemma circuit_fails_below:
  assumes "cb_enabled b" and "circuit_closed b"
    and "unat (cb_consecutive_failures b) + length ts < unat (cb_failure_threshold b)"
  shows "\<exists>n. foldl circuit_fail b ts = b\<lparr>cb_consecutive_failures := n\<rparr> \<and>
    unat n = unat (cb_consecutive_failures b) + length ts"
  using assms
proof (induction ts arbitrary: b)
  case Nil
  then show ?case by (auto intro!: exI [of _ "cb_consecutive_failures b"])
next
  case (Cons t ts)
  let ?b = "b\<lparr>cb_consecutive_failures := cb_consecutive_failures b + 1\<rparr>"
  have suc: "unat (cb_consecutive_failures b + 1) = Suc (unat (cb_consecutive_failures b))"
    using Cons.prems by (auto simp: circuit_closed_def intro: unat_suc_less)
  have "circuit_closed ?b" using Cons.prems suc by (simp add: circuit_closed_def word_less_nat_alt)
  with Cons.IH [of ?b] Cons.prems suc show ?case by (simp add: circuit_fail_closed)
qed

text \<open>A closed breaker opens with the failure that completes the threshold, not earlier, and then turns away
  every attempt of the next \<open>open_window_ms\<close> milliseconds, further failures notwithstanding, and none after.\<close>

lemma circuit_opens_at_threshold:
  assumes b: "b = circuit_configure True threshold window b0"
    and ts: "length ts + 1 = unat (max 1 threshold)" and wrap: "unat t + unat (max 1 window) < 2 ^ 64"
  shows "circuit_allow now (foldl circuit_fail b ts) = (foldl circuit_fail b ts, True)"
    and "snd (circuit_allow now (circuit_fail (foldl circuit_fail b ts) t)) \<longleftrightarrow> unat t + unat (max 1 window) \<le> unat now"
    and "unat u < unat t + unat (max 1 window) \<Longrightarrow>
      circuit_fail (circuit_fail (foldl circuit_fail b ts) t) u = circuit_fail (foldl circuit_fail b ts) t"
proof -
  let ?c = "foldl circuit_fail b ts"
  have b': "cb_enabled b" "circuit_closed b" "cb_consecutive_failures b = 0" "cb_failure_threshold b = max 1 threshold"
      "cb_open_window_ms b = max 1 window" "cb_open_until_ms b = 0"
    by (auto simp: b circuit_configure_def circuit_closed_def max_def word_gt_0)
  from circuit_fails_below [OF b'(1,2), of ts] ts obtain n where n: "?c = b\<lparr>cb_consecutive_failures := n\<rparr>" "unat n = length ts"
    by (auto simp: b')
  have c: "cb_enabled ?c" "circuit_closed ?c" using n ts b' by (auto simp: circuit_closed_def word_less_nat_alt)
  have open_until: "unat (t + max 1 window) = unat t + unat (max 1 window)" using wrap by (simp add: unat_add_lem [THEN iffD1])
  have "0 < unat (max 1 window)" by (auto simp: max_def word_gt_0 unat_gt_0)
  then have nz: "t + max 1 window \<noteq> 0" using open_until by (metis unat_0 add_gr_0 less_irrefl)
  have fail: "circuit_fail ?c t = ?c\<lparr>cb_open_until_ms := t + max 1 window, cb_consecutive_failures := 0\<rparr>"
    unfolding circuit_fail_closed [OF c] using n ts b' by simp
  show "circuit_allow now ?c = (?c, True)" using c by (simp add: circuit_allow_def circuit_closed_def)
  show "snd (circuit_allow now (circuit_fail ?c t)) \<longleftrightarrow> unat t + unat (max 1 window) \<le> unat now"
    using c nz open_until unfolding fail by (auto simp: circuit_allow_def word_le_nat_alt)
  show "circuit_fail (circuit_fail ?c t) u = circuit_fail ?c t" if "unat u < unat t + unat (max 1 window)"
    using c nz open_until that unfolding fail
    by (simp add: circuit_fail_def circuit_record_failure_def word_less_nat_alt)
qed

section \<open>The abuse guard\<close>

datatype GuardOp = GuardFail string u64 | GuardSuccess string | GuardQuery string u64

fun guard_apply :: "UdpBindAbuseGuard \<Rightarrow> GuardOp \<Rightarrow> UdpBindAbuseGuard" where
  "guard_apply g (GuardFail key now) = fst (abuse_record_failure key now g)"
| "guard_apply g (GuardSuccess key) = abuse_record_success key g"
| "guard_apply g (GuardQuery key now) = fst (block_state key now g)"

fun guard_time :: "GuardOp \<Rightarrow> u64 \<Rightarrow> bool" where
  "guard_time (GuardFail key now) limit \<longleftrightarrow> now < limit"
| "guard_time (GuardSuccess key) limit \<longleftrightarrow> True"
| "guard_time (GuardQuery key now) limit \<longleftrightarrow> now < limit"

definition blocked_until :: "UdpBindAbuseGuard \<Rightarrow> string \<Rightarrow> u64" where
  "blocked_until g key = (case idx_find (ag_entries g) key of None \<Rightarrow> 0 | Some e \<Rightarrow> ae_blocked_until_ms e)"

lemma guard_config [simp]:
  "ag_fail_window_ms (guard_apply g p) = ag_fail_window_ms g"
  "ag_fail_limit (guard_apply g p) = ag_fail_limit g"
  "ag_block_ms (guard_apply g p) = ag_block_ms g"
  by (cases p; simp add: abuse_record_failure_def abuse_record_success_def block_state_def Let_def
        split: prod.splits option.splits)+

lemma block_state_blocked:
  "snd (block_state key now g) = (if now < blocked_until g key
     then \<lparr>bs_blocked = True, bs_retry_after_ms = blocked_until g key - now\<rparr>
     else \<lparr>bs_blocked = False, bs_retry_after_ms = 0\<rparr>)"
  by (auto simp: block_state_def blocked_until_def split: option.splits)

lemma guard_keeps_block: "guard_time p (blocked_until g key) \<Longrightarrow> blocked_until (guard_apply g p) key = blocked_until g key"
  by (cases p) (auto simp: abuse_record_failure_def abuse_fail_entry_def new_abuse_entry_def abuse_record_success_def
        block_state_def blocked_until_def Let_def split: option.splits if_splits)

lemma guard_run_keeps_block:
  "(\<forall>p \<in> set ps. guard_time p (blocked_until g key)) \<Longrightarrow> blocked_until (foldl guard_apply g ps) key = blocked_until g key"
  by (induction ps arbitrary: g) (simp_all add: guard_keeps_block)

lemma record_failure_blocks:
  "snd (abuse_record_failure key now g) \<Longrightarrow> blocked_until (fst (abuse_record_failure key now g)) key = now + ucast (ag_block_ms g)"
  by (auto simp: abuse_record_failure_def abuse_fail_entry_def blocked_until_def Let_def split: option.splits if_splits)

text \<open>A block holds. Once a failure of an endpoint starts a block, the endpoint is reported blocked, with the exact
  time left, for \<open>block_ms\<close> milliseconds, whatever failures, successes and queries of this and of other endpoints
  come in between.\<close>

theorem abuse_block_holds:
  assumes "abuse_record_failure key now g = (g', True)" and "unat now + unat (ag_block_ms g) < 2 ^ 64"
    and "\<forall>p \<in> set ps. guard_time p (now + ucast (ag_block_ms g))"
    and "unat t < unat now + unat (ag_block_ms g)"
  shows "bs_blocked (snd (block_state key t (foldl guard_apply g' ps))) \<and>
    unat t + unat (bs_retry_after_ms (snd (block_state key t (foldl guard_apply g' ps)))) = unat now + unat (ag_block_ms g)"
proof -
  let ?until = "now + ucast (ag_block_ms g)"
  have "blocked_until g' key = ?until" using record_failure_blocks [of key now g] assms(1) by simp
  then have until: "blocked_until (foldl guard_apply g' ps) key = ?until"
    using guard_run_keeps_block [of ps g' key] assms(3) by simp
  have "unat ?until = unat now + unat (ag_block_ms g)"
    using assms(2) by (simp add: unat_add_lem [THEN iffD1])
  with assms(4) show ?thesis
    by (simp add: block_state_blocked until word_less_nat_alt unat_sub_le word_le_nat_alt less_imp_le)
qed

theorem abuse_block_holds_witness:
  "bs_retry_after_ms (snd (block_state ''a:1'' 5000
     (foldl guard_apply (fst (abuse_record_failure ''a:1'' 1000 (abuse_configure 100 1 9000 new_abuse_guard)))
        [GuardSuccess ''a:1'', GuardFail ''b:2'' 1001, GuardQuery ''a:1'' 2000]))) = 5000"
proof -
  let ?g = "abuse_configure 100 1 9000 new_abuse_guard"
  have 1: "abuse_record_failure ''a:1'' 1000 ?g = (fst (abuse_record_failure ''a:1'' 1000 ?g), True)"
    by code_simp
  have ms: "ag_block_ms ?g = 9000" by (simp add: abuse_configure_def)
  have 2: "unat (1000 :: u64) + unat (ag_block_ms ?g) < 2 ^ 64" by (simp add: ms)
  have 3: "\<forall>p \<in> set [GuardSuccess ''a:1'', GuardFail ''b:2'' 1001, GuardQuery ''a:1'' 2000].
      guard_time p (1000 + ucast (ag_block_ms ?g))"
    by code_simp
  have 4: "unat (5000 :: u64) < unat (1000 :: u64) + unat (ag_block_ms ?g)" by (simp add: ms)
  from abuse_block_holds [OF 1 2 3 4] show ?thesis by (simp add: ms word_unat_eq_iff)
qed

section \<open>Retry delays do not overflow\<close>

lemma capped_product:
  fixes a b m :: u64
  assumes "0 < b"
  shows "unat (if a > (- 1) div b then m else min m (b * a)) = min (unat m) (unat b * unat a)"
proof -
  have pos: "0 < unat b" using assms by (simp add: word_less_nat_alt)
  have "unat (- 1 :: u64) = 2 ^ 64 - 1" by (simp add: unsigned_minus_1_eq_mask mask_eq_exp_minus_1)
  then have over: "a > (- 1) div b \<longleftrightarrow> 2 ^ 64 \<le> unat b * unat a"
    using pos by (simp add: word_less_nat_alt unat_div div_less_iff_less_mult mult.commute) linarith
  show ?thesis
  proof (cases "2 ^ 64 \<le> unat b * unat a")
    case True
    then have "unat m < unat b * unat a" by (intro less_le_trans [OF unat_less_64 [of m]]) simp
    with True over show ?thesis by simp
  next
    case False
    then have "unat (b * a) = unat b * unat a" using unat_mult_lem [of b a] by simp
    with False over show ?thesis by (simp add: min_def word_le_nat_alt)
  qed
qed

text \<open>C39. The retry delay never wraps: for every policy and attempt the upper bound is the smaller of the cap and the
  mathematical product of the base delay with the attempt number (linear) or with the power of two of the
  attempt, at most the sixteenth (exponential), a zero base counting as one and a cap below the base as the base.\<close>

theorem retry_backoff_exact:
  "unat (retry_backoff_upper_bound_ms policy attempt) =
     (let base = max 1 (unat (rbp_base_delay_ms policy))
      in min (max base (unat (rbp_max_delay_ms policy)))
           (base * (case rbp_mode policy of RbLinear \<Rightarrow> unat attempt
                    | RbExponentialFullJitter \<Rightarrow> 2 ^ min (unat attempt) 16)))"
proof -
  define b where "b = (if rbp_base_delay_ms policy = 0 then 1 else rbp_base_delay_ms policy)"
  have pos: "0 < b" by (auto simp: b_def word_gt_0)
  have base: "unat b = max 1 (unat (rbp_base_delay_ms policy))"
    using unat_gt_0 [of "rbp_base_delay_ms policy"] by (auto simp: b_def max_def)
  have cap: "unat (max b (rbp_max_delay_ms policy)) = max (unat b) (unat (rbp_max_delay_ms policy))"
    by (simp add: max_def word_le_nat_alt)
  have n: "unat (min attempt 16) = min (unat attempt) 16" by (simp add: min_def word_le_nat_alt)
  have "(2 :: nat) ^ min (unat attempt) 16 < 2 ^ 64" by (rule power_strict_increasing) simp_all
  then have shift: "unat (push_bit (unat (min attempt 16)) (1 :: u64)) = 2 ^ min (unat attempt) 16"
    unfolding n unsigned_push_bit_eq by (simp add: take_bit_nat_eq_self)
  show ?thesis
  proof (cases "rbp_mode policy")
    case RbLinear
    have "retry_backoff_upper_bound_ms policy attempt = (if ucast attempt > (- 1) div b then max b (rbp_max_delay_ms policy)
        else min (max b (rbp_max_delay_ms policy)) (b * ucast attempt))"
      unfolding retry_backoff_upper_bound_ms_def Let_def b_def [symmetric] by (auto simp: RbLinear min_def)
    then show ?thesis
      unfolding RbLinear by (simp only: capped_product [OF pos] cap base Let_def unat_ucast_u32_u64 RetryBackoffMode.case)
  next
    case RbExponentialFullJitter
    have "retry_backoff_upper_bound_ms policy attempt =
        (if push_bit (unat (min attempt 16)) 1 > (- 1) div b then max b (rbp_max_delay_ms policy)
         else min (max b (rbp_max_delay_ms policy)) (b * push_bit (unat (min attempt 16)) 1))"
      unfolding retry_backoff_upper_bound_ms_def Let_def b_def [symmetric] by (simp add: RbExponentialFullJitter)
    then show ?thesis
      unfolding RbExponentialFullJitter by (simp only: capped_product [OF pos] cap base Let_def shift RetryBackoffMode.case)
  qed
qed

end
