(* ===== verification/Opcode_Policy.thy ===== *)
theory Opcode_Policy
  imports Packet_Codec
begin

text \<open>
  Opcode metadata: the enumerations and the transport test of \<open>core/protocol/opcode_policy.hpp\<close> and
  the error codes of \<open>core/protocol/protocol_errors.hpp\<close>. The opcode names, numbers and policies are in
  headers that the build generates; what the code uses of them is a parameter, the record
  \<open>OpcodeTables\<close>.
\<close>

datatype SessionStatus = StAny | StAuthenticated | StInRoom | StAdmin

datatype ProcessingPlace = PpInline | PpWorker | PpRoomStrand

datatype TransportMask = TmNone | TmTcp | TmUdp | TmBoth

datatype DeliveryClass = DcReliableOrdered | DcReliable | DcUnreliableSequenced

datatype TransportKind = TkTcp | TkUdp

record OpcodePolicy =
  op_required_state :: SessionStatus
  op_processing_place :: ProcessingPlace
  op_transport :: TransportMask
  op_delivery :: DeliveryClass
  op_channel :: u8

definition default_opcode_policy :: OpcodePolicy where
  "default_opcode_policy =
     \<lparr>op_required_state = StAny, op_processing_place = PpInline, op_transport = TmTcp,
      op_delivery = DcReliableOrdered, op_channel = 0\<rparr>"

definition transport_allows :: "TransportMask \<Rightarrow> TransportKind \<Rightarrow> bool" where
  "transport_allows m transport =
     (if m = TmBoth then True
      else if m = TmNone then False
      else if transport = TkTcp then m = TmTcp
      else m = TmUdp)"

section \<open>Error codes\<close>

definition INTERNAL_ERROR :: u16 where "INTERNAL_ERROR = 0x0001"
definition LENGTH_LIMIT_EXCEEDED :: u16 where "LENGTH_LIMIT_EXCEEDED = 0x0002"
definition UNKNOWN_MSG_ID :: u16 where "UNKNOWN_MSG_ID = 0x0003"
definition INVALID_PAYLOAD :: u16 where "INVALID_PAYLOAD = 0x0007"
definition SERVER_BUSY :: u16 where "SERVER_BUSY = 0x0008"
definition UNAUTHORIZED :: u16 where "UNAUTHORIZED = 0x0101"
definition FORBIDDEN :: u16 where "FORBIDDEN = 0x0102"

lemmas errc_defs = INTERNAL_ERROR_def LENGTH_LIMIT_EXCEEDED_def UNKNOWN_MSG_ID_def INVALID_PAYLOAD_def
  SERVER_BUSY_def UNAUTHORIZED_def FORBIDDEN_def

section \<open>The generated opcode tables\<close>

record OpcodeTables =
  oc_game_opcode_name :: "u16 \<Rightarrow> string"
  oc_core_opcode_name :: "u16 \<Rightarrow> string"
  oc_game_opcode_policy :: "u16 \<Rightarrow> OpcodePolicy"
  oc_core_opcode_policy :: "u16 \<Rightarrow> OpcodePolicy"
  oc_MSG_UDP_BIND_REQ :: u16
  oc_MSG_UDP_BIND_RES :: u16
  oc_MSG_FPS_STATE_DELTA :: u16
  oc_MSG_LOGIN_REQ :: u16
  oc_MSG_LOGIN_RES :: u16
  oc_MSG_PING :: u16
  oc_MSG_PONG :: u16

end
