(* ===== verification/Gateway_Udp.thy ===== *)
theory Gateway_Udp
  imports Opcode_Policy Resilience Rudp_Engine Direct_Bind Direct_Transport
begin

text \<open>
  The UDP side of the gateway, \<open>gateway/src/gateway_udp_ingress.cpp\<close>, with the session table of
  \<open>gateway_app_state.hpp\<close> and \<open>direct_egress_route.hpp\<close>: bind tickets, bind requests, the receive
  handler for bind requests, RUDP and plain datagrams, and direct egress.

  The clock and the random numbers are arguments; where a handler reads the clock more than once the
  argument is the sequence of readings. What the handler does besides changing the gateway is a list of
  effects in program order. The session mutex makes each critical section atomic, and the receive
  handler is only ever run once at a time, because it re-arms itself last. HMAC-SHA256 and the
  generated opcode tables are the parameters of \<open>UdpEnv\<close>. Logging is left out.
\<close>

section \<open>State\<close>

record UdpEndpoint =
  ep_address :: string
  ep_port :: u16

definition default_endpoint :: UdpEndpoint where
  "default_endpoint = \<lparr>ep_address = ''0.0.0.0'', ep_port = 0\<rparr>"

record SessionState =
  us_session :: bool
  us_client_id :: string
  us_backend_instance_id :: string
  us_udp_bound :: bool
  us_udp_endpoint :: UdpEndpoint
  us_udp_nonce :: u64
  us_udp_expires_unix_ms :: u64
  us_udp_ticket_issued_unix_ms :: u64
  us_udp_bind_fail_attempts :: u32
  us_udp_bind_retry_after_unix_ms :: u64
  us_udp_token :: string
  us_udp_sequenced_metrics :: UdpSequencedMetrics
  us_rudp_selected :: bool
  us_rudp_fallback_to_tcp :: bool
  us_rudp_engine :: "RudpEngine option"

definition new_session_state :: SessionState where
  "new_session_state =
     \<lparr>us_session = False, us_client_id = '''', us_backend_instance_id = '''', us_udp_bound = False,
      us_udp_endpoint = default_endpoint, us_udp_nonce = 0, us_udp_expires_unix_ms = 0,
      us_udp_ticket_issued_unix_ms = 0, us_udp_bind_fail_attempts = 0,
      us_udp_bind_retry_after_unix_ms = 0, us_udp_token = '''',
      us_udp_sequenced_metrics = new_sequenced_metrics, us_rudp_selected = False,
      us_rudp_fallback_to_tcp = False, us_rudp_engine = None\<rparr>"

record UdpTotals =
  ut_packets :: u64
  ut_receive_error :: u64
  ut_bind_ticket_issued :: u64
  ut_bind_success :: u64
  ut_bind_reject :: u64
  ut_bind_block :: u64
  ut_bind_rate_limit_reject :: u64
  ut_bind_retry_backoff :: u64
  ut_bind_retry_reject :: u64
  ut_opcode_allowlist_reject :: u64
  ut_forward :: u64
  ut_forward_reliable_ordered :: u64
  ut_forward_reliable :: u64
  ut_forward_unreliable_sequenced :: u64
  ut_direct_state_delta :: u64
  ut_replay_drop :: u64
  ut_reorder_drop :: u64
  ut_duplicate_drop :: u64
  ut_retransmit :: u64
  ut_loss_estimated :: u64
  ut_jitter_ms_last :: u64
  ut_rtt_ms_last :: u64
  ut_rudp_packets :: u64
  ut_rudp_packets_reject :: u64
  ut_rudp_inner_forward :: u64
  ut_rudp_fallback :: u64
  ut_rudp_direct_state_delta :: u64
  ut_direct_state_delta_tcp_fallback :: u64

record GatewayUdp =
  gu_udp_listen_port :: u16
  gu_udp_bind_secret :: string
  gu_udp_bind_ttl_ms :: u32
  gu_udp_bind_retry_backoff_ms :: u32
  gu_udp_bind_retry_backoff_max_ms :: u32
  gu_udp_bind_retry_max_attempts :: u32
  gu_udp_opcode_allowlist :: "u16 set"
  gu_rudp_rollout_policy :: DirectTransportRolloutPolicy
  gu_rudp_config :: RudpConfig
  gu_udp_bind_abuse_guard :: UdpBindAbuseGuard
  gu_udp_socket :: bool
  gu_sessions :: "(string, SessionState) idx"
  gu_totals :: UdpTotals
  gu_rudp_counters :: RudpCounters

record UdpEnv =
  ue_hmac_sha256 :: "string \<Rightarrow> string \<Rightarrow> bytes option"
  ue_opcodes :: OpcodeTables

datatype UdpEffect = SendDatagram bytes UdpEndpoint | ForwardToBackend string bytes

definition total :: "(UdpTotals \<Rightarrow> UdpTotals) \<Rightarrow> GatewayUdp \<Rightarrow> GatewayUdp" where
  "total f g = g\<lparr>gu_totals := f (gu_totals g)\<rparr>"

definition count :: "((u64 \<Rightarrow> u64) \<Rightarrow> UdpTotals \<Rightarrow> UdpTotals) \<Rightarrow> GatewayUdp \<Rightarrow> GatewayUdp" where
  "count update = total (update (\<lambda>n. n + 1))"

definition upd_session :: "string \<Rightarrow> (SessionState \<Rightarrow> SessionState) \<Rightarrow> GatewayUdp \<Rightarrow> GatewayUdp" where
  "upd_session sid f g = g\<lparr>gu_sessions := idx_update sid f (gu_sessions g)\<rparr>"

section \<open>Tokens, frames and tickets\<close>

definition hex_digit :: "u8 \<Rightarrow> char" where
  "hex_digit b = ''0123456789abcdef'' ! unat (b AND 0x0F)"

definition to_hex :: "bytes \<Rightarrow> string" where
  "to_hex bs = concat (map (\<lambda>b. [hex_digit (drop_bit 4 b), hex_digit b]) bs)"

definition make_bind_signing_input :: "string \<Rightarrow> u64 \<Rightarrow> u64 \<Rightarrow> string" where
  "make_bind_signing_input session_id nonce expires_unix_ms =
     session_id @ ''|'' @ to_string (unat nonce) @ ''|'' @ to_string (unat expires_unix_ms)"

definition hmac_sha256_hex :: "UdpEnv \<Rightarrow> string \<Rightarrow> string \<Rightarrow> string" where
  "hmac_sha256_hex x secret message =
     (case ue_hmac_sha256 x secret message of
        None \<Rightarrow> ''''
      | Some digest \<Rightarrow> if length digest = 0 then '''' else to_hex digest)"

definition secure_equals :: "string \<Rightarrow> string \<Rightarrow> bool" where
  "secure_equals lhs rhs =
     (if length lhs \<noteq> length rhs then False else if lhs = [] then True else lhs = rhs)"

definition endpoint_key :: "UdpEndpoint \<Rightarrow> string" where
  "endpoint_key endpoint = ep_address endpoint @ '':'' @ to_string (unat (ep_port endpoint))"

definition udp_bind_retry_delay_ms :: "GatewayUdp \<Rightarrow> u32 \<Rightarrow> u32" where
  "udp_bind_retry_delay_ms g attempt =
     (let capped_attempt = min attempt 8;
          factor = push_bit (if capped_attempt = 0 then 0 else unat (capped_attempt - 1)) (1 :: u64);
          base_delay = ucast (gu_udp_bind_retry_backoff_ms g) * factor;
          bounded_delay = min base_delay (ucast (gu_udp_bind_retry_backoff_max_ms g))
      in ucast bounded_delay)"

definition make_udp_bind_token :: "UdpEnv \<Rightarrow> GatewayUdp \<Rightarrow> string \<Rightarrow> u64 \<Rightarrow> u64 \<Rightarrow> string" where
  "make_udp_bind_token x g session_id nonce expires_unix_ms =
     (if gu_udp_bind_secret g = [] then ''''
      else hmac_sha256_hex x (gu_udp_bind_secret g) (make_bind_signing_input session_id nonce expires_unix_ms))"

definition make_udp_bind_res_frame ::
  "UdpEnv \<Rightarrow> u64 \<Rightarrow> u16 \<Rightarrow> string \<Rightarrow> u64 \<Rightarrow> u64 \<Rightarrow> string \<Rightarrow> string \<Rightarrow> u32 \<Rightarrow> bytes"
where
  "make_udp_bind_res_frame x now code session_id nonce expires_unix_ms token message seq =
     (let payload = encode_direct_bind_response_payload code
            \<lparr>dt_session_id = octets_of session_id, dt_nonce = nonce,
             dt_expires_unix_ms = expires_unix_ms, dt_token = octets_of token\<rparr> (octets_of message)
      in encode_header \<lparr>ph_length = word_of_nat (length payload),
           ph_msg_id = oc_MSG_UDP_BIND_RES (ue_opcodes x), ph_flags = 0, ph_seq = seq,
           ph_utc_ts_ms32 = ucast (now AND 0xFFFFFFFF)\<rparr> @ payload)"

definition make_udp_bind_ticket_frame ::
  "UdpEnv \<Rightarrow> u32 \<Rightarrow> u32 \<Rightarrow> u64 \<Rightarrow> u64 \<Rightarrow> string \<Rightarrow> GatewayUdp \<Rightarrow> GatewayUdp \<times> bytes option"
where
  "make_udp_bind_ticket_frame x rd1 rd2 issued_unix_ms frame_now session_id g =
     (if gu_udp_listen_port g = 0 then (g, None)
      else if gu_udp_bind_secret g = [] then (g, None)
      else case idx_find (gu_sessions g) session_id of
        None \<Rightarrow> (g, None)
      | Some _ \<Rightarrow>
          (let nonce = push_bit 32 (ucast rd1) XOR ucast rd2;
               expires_unix_ms = issued_unix_ms + ucast (gu_udp_bind_ttl_ms g);
               token = make_udp_bind_token x g session_id nonce expires_unix_ms
           in if token = [] then (g, None)
              else
                (let selected = ad_mode (evaluate_direct_attach (gu_rudp_rollout_policy g) session_id nonce) = AmRudpCanary;
                     g = upd_session session_id (\<lambda>s. s\<lparr>us_udp_nonce := nonce,
                           us_udp_expires_unix_ms := expires_unix_ms,
                           us_udp_ticket_issued_unix_ms := issued_unix_ms,
                           us_udp_bind_fail_attempts := 0,
                           us_udp_bind_retry_after_unix_ms := 0,
                           us_udp_token := token,
                           us_udp_bound := False,
                           us_udp_endpoint := default_endpoint,
                           us_udp_sequenced_metrics := sequenced_reset (us_udp_sequenced_metrics s),
                           us_rudp_fallback_to_tcp := False,
                           us_rudp_selected := selected,
                           us_rudp_engine := (if selected then Some (new_rudp_engine (gu_rudp_config g)) else None)\<rparr>) g;
                     g = count ut_bind_ticket_issued_update g
                 in (g, Some (make_udp_bind_res_frame x frame_now 0 session_id nonce expires_unix_ms token ''issued'' 0)))))"

section \<open>Bind requests\<close>

definition apply_retry_backoff :: "u64 \<Rightarrow> string \<Rightarrow> GatewayUdp \<Rightarrow> GatewayUdp" where
  "apply_retry_backoff now sid g =
     count ut_bind_retry_backoff_update
       (upd_session sid (\<lambda>s.
          let next_attempt = min (us_udp_bind_fail_attempts s + 1) (gu_udp_bind_retry_max_attempts g)
          in s\<lparr>us_udp_bind_fail_attempts := next_attempt,
               us_udp_bind_retry_after_unix_ms := now + ucast (udp_bind_retry_delay_ms g next_attempt)\<rparr>) g)"

text \<open>The result is the gateway, the code and the message; the applied ticket repeats the request.\<close>

definition apply_udp_bind_request ::
  "UdpEnv \<Rightarrow> u64 \<Rightarrow> string \<Rightarrow> u64 \<Rightarrow> u64 \<Rightarrow> string \<Rightarrow> UdpEndpoint \<Rightarrow> GatewayUdp \<Rightarrow> GatewayUdp \<times> u16 \<times> string"
where
  "apply_udp_bind_request x now session_id nonce expires_unix_ms token endpoint g =
     (if session_id = [] \<or> token = [] then (g, INVALID_PAYLOAD, ''invalid bind payload'')
      else case idx_find (gu_sessions g) session_id of
        None \<Rightarrow> (g, UNAUTHORIZED, ''unknown session'')
      | Some state \<Rightarrow>
          if us_udp_bind_retry_after_unix_ms state > now then
            (count ut_bind_retry_reject_update g, SERVER_BUSY, ''bind retry backoff'')
          else if us_udp_expires_unix_ms state = 0 \<or> us_udp_nonce state = 0 \<or> us_udp_token state = [] then
            (apply_retry_backoff now session_id g, UNAUTHORIZED, ''bind ticket not issued'')
          else if expires_unix_ms < now then
            (apply_retry_backoff now session_id g, UNAUTHORIZED, ''ticket expired'')
          else if us_udp_expires_unix_ms state < now then
            (apply_retry_backoff now session_id g, UNAUTHORIZED, ''ticket expired'')
          else if expires_unix_ms \<noteq> us_udp_expires_unix_ms state \<or> nonce \<noteq> us_udp_nonce state then
            (apply_retry_backoff now session_id g, UNAUTHORIZED, ''ticket mismatch'')
          else if \<not> secure_equals token (us_udp_token state) \<or>
                  \<not> secure_equals token (make_udp_bind_token x g session_id nonce expires_unix_ms) then
            (apply_retry_backoff now session_id g, UNAUTHORIZED, ''invalid token'')
          else if us_udp_bound state \<and> us_udp_endpoint state \<noteq> endpoint then
            (apply_retry_backoff now session_id g, FORBIDDEN, ''session already bound'')
          else
            (let g = upd_session session_id (\<lambda>s. s\<lparr>us_udp_bound := True, us_udp_endpoint := endpoint,
                       us_udp_sequenced_metrics := sequenced_reset (us_udp_sequenced_metrics s),
                       us_udp_bind_fail_attempts := 0, us_udp_bind_retry_after_unix_ms := 0,
                       us_rudp_fallback_to_tcp := False,
                       us_rudp_engine := (if us_rudp_selected s \<and> us_rudp_engine s = None
                         then Some (new_rudp_engine (gu_rudp_config g)) else us_rudp_engine s)\<rparr>) g;
                 g = (if us_udp_ticket_issued_unix_ms state \<noteq> 0 \<and> now \<ge> us_udp_ticket_issued_unix_ms state
                      then total (ut_rtt_ms_last_update (\<lambda>_. now - us_udp_ticket_issued_unix_ms state)) g else g)
             in (g, 0, ''bound'')))"

section \<open>Direct egress\<close>

record DirectEgressContext =
  ec_msg_id :: u16
  ec_udp_bound :: bool
  ec_rudp_selected :: bool
  ec_rudp_fallback_to_tcp :: bool
  ec_rudp_established :: bool

definition is_direct_egress_msg :: "UdpEnv \<Rightarrow> u16 \<Rightarrow> bool" where
  "is_direct_egress_msg x msg_id \<longleftrightarrow> msg_id = oc_MSG_FPS_STATE_DELTA (ue_opcodes x)"

definition evaluate_direct_egress :: "UdpEnv \<Rightarrow> DirectEgressContext \<Rightarrow> DirectDeliveryDecision" where
  "evaluate_direct_egress x context = evaluate_direct_delivery
     \<lparr>dc_direct_path_enabled_for_message = is_direct_egress_msg x (ec_msg_id context),
      dc_udp_bound = ec_udp_bound context, dc_rudp_selected = ec_rudp_selected context,
      dc_rudp_fallback_to_tcp = ec_rudp_fallback_to_tcp context,
      dc_rudp_established = ec_rudp_established context\<rparr>"

definition send_udp_datagram :: "GatewayUdp \<Rightarrow> bytes \<Rightarrow> UdpEndpoint \<Rightarrow> UdpEffect list" where
  "send_udp_datagram g frame endpoint = (if \<not> gu_udp_socket g then [] else [SendDatagram frame endpoint])"

definition try_send_direct_client_frame ::
  "UdpEnv \<Rightarrow> u64 \<Rightarrow> string \<Rightarrow> u16 \<Rightarrow> bytes \<Rightarrow> GatewayUdp \<Rightarrow> GatewayUdp \<times> UdpEffect list \<times> bool"
where
  "try_send_direct_client_frame x now session_id msg_id frame g =
     (if \<not> is_direct_egress_msg x msg_id \<or> frame = [] then (g, [], False)
      else case idx_find (gu_sessions g) session_id of
        None \<Rightarrow> (count ut_direct_state_delta_tcp_fallback_update g, [], False)
      | Some state \<Rightarrow>
          (let rudp_established = (case us_rudp_engine state of None \<Rightarrow> False
                 | Some e \<Rightarrow> ps_lifecycle (eg_state e) = LsEstablished);
               decision = evaluate_direct_egress x \<lparr>ec_msg_id = msg_id, ec_udp_bound = us_udp_bound state,
                 ec_rudp_selected = us_rudp_selected state,
                 ec_rudp_fallback_to_tcp = us_rudp_fallback_to_tcp state,
                 ec_rudp_established = rudp_established\<rparr>;
               endpoint = us_udp_endpoint state
           in case (dd_route decision, us_rudp_engine state) of
                (DrRudp, Some e) \<Rightarrow>
                  (let (e, datagram) = queue_unreliable_payload frame
                         (op_channel (oc_game_opcode_policy (ue_opcodes x) msg_id)) now e;
                       g = upd_session session_id (\<lambda>s. s\<lparr>us_rudp_engine := Some e\<rparr>) g
                   in case datagram of
                        None \<Rightarrow>
                          (count ut_direct_state_delta_tcp_fallback_update
                             (count ut_rudp_fallback_update
                               (upd_session session_id (\<lambda>s. s\<lparr>us_rudp_fallback_to_tcp := True\<rparr>) g)), [], False)
                      | Some d \<Rightarrow>
                          (count ut_rudp_direct_state_delta_update g, send_udp_datagram g d endpoint, True))
              | (DrUdp, _) \<Rightarrow>
                  (count ut_direct_state_delta_update g, send_udp_datagram g frame endpoint, True)
              | _ \<Rightarrow> (count ut_direct_state_delta_tcp_fallback_update g, [], False)))"

section \<open>Receiving\<close>

text \<open>The loop that looks for the session bound to the sender; \<open>it\<close> is the order of the hash table.\<close>

definition find_bound :: "(string list \<Rightarrow> string list) \<Rightarrow> UdpEndpoint \<Rightarrow> GatewayUdp \<Rightarrow> string option" where
  "find_bound it remote g =
     List.find (\<lambda>sid. case idx_find (gu_sessions g) sid of None \<Rightarrow> False
       | Some state \<Rightarrow> us_udp_bound state \<and> us_udp_endpoint state = remote)
       (it (map fst (gu_sessions g)))"

text \<open>The session the datagram is handed to; without a transport session there is none.\<close>

definition bound_session :: "(string list \<Rightarrow> string list) \<Rightarrow> UdpEndpoint \<Rightarrow> GatewayUdp \<Rightarrow> string option" where
  "bound_session it remote g =
     (case find_bound it remote g of
        None \<Rightarrow> None
      | Some sid \<Rightarrow>
          (case idx_find (gu_sessions g) sid of
             None \<Rightarrow> None
           | Some state \<Rightarrow> if us_session state then Some sid else None))"

definition count_delivery :: "DeliveryClass \<Rightarrow> GatewayUdp \<Rightarrow> GatewayUdp" where
  "count_delivery d g =
     (case d of
        DcReliableOrdered \<Rightarrow> count ut_forward_reliable_ordered_update g
      | DcReliable \<Rightarrow> count ut_forward_reliable_update g
      | DcUnreliableSequenced \<Rightarrow> count ut_forward_unreliable_sequenced_update g)"

text \<open>The policy of an opcode, if either table names it.\<close>

definition udp_policy :: "UdpEnv \<Rightarrow> u16 \<Rightarrow> OpcodePolicy option" where
  "udp_policy x msg_id =
     (let is_game_opcode = (oc_game_opcode_name (ue_opcodes x) msg_id \<noteq> []);
          is_core_opcode = (oc_core_opcode_name (ue_opcodes x) msg_id \<noteq> [])
      in if \<not> is_game_opcode \<and> \<not> is_core_opcode then None
         else if is_game_opcode then Some (oc_game_opcode_policy (ue_opcodes x) msg_id)
         else Some (oc_core_opcode_policy (ue_opcodes x) msg_id))"

text \<open>The loop over the frames a RUDP datagram released. The flag says that it stopped at an invalid one.\<close>

fun forward_inner :: "UdpEnv \<Rightarrow> string \<Rightarrow> bytes list \<Rightarrow> GatewayUdp \<Rightarrow> GatewayUdp \<times> UdpEffect list \<times> bool" where
  "forward_inner x sid [] g = (g, [], False)"
| "forward_inner x sid (inner_frame # rest) g =
     (if length inner_frame < k_header_bytes then (g, [], True)
      else
        (let inner_header = decode_header inner_frame
         in if unat (ph_length inner_header) \<noteq> length inner_frame - k_header_bytes then (g, [], True)
            else case udp_policy x (ph_msg_id inner_header) of
              None \<Rightarrow> (g, [], True)
            | Some policy \<Rightarrow>
                if \<not> opcode_allowed (gu_rudp_rollout_policy g) (ph_msg_id inner_header) then (g, [], True)
                else if \<not> transport_allows (op_transport policy) TkUdp then (g, [], True)
                else
                  (let g = count_delivery (op_delivery policy)
                         (count ut_rudp_inner_forward_update (count ut_forward_update g));
                       (g, effects, invalid) = forward_inner x sid rest g
                   in (g, ForwardToBackend sid inner_frame # effects, invalid))))"

text \<open>The critical section of a RUDP datagram: the engine runs, unless the session must not use it. The
  result is the gateway, the datagrams to send, the released frames, the retransmissions and whether the
  session falls back.\<close>

definition rudp_process ::
  "u64 \<Rightarrow> UdpEndpoint \<Rightarrow> bytes \<Rightarrow> string \<Rightarrow> GatewayUdp \<Rightarrow>
   GatewayUdp \<times> bytes list \<times> bytes list \<times> u64 \<times> bool"
where
  "rudp_process now remote datagram sid g =
     (case idx_find (gu_sessions g) sid of
        None \<Rightarrow> (g, [], [], 0, True)
      | Some state \<Rightarrow>
          if \<not> us_udp_bound state \<or> us_udp_endpoint state \<noteq> remote then (g, [], [], 0, True)
          else (case us_rudp_engine state of
            Some e \<Rightarrow>
              if \<not> rp_enabled (gu_rudp_rollout_policy g) \<or> \<not> us_rudp_selected state \<or>
                 us_rudp_fallback_to_tcp state
              then
                ((upd_session sid (\<lambda>s. s\<lparr>us_rudp_fallback_to_tcp := True\<rparr>) g)
                   \<lparr>gu_rudp_counters := record_rudp_fallback FrDisabled (gu_rudp_counters g)\<rparr>, [], [], 0, True)
              else
                (let (e, process_result) = process_datagram datagram now e;
                     (e, poll_result) = poll now e;
                     fallback = pr_fallback_required process_result \<or> pr_fallback_required poll_result;
                     g = upd_session sid (\<lambda>s. s\<lparr>us_rudp_engine := Some e,
                           us_rudp_fallback_to_tcp := us_rudp_fallback_to_tcp s \<or> fallback\<rparr>) g
                 in (g, pr_egress_datagrams process_result @ pr_egress_datagrams poll_result,
                     pr_inner_frames process_result, pr_retransmit_count poll_result, fallback))
          | None \<Rightarrow>
              ((upd_session sid (\<lambda>s. s\<lparr>us_rudp_fallback_to_tcp := True\<rparr>) g)
                 \<lparr>gu_rudp_counters := record_rudp_fallback FrDisabled (gu_rudp_counters g)\<rparr>, [], [], 0, True)))"

definition rudp_datagram ::
  "UdpEnv \<Rightarrow> (string list \<Rightarrow> string list) \<Rightarrow> u64 \<Rightarrow> UdpEndpoint \<Rightarrow> bytes \<Rightarrow> GatewayUdp \<Rightarrow>
   GatewayUdp \<times> UdpEffect list"
where
  "rudp_datagram x it now remote datagram g =
     (let g = count ut_rudp_packets_update g
      in case bound_session it remote g of
           None \<Rightarrow> (count ut_rudp_packets_reject_update (count ut_bind_reject_update g), [])
         | Some sid \<Rightarrow>
             (let (g, egress_datagrams, inner_frames, retransmit_count, fallback_required) =
                    rudp_process now remote datagram sid g;
                  sent = concat (map (\<lambda>frame. send_udp_datagram g frame remote) egress_datagrams);
                  g = (if retransmit_count > 0
                       then total (ut_retransmit_update (\<lambda>n. n + retransmit_count)) g else g);
                  (g, forwarded, invalid_inner) =
                    (if \<not> fallback_required then forward_inner x sid inner_frames g else (g, [], False));
                  g = (if invalid_inner
                       then (upd_session sid (\<lambda>s. s\<lparr>us_rudp_fallback_to_tcp := True\<rparr>) g)
                              \<lparr>gu_rudp_counters := record_rudp_fallback FrProtocolError (gu_rudp_counters g)\<rparr>
                       else g);
                  g = (if fallback_required \<or> invalid_inner
                       then count ut_rudp_fallback_update (count ut_rudp_packets_reject_update g) else g)
              in (g, sent @ forwarded)))"

text \<open>A reply that refuses: no ticket, only a code and a message.\<close>

definition refuse ::
  "UdpEnv \<Rightarrow> u64 \<Rightarrow> UdpEndpoint \<Rightarrow> u16 \<Rightarrow> string \<Rightarrow> u32 \<Rightarrow> GatewayUdp \<Rightarrow> GatewayUdp \<times> UdpEffect list"
where
  "refuse x now remote code message seq g =
     (g, send_udp_datagram g (make_udp_bind_res_frame x now code [] 0 0 [] message seq) remote)"

definition record_bind_failure :: "string \<Rightarrow> u64 \<Rightarrow> GatewayUdp \<Rightarrow> GatewayUdp" where
  "record_bind_failure remote_key now g =
     (let (guard, blocked) = abuse_record_failure remote_key now (gu_udp_bind_abuse_guard g);
          g = g\<lparr>gu_udp_bind_abuse_guard := guard\<rparr>
      in if blocked then count ut_bind_block_update g else g)"

definition bind_datagram ::
  "UdpEnv \<Rightarrow> (nat \<Rightarrow> u64) \<Rightarrow> UdpEndpoint \<Rightarrow> PacketHeader \<Rightarrow> bytes \<Rightarrow> GatewayUdp \<Rightarrow> GatewayUdp \<times> UdpEffect list"
where
  "bind_datagram x clk remote header payload g =
     (let now = clk 0;
          remote_key = endpoint_key remote;
          (guard, blocked) = block_state remote_key now (gu_udp_bind_abuse_guard g);
          g = g\<lparr>gu_udp_bind_abuse_guard := guard\<rparr>
      in if bs_blocked blocked then
           refuse x (clk 2) remote SERVER_BUSY ''bind temporarily blocked'' (ph_seq header)
             (count ut_bind_reject_update (count ut_bind_rate_limit_reject_update g))
         else
           (let (parsed, req) = decode_direct_bind_request_payload payload
                  \<lparr>dq_session_id = [], dq_nonce = 0, dq_expires_unix_ms = 0, dq_token = []\<rparr>
            in if \<not> parsed then
                 refuse x (clk 2) remote INVALID_PAYLOAD ''invalid bind payload'' (ph_seq header)
                   (record_bind_failure remote_key now (count ut_bind_reject_update g))
               else
                 (let sid = chars_of (dq_session_id req); token = chars_of (dq_token req);
                      (g, code, message) = apply_udp_bind_request x (clk 1) sid (dq_nonce req)
                        (dq_expires_unix_ms req) token remote g;
                      g = (if code = 0
                           then (count ut_bind_success_update g)
                                  \<lparr>gu_udp_bind_abuse_guard := abuse_record_success remote_key (gu_udp_bind_abuse_guard g)\<rparr>
                           else record_bind_failure remote_key now (count ut_bind_reject_update g))
                  in (g, send_udp_datagram g
                        (make_udp_bind_res_frame x (clk 2) code sid (dq_nonce req) (dq_expires_unix_ms req)
                           token message (ph_seq header)) remote))))"

text \<open>The sequence check of an unreliable sequenced packet, on the session if it is still bound.\<close>

definition sequence_check ::
  "u64 \<Rightarrow> UdpEndpoint \<Rightarrow> u32 \<Rightarrow> string \<Rightarrow> GatewayUdp \<Rightarrow> GatewayUdp \<times> UpdateResult"
where
  "sequence_check now remote seq sid g =
     (case idx_find (gu_sessions g) sid of
        None \<Rightarrow> (g, new_update_result)
      | Some state \<Rightarrow>
          if us_udp_bound state \<and> us_udp_endpoint state = remote then
            (let (m, update) = on_packet (us_udp_sequenced_metrics state) seq now
             in (upd_session sid (\<lambda>s. s\<lparr>us_udp_sequenced_metrics := m\<rparr>) g, update))
          else (g, new_update_result))"

definition plain_datagram ::
  "UdpEnv \<Rightarrow> (string list \<Rightarrow> string list) \<Rightarrow> (nat \<Rightarrow> u64) \<Rightarrow> UdpEndpoint \<Rightarrow> PacketHeader \<Rightarrow> bytes \<Rightarrow>
   GatewayUdp \<Rightarrow> GatewayUdp \<times> UdpEffect list"
where
  "plain_datagram x it clk remote header datagram g =
     (let now = clk 0; reject = (\<lambda>code message g.
            refuse x (clk 2) remote code message (ph_seq header) g)
      in case bound_session it remote g of
           None \<Rightarrow> reject UNAUTHORIZED ''udp session not bound'' (count ut_bind_reject_update g)
         | Some sid \<Rightarrow>
             (case udp_policy x (ph_msg_id header) of
                None \<Rightarrow> reject UNKNOWN_MSG_ID ''unknown udp msg_id'' (count ut_bind_reject_update g)
              | Some policy \<Rightarrow>
                  if ph_msg_id header \<notin> gu_udp_opcode_allowlist g then
                    reject FORBIDDEN ''opcode not in udp allowlist''
                      (count ut_opcode_allowlist_reject_update (count ut_bind_reject_update g))
                  else if \<not> transport_allows (op_transport policy) TkUdp then
                    reject FORBIDDEN ''opcode not allowed on udp'' (count ut_bind_reject_update g)
                  else
                    (let sequenced = (op_delivery policy = DcUnreliableSequenced);
                         (g, update) = (if sequenced then sequence_check now remote (ph_seq header) sid g
                                        else (g, new_update_result))
                     in if sequenced \<and> \<not> ur_accepted update then
                          (let g = count ut_bind_reject_update (count ut_replay_drop_update g);
                               g = (if ur_duplicate update
                                    then count ut_retransmit_update (count ut_duplicate_drop_update g)
                                    else if ur_reordered update then count ut_reorder_drop_update g else g)
                           in reject FORBIDDEN ''stale sequenced udp packet'' g)
                        else
                          (let g = (if sequenced \<and> ur_estimated_lost_packets update > 0
                                    then total (ut_loss_estimated_update
                                      (\<lambda>n. n + ur_estimated_lost_packets update)) g else g);
                               g = (if sequenced \<and> ur_jitter_ms update > 0
                                    then total (ut_jitter_ms_last_update (\<lambda>_. ur_jitter_ms update)) g else g);
                               g = count_delivery (op_delivery policy) (count ut_forward_update g)
                           in (g, [ForwardToBackend sid datagram])))))"

definition handle_datagram ::
  "UdpEnv \<Rightarrow> (string list \<Rightarrow> string list) \<Rightarrow> (nat \<Rightarrow> u64) \<Rightarrow> UdpEndpoint \<Rightarrow> bytes \<Rightarrow> GatewayUdp \<Rightarrow>
   GatewayUdp \<times> UdpEffect list"
where
  "handle_datagram x it clk remote datagram g =
     (let g = (if length datagram > 0 then count ut_packets_update g else g)
      in if looks_like_rudp datagram then rudp_datagram x it (clk 0) remote datagram g
         else if length datagram < k_header_bytes then (count ut_receive_error_update g, [])
         else
           (let header = decode_header datagram; body_len = unat (ph_length header)
            in if body_len \<noteq> length datagram - k_header_bytes then (count ut_receive_error_update g, [])
               else if ph_msg_id header = oc_MSG_UDP_BIND_REQ (ue_opcodes x) then
                 bind_datagram x clk remote header (drop k_header_bytes datagram) g
               else plain_datagram x it clk remote header datagram g))"

text \<open>The receive handler: an aborted receive ends the loop, another error is counted.\<close>

definition receive_failed :: "bool \<Rightarrow> GatewayUdp \<Rightarrow> GatewayUdp" where
  "receive_failed aborted g = (if \<not> aborted then count ut_receive_error_update g else g)"

section \<open>Sessions\<close>

text \<open>The critical sections of \<open>create_backend_connection\<close> and \<open>close_backend_connection\<close>.\<close>

definition add_session :: "string \<Rightarrow> string \<Rightarrow> string \<Rightarrow> GatewayUdp \<Rightarrow> GatewayUdp" where
  "add_session session_id client_id backend_instance_id g =
     g\<lparr>gu_sessions := idx_put session_id
         (new_session_state\<lparr>us_session := True, us_client_id := client_id,
            us_backend_instance_id := backend_instance_id\<rparr>) (gu_sessions g)\<rparr>"

definition drop_session :: "string \<Rightarrow> GatewayUdp \<Rightarrow> GatewayUdp" where
  "drop_session session_id g = g\<lparr>gu_sessions := idx_erase session_id (gu_sessions g)\<rparr>"

definition stop_udp_listener :: "GatewayUdp \<Rightarrow> GatewayUdp" where
  "stop_udp_listener g = g\<lparr>gu_udp_socket := False\<rparr>"

end
