(* ===== verification/Gateway_Udp_Safety.thy ===== *)
theory Gateway_Udp_Safety
  imports Gateway_Udp
begin

text \<open>
  What the UDP side of the gateway guarantees over every run, whatever datagrams arrive from whatever
  senders. The log of a run (sessions opened and closed, tickets issued, binds granted, frames handed to
  the backend) is accepted by a small abstract monitor, whose state is one binding per session; and an
  endpoint that the abuse guard blocked cannot bind until the block is over.
\<close>

section \<open>What the helpers leave alone\<close>

lemma total_fields [simp]:
  "gu_sessions (total f g) = gu_sessions g" "gu_udp_bind_abuse_guard (total f g) = gu_udp_bind_abuse_guard g"
  "gu_udp_bind_secret (total f g) = gu_udp_bind_secret g" "gu_udp_socket (total f g) = gu_udp_socket g"
  "gu_rudp_rollout_policy (total f g) = gu_rudp_rollout_policy g" "gu_rudp_config (total f g) = gu_rudp_config g"
  "gu_udp_opcode_allowlist (total f g) = gu_udp_opcode_allowlist g" "gu_udp_bind_ttl_ms (total f g) = gu_udp_bind_ttl_ms g"
  by (simp_all add: total_def)

lemma count_fields [simp]:
  "gu_sessions (count f g) = gu_sessions g" "gu_udp_bind_abuse_guard (count f g) = gu_udp_bind_abuse_guard g"
  "gu_udp_bind_secret (count f g) = gu_udp_bind_secret g" "gu_udp_socket (count f g) = gu_udp_socket g"
  "gu_rudp_rollout_policy (count f g) = gu_rudp_rollout_policy g" "gu_rudp_config (count f g) = gu_rudp_config g"
  "gu_udp_opcode_allowlist (count f g) = gu_udp_opcode_allowlist g" "gu_udp_bind_ttl_ms (count f g) = gu_udp_bind_ttl_ms g"
  by (simp_all add: count_def)

lemma upd_session_fields [simp]:
  "gu_udp_bind_abuse_guard (upd_session s f g) = gu_udp_bind_abuse_guard g"
  "gu_udp_bind_secret (upd_session s f g) = gu_udp_bind_secret g" "gu_udp_socket (upd_session s f g) = gu_udp_socket g"
  "gu_rudp_rollout_policy (upd_session s f g) = gu_rudp_rollout_policy g"
  "gu_udp_bind_ttl_ms (upd_session s f g) = gu_udp_bind_ttl_ms g"
  "idx_find (gu_sessions (upd_session s f g)) k =
     (if k = s then map_option f (idx_find (gu_sessions g) s) else idx_find (gu_sessions g) k)"
  by (simp_all add: upd_session_def)

lemma count_delivery_fields [simp]:
  "gu_sessions (count_delivery d g) = gu_sessions g"
  "gu_udp_bind_abuse_guard (count_delivery d g) = gu_udp_bind_abuse_guard g"
  "gu_udp_bind_secret (count_delivery d g) = gu_udp_bind_secret g"
  by (simp_all add: count_delivery_def split: DeliveryClass.splits)

lemma secure_equals_eq [simp]: "secure_equals a b \<longleftrightarrow> a = b"
  by (auto simp: secure_equals_def)

section \<open>Operations, events and the monitor\<close>

datatype UdpOp =
    UAdd string string string
  | UDrop string
  | UTicket u32 u32 u64 u64 string
  | UReceive "string list \<Rightarrow> string list" "nat \<Rightarrow> u64" UdpEndpoint bytes
  | UReceiveFailed bool
  | UEgress u64 string u16 bytes
  | UStop

fun udp_step :: "UdpEnv \<Rightarrow> GatewayUdp \<Rightarrow> UdpOp \<Rightarrow> GatewayUdp \<times> UdpEffect list" where
  "udp_step x g (UAdd sid client backend) = (add_session sid client backend g, [])"
| "udp_step x g (UDrop sid) = (drop_session sid g, [])"
| "udp_step x g (UTicket rd1 rd2 issued frame_now sid) =
     (fst (make_udp_bind_ticket_frame x rd1 rd2 issued frame_now sid g), [])"
| "udp_step x g (UReceive it clk remote datagram) = handle_datagram x it clk remote datagram g"
| "udp_step x g (UReceiveFailed aborted) = (receive_failed aborted g, [])"
| "udp_step x g (UEgress now sid msg_id frame) =
     (let (g, effects, _) = try_send_direct_client_frame x now sid msg_id frame g in (g, effects))"
| "udp_step x g UStop = (stop_udp_listener g, [])"

datatype UdpEvent =
    EvAdd string
  | EvDrop string
  | EvTicket string u64 u64
  | EvBound string UdpEndpoint u64 u64 string u64
  | EvForward string UdpEndpoint "u32 option" bytes

text \<open>A datagram that is a bind request, with its payload.\<close>

definition bind_payload :: "UdpEnv \<Rightarrow> bytes \<Rightarrow> bytes option" where
  "bind_payload x datagram =
     (if looks_like_rudp datagram \<or> length datagram < k_header_bytes \<or>
         unat (ph_length (decode_header datagram)) \<noteq> length datagram - k_header_bytes \<or>
         ph_msg_id (decode_header datagram) \<noteq> oc_MSG_UDP_BIND_REQ (ue_opcodes x)
      then None else Some (drop k_header_bytes datagram))"

text \<open>The bind that a bind request achieves: it is granted when the sender is not blocked, the payload is a
  request and the session accepts it.\<close>

definition granted_bind :: "UdpEnv \<Rightarrow> (nat \<Rightarrow> u64) \<Rightarrow> UdpEndpoint \<Rightarrow> bytes \<Rightarrow> GatewayUdp \<Rightarrow> UdpEvent list" where
  "granted_bind x clk remote payload g =
     (let req = snd (decode_direct_bind_request_payload payload
            \<lparr>dq_session_id = [], dq_nonce = 0, dq_expires_unix_ms = 0, dq_token = []\<rparr>);
          parsed = fst (decode_direct_bind_request_payload payload
            \<lparr>dq_session_id = [], dq_nonce = 0, dq_expires_unix_ms = 0, dq_token = []\<rparr>);
          sid = chars_of (dq_session_id req); token = chars_of (dq_token req);
          (guard, blocked) = block_state (endpoint_key remote) (clk 0) (gu_udp_bind_abuse_guard g);
          g = g\<lparr>gu_udp_bind_abuse_guard := guard\<rparr>
      in if bs_blocked blocked \<or> \<not> parsed \<or>
            fst (snd (apply_udp_bind_request x (clk 1) sid (dq_nonce req) (dq_expires_unix_ms req) token remote g)) \<noteq> 0
         then [] else [EvBound sid remote (dq_nonce req) (dq_expires_unix_ms req) token (clk 1)])"

text \<open>The sequence number under which a plain datagram is forwarded, when its opcode is sequenced.\<close>

definition sequenced_seq :: "UdpEnv \<Rightarrow> bytes \<Rightarrow> u32 option" where
  "sequenced_seq x datagram =
     (if looks_like_rudp datagram then None
      else case udp_policy x (ph_msg_id (decode_header datagram)) of
        None \<Rightarrow> None
      | Some policy \<Rightarrow> if op_delivery policy = DcUnreliableSequenced then Some (ph_seq (decode_header datagram)) else None)"

fun forward_event :: "UdpEnv \<Rightarrow> UdpEndpoint \<Rightarrow> bytes \<Rightarrow> UdpEffect \<Rightarrow> UdpEvent list" where
  "forward_event x remote datagram (ForwardToBackend sid frame) = [EvForward sid remote (sequenced_seq x datagram) frame]"
| "forward_event x remote datagram (SendDatagram frame endpoint) = []"

fun udp_events :: "UdpEnv \<Rightarrow> GatewayUdp \<Rightarrow> UdpOp \<Rightarrow> UdpEvent list" where
  "udp_events x g (UAdd sid client backend) = [EvAdd sid]"
| "udp_events x g (UDrop sid) = [EvDrop sid]"
| "udp_events x g (UTicket rd1 rd2 issued frame_now sid) =
     (case snd (make_udp_bind_ticket_frame x rd1 rd2 issued frame_now sid g) of
        None \<Rightarrow> []
      | Some _ \<Rightarrow> [EvTicket sid (push_bit 32 (ucast rd1) XOR ucast rd2) (issued + ucast (gu_udp_bind_ttl_ms g))])"
| "udp_events x g (UReceive it clk remote datagram) =
     (case bind_payload x datagram of None \<Rightarrow> [] | Some payload \<Rightarrow> granted_bind x clk remote payload g) @
     concat (map (forward_event x remote datagram) (snd (handle_datagram x it clk remote datagram g)))"
| "udp_events x g (UReceiveFailed aborted) = []"
| "udp_events x g (UEgress now sid msg_id frame) = []"
| "udp_events x g UStop = []"

fun udp_log :: "UdpEnv \<Rightarrow> GatewayUdp \<Rightarrow> UdpOp list \<Rightarrow> UdpEvent list" where
  "udp_log x g [] = []"
| "udp_log x g (op # ops) = udp_events x g op @ udp_log x (fst (udp_step x g op)) ops"

text \<open>The abstract state of a session: the ticket it can bind with, the endpoint it is bound to, and the
  sequence number forwarded last since the latest granted bind. The gateway resets its tracker on every granted
  bind, so the monitor forgets the number there.\<close>

record Binding =
  bi_ticket :: "(u64 \<times> u64) option"
  bi_endpoint :: "UdpEndpoint option"
  bi_last_seq :: "u32 option"

text \<open>Which events the monitor admits. A bind needs the ticket that was issued last to the session, the MAC
  of exactly that ticket, a clock that has not passed its expiry, and no other endpoint bound. A forward
  needs the session to be bound to the sender, and a sequenced one a number above the last since the bind.\<close>

fun legal :: "(string \<Rightarrow> u64 \<Rightarrow> u64 \<Rightarrow> string) \<Rightarrow> (string \<Rightarrow> Binding option) \<Rightarrow> UdpEvent \<Rightarrow> bool" where
  "legal mac st (EvAdd sid) \<longleftrightarrow> True"
| "legal mac st (EvDrop sid) \<longleftrightarrow> True"
| "legal mac st (EvTicket sid nonce expires) \<longleftrightarrow> st sid \<noteq> None"
| "legal mac st (EvBound sid remote nonce expires token now) \<longleftrightarrow>
     (case st sid of None \<Rightarrow> False
      | Some b \<Rightarrow> bi_ticket b = Some (nonce, expires) \<and> now \<le> expires \<and> token = mac sid nonce expires \<and>
          token \<noteq> [] \<and> (bi_endpoint b = None \<or> bi_endpoint b = Some remote))"
| "legal mac st (EvForward sid remote seq frame) \<longleftrightarrow>
     (case st sid of None \<Rightarrow> False
      | Some b \<Rightarrow> bi_endpoint b = Some remote \<and>
          (case (seq, bi_last_seq b) of (Some n, Some l) \<Rightarrow> l < n | _ \<Rightarrow> True))"

fun monitor :: "(string \<Rightarrow> Binding option) \<Rightarrow> UdpEvent \<Rightarrow> (string \<Rightarrow> Binding option)" where
  "monitor st (EvAdd sid) = st(sid \<mapsto> \<lparr>bi_ticket = None, bi_endpoint = None, bi_last_seq = None\<rparr>)"
| "monitor st (EvDrop sid) = st(sid := None)"
| "monitor st (EvTicket sid nonce expires) =
     st(sid \<mapsto> \<lparr>bi_ticket = (if nonce = 0 \<or> expires = 0 then None else Some (nonce, expires)),
               bi_endpoint = None, bi_last_seq = None\<rparr>)"
| "monitor st (EvBound sid remote nonce expires token now) =
     st(sid := map_option (\<lambda>b. b\<lparr>bi_endpoint := Some remote, bi_last_seq := None\<rparr>) (st sid))"
| "monitor st (EvForward sid remote seq frame) =
     st(sid := map_option (\<lambda>b. case seq of None \<Rightarrow> b | Some n \<Rightarrow> b\<lparr>bi_last_seq := Some n\<rparr>) (st sid))"

fun accepts :: "(string \<Rightarrow> u64 \<Rightarrow> u64 \<Rightarrow> string) \<Rightarrow> (string \<Rightarrow> Binding option) \<Rightarrow> UdpEvent list \<Rightarrow> bool" where
  "accepts mac st [] \<longleftrightarrow> True"
| "accepts mac st (e # es) \<longleftrightarrow> legal mac st e \<and> accepts mac (monitor st e) es"

section \<open>The gateway implements the monitor\<close>

definition binding_of :: "SessionState \<Rightarrow> Binding" where
  "binding_of s =
     \<lparr>bi_ticket = (if us_udp_expires_unix_ms s = 0 \<or> us_udp_nonce s = 0 \<or> us_udp_token s = [] then None
        else Some (us_udp_nonce s, us_udp_expires_unix_ms s)),
      bi_endpoint = (if us_udp_bound s then Some (us_udp_endpoint s) else None),
      bi_last_seq = (if um_initialized (us_udp_sequenced_metrics s)
        then Some (um_last_seq (us_udp_sequenced_metrics s)) else None)\<rparr>"

definition bindings :: "GatewayUdp \<Rightarrow> string \<Rightarrow> Binding option" where
  "bindings g sid = map_option binding_of (idx_find (gu_sessions g) sid)"

lemma bindings_sessions: "gu_sessions g' = gu_sessions g \<Longrightarrow> bindings g' = bindings g"
  by (simp add: bindings_def fun_eq_iff)

lemma bindings_count [simp]: "bindings (count f g) = bindings g" "bindings (total h g) = bindings g"
  "bindings (count_delivery d g) = bindings g"
  "bindings (g\<lparr>gu_udp_bind_abuse_guard := a\<rparr>) = bindings g" "bindings (g\<lparr>gu_rudp_counters := c\<rparr>) = bindings g"
  by (rule bindings_sessions, simp)+

lemma bindings_upd:
  "(\<And>s. binding_of (f s) = h (binding_of s)) \<Longrightarrow> bindings (upd_session sid f g) = (bindings g)(sid := map_option h (bindings g sid))"
  by (auto simp: bindings_def fun_eq_iff option.map_comp comp_def)

lemma bindings_upd_same: "(\<And>s. binding_of (f s) = binding_of s) \<Longrightarrow> bindings (upd_session sid f g) = bindings g"
  by (auto simp: bindings_def fun_eq_iff option.map_comp comp_def)

lemma sequenced_reset_initialized [simp]: "\<not> um_initialized (sequenced_reset m)"
  by (simp add: sequenced_reset_def)

lemma bindings_backoff [simp]: "bindings (apply_retry_backoff now sid g) = bindings g"
  unfolding apply_retry_backoff_def bindings_count by (rule bindings_upd_same) (simp add: binding_of_def Let_def)

lemma bindings_failure [simp]: "bindings (record_bind_failure key now g) = bindings g"
  by (simp add: record_bind_failure_def Let_def split: prod.splits)

lemma errc_nonzero [simp]:
  "INVALID_PAYLOAD \<noteq> 0" "UNAUTHORIZED \<noteq> 0" "SERVER_BUSY \<noteq> 0" "FORBIDDEN \<noteq> 0" "UNKNOWN_MSG_ID \<noteq> 0"
  by (simp_all add: errc_defs)

lemma apply_bind_refused:
  "fst (snd (apply_udp_bind_request x now sid nonce expires token remote g)) \<noteq> 0 \<Longrightarrow>
   bindings (fst (apply_udp_bind_request x now sid nonce expires token remote g)) = bindings g"
  by (auto simp: apply_udp_bind_request_def Let_def split: option.splits if_splits)

lemma apply_bind_granted:
  assumes "fst (snd (apply_udp_bind_request x now sid nonce expires token remote g)) = 0"
  shows "legal (make_udp_bind_token x g) (bindings g) (EvBound sid remote nonce expires token now)"
    and "bindings (fst (apply_udp_bind_request x now sid nonce expires token remote g)) =
      monitor (bindings g) (EvBound sid remote nonce expires token now)"
proof -
  from assms obtain s where s: "idx_find (gu_sessions g) sid = Some s"
      "us_udp_expires_unix_ms s \<noteq> 0" "us_udp_nonce s \<noteq> 0" "us_udp_token s \<noteq> []"
      "\<not> us_udp_expires_unix_ms s < now" "expires = us_udp_expires_unix_ms s" "nonce = us_udp_nonce s"
      "token = us_udp_token s" "token = make_udp_bind_token x g sid nonce expires"
      "us_udp_bound s \<longrightarrow> us_udp_endpoint s = remote"
      "sid \<noteq> []" "token \<noteq> []" "\<not> now < us_udp_bind_retry_after_unix_ms s" "\<not> expires < now"
    by (auto simp: apply_udp_bind_request_def Let_def split: option.splits if_splits)
  show "legal (make_udp_bind_token x g) (bindings g) (EvBound sid remote nonce expires token now)"
    using s by (auto simp: bindings_def binding_of_def)
  show "bindings (fst (apply_udp_bind_request x now sid nonce expires token remote g)) =
      monitor (bindings g) (EvBound sid remote nonce expires token now)"
    using s by (auto simp: apply_udp_bind_request_def Let_def bindings_def binding_of_def fun_eq_iff)
qed

lemma refuse_fields [simp]: "fst (refuse x now remote code message seq g) = g"
  "concat (map (forward_event x remote d) (snd (refuse x now remote code message seq g))) = []"
  by (simp_all add: refuse_def send_udp_datagram_def)

lemma token_guard [simp]: "make_udp_bind_token x (g\<lparr>gu_udp_bind_abuse_guard := a\<rparr>) = make_udp_bind_token x g"
  by (simp add: make_udp_bind_token_def fun_eq_iff)

lemma bind_datagram_monitor:
  fixes x clk remote header payload g
  defines "r \<equiv> bind_datagram x clk remote header payload g" and "es \<equiv> granted_bind x clk remote payload g"
  shows "accepts (make_udp_bind_token x g) (bindings g) es \<and> bindings (fst r) = foldl monitor (bindings g) es \<and>
    concat (map (forward_event x remote d) (snd r)) = []"
proof -
  obtain guard blocked where b: "block_state (endpoint_key remote) (clk 0) (gu_udp_bind_abuse_guard g) = (guard, blocked)"
    by (cases "block_state (endpoint_key remote) (clk 0) (gu_udp_bind_abuse_guard g)")
  obtain parsed req where p: "decode_direct_bind_request_payload payload
      \<lparr>dq_session_id = [], dq_nonce = 0, dq_expires_unix_ms = 0, dq_token = []\<rparr> = (parsed, req)"
    by (cases "decode_direct_bind_request_payload payload
      \<lparr>dq_session_id = [], dq_nonce = 0, dq_expires_unix_ms = 0, dq_token = []\<rparr>")
  let ?g = "g\<lparr>gu_udp_bind_abuse_guard := guard\<rparr>"
  let ?args = "\<lambda>f. f x (clk 1) (chars_of (dq_session_id req)) (dq_nonce req) (dq_expires_unix_ms req) (chars_of (dq_token req)) remote ?g"
  obtain g' code message where a: "?args apply_udp_bind_request = (g', code, message)"
    by (cases "?args apply_udp_bind_request") auto
  have send: "concat (map (forward_event x remote d) (send_udp_datagram h f e)) = []" for h f e
    by (simp add: send_udp_datagram_def)
  show ?thesis
  proof (cases "bs_blocked blocked \<or> \<not> parsed")
    case True
    then show ?thesis
      unfolding r_def es_def bind_datagram_def granted_bind_def Let_def b p prod.case fst_conv snd_conv
      by (cases "bs_blocked blocked") simp_all
  next
    case False
    show ?thesis
    proof (cases "code = 0")
      case True
      with False apply_bind_granted [of x "clk 1" "chars_of (dq_session_id req)" "dq_nonce req" "dq_expires_unix_ms req"
          "chars_of (dq_token req)" remote ?g]
      show ?thesis
        unfolding r_def es_def bind_datagram_def granted_bind_def Let_def b p a prod.case fst_conv snd_conv
        by (simp add: send)
    next
      case code: False
      with False apply_bind_refused [of x "clk 1" "chars_of (dq_session_id req)" "dq_nonce req" "dq_expires_unix_ms req"
          "chars_of (dq_token req)" remote ?g]
      show ?thesis
        unfolding r_def es_def bind_datagram_def granted_bind_def Let_def b p a prod.case fst_conv snd_conv
        by (simp add: send)
    qed
  qed
qed

lemma bound_session_binding:
  "bound_session it remote g = Some sid \<Longrightarrow> \<exists>s. idx_find (gu_sessions g) sid = Some s \<and> us_udp_bound s \<and> us_udp_endpoint s = remote"
  by (auto simp: bound_session_def find_bound_def find_Some_iff split: option.splits if_splits)

lemma on_packet_accepted:
  "on_packet m seq now = (m', u) \<Longrightarrow>
   (if ur_accepted u then um_initialized m' \<and> um_last_seq m' = seq \<and> (um_initialized m \<longrightarrow> um_last_seq m < seq) else m' = m)"
  by (auto simp: on_packet_def new_update_result_def Let_def split: if_splits)

lemma sequence_check_binding:
  assumes "idx_find (gu_sessions g) sid = Some s" and "us_udp_bound s" and "us_udp_endpoint s = remote"
    and "sequence_check now remote seq sid g = (g', u)"
  shows "if ur_accepted u
    then legal mac (bindings g) (EvForward sid remote (Some seq) frame) \<and>
      bindings g' = monitor (bindings g) (EvForward sid remote (Some seq) frame)
    else bindings g' = bindings g"
proof -
  obtain m where m: "on_packet (us_udp_sequenced_metrics s) seq now = (m, u)"
      "g' = upd_session sid (\<lambda>s. s\<lparr>us_udp_sequenced_metrics := m\<rparr>) g"
    using assms by (auto simp: sequence_check_def split: prod.splits)
  have "bindings g' = (bindings g)(sid \<mapsto> binding_of (s\<lparr>us_udp_sequenced_metrics := m\<rparr>))"
    using assms(1) by (auto simp: m(2) bindings_def)
  moreover have "bindings g sid = Some (binding_of s)" using assms(1) by (simp add: bindings_def)
  ultimately show ?thesis using on_packet_accepted [OF m(1)] assms(2,3)
    by (auto simp: binding_of_def fun_upd_idem)
qed

lemma plain_datagram_monitor:
  fixes x it clk remote d g
  assumes "\<not> looks_like_rudp d"
  defines "r \<equiv> plain_datagram x it clk remote (decode_header d) d g"
  defines "es \<equiv> concat (map (forward_event x remote d) (snd r))"
  shows "accepts mac (bindings g) es \<and> bindings (fst r) = foldl monitor (bindings g) es"
proof -
  let ?h = "decode_header d"
  consider (unbound) "bound_session it remote g = None"
    | (unknown) sid where "bound_session it remote g = Some sid" "udp_policy x (ph_msg_id ?h) = None"
    | (refused) sid policy where "bound_session it remote g = Some sid" "udp_policy x (ph_msg_id ?h) = Some policy"
        "ph_msg_id ?h \<notin> gu_udp_opcode_allowlist g \<or> \<not> transport_allows (op_transport policy) TkUdp"
    | (allowed) sid policy where "bound_session it remote g = Some sid" "udp_policy x (ph_msg_id ?h) = Some policy"
        "ph_msg_id ?h \<in> gu_udp_opcode_allowlist g" "transport_allows (op_transport policy) TkUdp"
    by blast
  then show ?thesis
  proof cases
    case (allowed sid policy)
    obtain s where s: "idx_find (gu_sessions g) sid = Some s" "us_udp_bound s" "us_udp_endpoint s = remote"
      using bound_session_binding [OF allowed(1)] by blast
    show ?thesis
    proof (cases "op_delivery policy = DcUnreliableSequenced")
      case True
      obtain g' u where c: "sequence_check (clk 0) remote (ph_seq ?h) sid g = (g', u)"
        by (cases "sequence_check (clk 0) remote (ph_seq ?h) sid g")
      have "sequenced_seq x d = Some (ph_seq ?h)" using True allowed(2) assms(1) by (simp add: sequenced_seq_def)
      with True sequence_check_binding [OF s c, of mac d] allowed c show ?thesis
        by (auto simp: es_def r_def plain_datagram_def Let_def)
    next
      case False
      then have "sequenced_seq x d = None" using allowed(2) assms(1) by (simp add: sequenced_seq_def)
      moreover have "bindings g sid = Some (binding_of s)" using s(1) by (simp add: bindings_def)
      ultimately show ?thesis using False s allowed
        by (auto simp: es_def r_def plain_datagram_def Let_def binding_of_def)
    qed
  qed (auto simp: es_def r_def plain_datagram_def Let_def)
qed

text \<open>The policy under which a released frame is forwarded; \<open>None\<close> stops the loop.\<close>

definition inner_policy :: "UdpEnv \<Rightarrow> GatewayUdp \<Rightarrow> bytes \<Rightarrow> OpcodePolicy option" where
  "inner_policy x g f =
     (if length f < k_header_bytes \<or> unat (ph_length (decode_header f)) \<noteq> length f - k_header_bytes then None
      else case udp_policy x (ph_msg_id (decode_header f)) of None \<Rightarrow> None
        | Some p \<Rightarrow> if opcode_allowed (gu_rudp_rollout_policy g) (ph_msg_id (decode_header f)) \<and>
            transport_allows (op_transport p) TkUdp then Some p else None)"

lemma forward_inner_Cons:
  "forward_inner x sid (f # rest) g =
     (case inner_policy x g f of
        None \<Rightarrow> (g, [], True)
      | Some p \<Rightarrow> (case forward_inner x sid rest (count_delivery (op_delivery p)
            (count ut_rudp_inner_forward_update (count ut_forward_update g))) of
          (g, effects, invalid) \<Rightarrow> (g, ForwardToBackend sid f # effects, invalid)))"
  by (simp add: inner_policy_def Let_def split: option.split)

lemma forward_inner_fields:
  "forward_inner x sid frames g = (g', effects, invalid) \<Longrightarrow>
   gu_sessions g' = gu_sessions g \<and> (\<exists>fs. effects = map (ForwardToBackend sid) fs)"
proof (induction frames arbitrary: g g' effects invalid)
  case (Cons f rest)
  show ?case
  proof (cases "inner_policy x g f")
    case None
    with Cons.prems show ?thesis by (simp add: forward_inner_Cons del: forward_inner.simps)
  next
    case (Some p)
    let ?g = "count_delivery (op_delivery p) (count ut_rudp_inner_forward_update (count ut_forward_update g))"
    obtain e where e: "forward_inner x sid rest ?g = (g', e, invalid)" "effects = ForwardToBackend sid f # e"
      using Cons.prems Some by (auto simp: forward_inner_Cons simp del: forward_inner.simps split: prod.splits)
    with Cons.IH [OF e(1)] show ?thesis by (auto intro: exI [of _ "f # _"])
  qed
qed simp

lemma bindings_rudp_process: "rudp_process now remote d sid g = (g', out) \<Longrightarrow> bindings g' = bindings g"
  by (auto simp: rudp_process_def Let_def split: option.splits if_splits prod.splits
      intro!: bindings_upd_same simp: binding_of_def)

lemma accepts_forwards:
  assumes "st sid = Some b" and "bi_endpoint b = Some remote"
  shows "accepts mac st (map (EvForward sid remote None) fs) \<and> foldl monitor st (map (EvForward sid remote None) fs) = st"
  using assms by (induction fs) (auto simp: fun_upd_idem option.map_ident)

lemma rudp_datagram_monitor:
  fixes x it now remote d g
  assumes "looks_like_rudp d"
  defines "r \<equiv> rudp_datagram x it now remote d g"
  defines "es \<equiv> concat (map (forward_event x remote d) (snd r))"
  shows "accepts mac (bindings g) es \<and> bindings (fst r) = foldl monitor (bindings g) es"
proof (cases "bound_session it remote (count ut_rudp_packets_update g)")
  case None
  then show ?thesis by (simp add: es_def r_def rudp_datagram_def Let_def)
next
  case (Some sid)
  let ?g = "count ut_rudp_packets_update g"
  obtain s where s: "idx_find (gu_sessions g) sid = Some s" "us_udp_bound s" "us_udp_endpoint s = remote"
    using bound_session_binding [OF Some] by auto
  obtain g1 eg inner n fb where p: "rudp_process now remote d sid ?g = (g1, eg, inner, n, fb)"
    by (cases "rudp_process now remote d sid ?g") auto
  define g2 where "g2 = (if n > 0 then total (ut_retransmit_update (\<lambda>m. m + n)) g1 else g1)"
  obtain g3 fw inv where f: "(if \<not> fb then forward_inner x sid inner g2 else (g2, [], False)) = (g3, fw, inv)"
    by (cases "if \<not> fb then forward_inner x sid inner g2 else (g2, [], False)") auto
  have g2: "bindings g2 = bindings g" using bindings_rudp_process [OF p] by (simp add: g2_def)
  have "gu_sessions g3 = gu_sessions g2 \<and> (\<exists>fs. fw = map (ForwardToBackend sid) fs)"
    using f forward_inner_fields [of x sid inner g2 g3 fw inv] by (auto split: if_splits)
  then obtain fs where fw: "fw = map (ForwardToBackend sid) fs" and g3: "bindings g3 = bindings g"
    using g2 bindings_sessions [of g3 g2] by auto
  have inv: "bindings (upd_session sid (\<lambda>s. s\<lparr>us_rudp_fallback_to_tcp := True\<rparr>) g3) = bindings g"
    unfolding g3 [symmetric] by (rule bindings_upd_same) (simp add: binding_of_def)
  have send: "concat (map (forward_event x remote d) (concat (map (\<lambda>f. send_udp_datagram h f e) l))) = []" for h e l
    by (induction l) (simp_all add: send_udp_datagram_def)
  have seq: "sequenced_seq x d = None" using assms(1) by (simp add: sequenced_seq_def)
  have es: "es = map (EvForward sid remote None) fs"
    unfolding es_def r_def rudp_datagram_def Let_def Some p prod.case option.case g2_def [symmetric] f
    by (simp add: send fw seq comp_def)
  have st: "bindings (fst r) = bindings g"
    unfolding r_def rudp_datagram_def Let_def Some p prod.case option.case g2_def [symmetric] f
    using inv g3 by simp
  have "bindings g sid = Some (binding_of s)" "bi_endpoint (binding_of s) = Some remote"
    using s by (simp_all add: bindings_def binding_of_def)
  from accepts_forwards [where st = "bindings g" and sid = sid, OF this] st es show ?thesis by simp
qed

lemma apply_code_cong:
  "gu_sessions g' = gu_sessions g \<Longrightarrow> gu_udp_bind_secret g' = gu_udp_bind_secret g \<Longrightarrow>
   fst (snd (apply_udp_bind_request x now sid nonce expires token remote g')) =
   fst (snd (apply_udp_bind_request x now sid nonce expires token remote g))"
  by (simp add: apply_udp_bind_request_def make_udp_bind_token_def Let_def if_distrib [of fst] if_distrib [of snd]
      split: option.split cong: if_cong)

lemma granted_bind_cong:
  assumes "gu_sessions g' = gu_sessions g" and "gu_udp_bind_secret g' = gu_udp_bind_secret g"
    and "gu_udp_bind_abuse_guard g' = gu_udp_bind_abuse_guard g"
  shows "granted_bind x clk remote p g' = granted_bind x clk remote p g"
proof -
  have "fst (snd (apply_udp_bind_request x now sid nonce expires token remote (g'\<lparr>gu_udp_bind_abuse_guard := a\<rparr>))) =
      fst (snd (apply_udp_bind_request x now sid nonce expires token remote (g\<lparr>gu_udp_bind_abuse_guard := a\<rparr>)))"
    for now sid nonce expires token a
    by (rule apply_code_cong) (simp_all add: assms)
  then show ?thesis unfolding granted_bind_def Let_def assms by simp
qed

lemma handle_datagram_monitor:
  "accepts (make_udp_bind_token x g) (bindings g) (udp_events x g (UReceive it clk remote d)) \<and>
   bindings (fst (handle_datagram x it clk remote d g)) = foldl monitor (bindings g) (udp_events x g (UReceive it clk remote d))"
proof -
  define g1 where "g1 = (if length d > 0 then count ut_packets_update g else g)"
  have g1: "bindings g1 = bindings g" "make_udp_bind_token x g1 = make_udp_bind_token x g"
    by (simp_all add: g1_def make_udp_bind_token_def fun_eq_iff)
  have handle: "handle_datagram x it clk remote d g =
     (if looks_like_rudp d then rudp_datagram x it (clk 0) remote d g1
      else if length d < k_header_bytes then (count ut_receive_error_update g1, [])
      else if unat (ph_length (decode_header d)) \<noteq> length d - k_header_bytes then (count ut_receive_error_update g1, [])
      else if ph_msg_id (decode_header d) = oc_MSG_UDP_BIND_REQ (ue_opcodes x)
        then bind_datagram x clk remote (decode_header d) (drop k_header_bytes d) g1
      else plain_datagram x it clk remote (decode_header d) d g1)"
    by (simp only: handle_datagram_def Let_def g1_def)
  have guard: "granted_bind x clk remote p g1 = granted_bind x clk remote p g" for p
    by (rule granted_bind_cong) (simp_all add: g1_def)
  consider (rudp) "looks_like_rudp d"
    | (short) "\<not> looks_like_rudp d" "length d < k_header_bytes \<or> unat (ph_length (decode_header d)) \<noteq> length d - k_header_bytes"
    | (bind) "\<not> looks_like_rudp d" "\<not> length d < k_header_bytes" "unat (ph_length (decode_header d)) = length d - k_header_bytes"
        "ph_msg_id (decode_header d) = oc_MSG_UDP_BIND_REQ (ue_opcodes x)"
    | (plain) "\<not> looks_like_rudp d" "\<not> length d < k_header_bytes" "unat (ph_length (decode_header d)) = length d - k_header_bytes"
        "ph_msg_id (decode_header d) \<noteq> oc_MSG_UDP_BIND_REQ (ue_opcodes x)"
    by blast
  then show ?thesis
  proof cases
    case rudp
    then show ?thesis
      using rudp_datagram_monitor [OF rudp, of "make_udp_bind_token x g" g1 x remote it "clk 0"]
      by (simp add: g1 bind_payload_def handle)
  next
    case short
    then show ?thesis by (auto simp: bind_payload_def handle g1)
  next
    case bind
    then show ?thesis
      using bind_datagram_monitor [of x g1 clk remote "drop k_header_bytes d" "decode_header d" d]
      by (simp add: g1 guard bind_payload_def handle del: concat_eq_Nil_conv)
  next
    case plain
    then show ?thesis
      using plain_datagram_monitor [OF plain(1), of "make_udp_bind_token x g" g1 x remote it clk]
      by (simp add: g1 bind_payload_def handle)
  qed
qed

section \<open>What each handler keeps\<close>

definition kept :: "GatewayUdp \<Rightarrow> string \<times> UdpBindAbuseGuard" where
  "kept g = (gu_udp_bind_secret g, gu_udp_bind_abuse_guard g)"

lemma kept_helpers [simp]:
  "kept (count f g) = kept g" "kept (total h g) = kept g" "kept (count_delivery d g) = kept g"
  "kept (upd_session sid k g) = kept g" "kept (g\<lparr>gu_rudp_counters := c\<rparr>) = kept g" "kept (g\<lparr>gu_sessions := t\<rparr>) = kept g"
  "kept (g\<lparr>gu_udp_socket := b\<rparr>) = kept g" "kept (apply_retry_backoff now sid g) = kept g"
  by (simp_all add: kept_def apply_retry_backoff_def)

lemma kept_apply: "kept (fst (apply_udp_bind_request x now sid nonce expires token remote g)) = kept g"
  by (auto simp: apply_udp_bind_request_def Let_def split: option.splits)

lemma kept_plain: "kept (fst (plain_datagram x it clk remote h d g)) = kept g"
proof -
  have "kept (fst (sequence_check now remote seq sid g)) = kept g" for now seq sid
    by (auto simp: sequence_check_def split: option.splits prod.splits)
  then show ?thesis
    by (auto simp: plain_datagram_def Let_def split: option.splits prod.splits) (metis fst_conv)+
qed

lemma kept_forward_inner: "kept (fst (forward_inner x sid frames g)) = kept g"
proof (induction frames arbitrary: g)
  case (Cons f rest)
  then show ?case
    by (simp add: forward_inner_Cons case_prod_beta del: forward_inner.simps split: option.split)
qed simp

lemma kept_rudp: "kept (fst (rudp_datagram x it now remote d g)) = kept g"
proof (cases "bound_session it remote (count ut_rudp_packets_update g)")
  case (Some sid)
  obtain g1 eg inner n fb where p: "rudp_process now remote d sid (count ut_rudp_packets_update g) = (g1, eg, inner, n, fb)"
    by (cases "rudp_process now remote d sid (count ut_rudp_packets_update g)") auto
  have "kept g1 = kept (count ut_rudp_packets_update g)"
    using p by (auto simp: rudp_process_def Let_def split: option.splits if_splits prod.splits)
  with Some show ?thesis
    unfolding rudp_datagram_def Let_def Some p prod.case option.case
    by (simp add: kept_forward_inner case_prod_beta)
qed (simp add: rudp_datagram_def Let_def)

lemma kept_egress: "kept (fst (try_send_direct_client_frame x now sid msg_id frame g)) = kept g"
  by (simp add: try_send_direct_client_frame_def Let_def case_prod_beta split: option.split DirectDeliveryRoute.split)

lemma bindings_egress: "bindings (fst (try_send_direct_client_frame x now sid msg_id frame g)) = bindings g"
proof -
  have e: "bindings (upd_session sid (\<lambda>s. s\<lparr>us_rudp_engine := e\<rparr>) h) = bindings h" for e h
    by (rule bindings_upd_same) (simp add: binding_of_def)
  have f: "bindings (upd_session sid (\<lambda>s. s\<lparr>us_rudp_fallback_to_tcp := True\<rparr>) h) = bindings h" for h
    by (rule bindings_upd_same) (simp add: binding_of_def)
  show ?thesis
    by (simp add: try_send_direct_client_frame_def Let_def case_prod_beta e f split: option.split DirectDeliveryRoute.split)
qed

lemma kept_ticket: "kept (fst (make_udp_bind_ticket_frame x rd1 rd2 issued frame_now sid g)) = kept g"
  by (simp add: make_udp_bind_ticket_frame_def Let_def split: option.split)

text \<open>The abuse guard only changes through its own operations, all of them at the time the datagram came in.\<close>

lemma bind_datagram_guard:
  fixes x clk remote h p g
  defines "g' \<equiv> fst (bind_datagram x clk remote h p g)"
  shows "gu_udp_bind_secret g' = gu_udp_bind_secret g \<and>
    (\<exists>ps. gu_udp_bind_abuse_guard g' = foldl guard_apply (gu_udp_bind_abuse_guard g) ps \<and>
       (\<forall>q \<in> set ps. \<forall>limit. clk 0 < limit \<longrightarrow> guard_time q limit))"
proof -
  let ?key = "endpoint_key remote"
  let ?q = "GuardQuery ?key (clk 0)" and ?f = "GuardFail ?key (clk 0)" and ?s = "GuardSuccess ?key"
  have fail: "kept (record_bind_failure ?key (clk 0) h) = (gu_udp_bind_secret h, guard_apply (gu_udp_bind_abuse_guard h) ?f)" for h
    by (simp add: kept_def record_bind_failure_def Let_def case_prod_beta)
  have "kept g' = (gu_udp_bind_secret g, foldl guard_apply (gu_udp_bind_abuse_guard g) ps)
      \<and> set ps \<subseteq> {?q, ?f, ?s} \<Longrightarrow> ?thesis" for ps
    by (auto simp: kept_def intro!: exI [of _ ps])
  moreover have "\<exists>ps. kept g' = (gu_udp_bind_secret g, foldl guard_apply (gu_udp_bind_abuse_guard g) ps) \<and> set ps \<subseteq> {?q, ?f, ?s}"
  proof -
    obtain guard blocked where b: "block_state ?key (clk 0) (gu_udp_bind_abuse_guard g) = (guard, blocked)"
      by (cases "block_state ?key (clk 0) (gu_udp_bind_abuse_guard g)")
    have guard: "guard = guard_apply (gu_udp_bind_abuse_guard g) ?q" by (simp add: b)
    obtain parsed req where d: "decode_direct_bind_request_payload p
        \<lparr>dq_session_id = [], dq_nonce = 0, dq_expires_unix_ms = 0, dq_token = []\<rparr> = (parsed, req)"
      by (cases "decode_direct_bind_request_payload p
        \<lparr>dq_session_id = [], dq_nonce = 0, dq_expires_unix_ms = 0, dq_token = []\<rparr>")
    obtain g1 code message where a: "apply_udp_bind_request x (clk 1) (chars_of (dq_session_id req)) (dq_nonce req)
        (dq_expires_unix_ms req) (chars_of (dq_token req)) remote (g\<lparr>gu_udp_bind_abuse_guard := guard\<rparr>) = (g1, code, message)"
      by (cases "apply_udp_bind_request x (clk 1) (chars_of (dq_session_id req)) (dq_nonce req)
        (dq_expires_unix_ms req) (chars_of (dq_token req)) remote (g\<lparr>gu_udp_bind_abuse_guard := guard\<rparr>)") auto
    have g1: "gu_udp_bind_secret g1 = gu_udp_bind_secret g" "gu_udp_bind_abuse_guard g1 = guard"
      using kept_apply [of x "clk 1" "chars_of (dq_session_id req)" "dq_nonce req" "dq_expires_unix_ms req"
          "chars_of (dq_token req)" remote "g\<lparr>gu_udp_bind_abuse_guard := guard\<rparr>", unfolded a fst_conv]
      by (simp_all add: kept_def)
    let ?ps = "if bs_blocked blocked then [?q] else if \<not> parsed \<or> code \<noteq> 0 then [?q, ?f] else [?q, ?s]"
    have "kept g' = (gu_udp_bind_secret g, foldl guard_apply (gu_udp_bind_abuse_guard g) ?ps)"
      unfolding g'_def bind_datagram_def Let_def b d a prod.case
      using g1 guard by (simp add: fail del: guard_apply.simps(1,3)) (simp add: kept_def)
    moreover have "set ?ps \<subseteq> {?q, ?f, ?s}" by auto
    ultimately show ?thesis by blast
  qed
  ultimately show ?thesis by blast
qed

definition op_before :: "u64 \<Rightarrow> UdpOp \<Rightarrow> bool" where
  "op_before limit op = (case op of UReceive it clk remote datagram \<Rightarrow> clk 0 < limit | _ \<Rightarrow> True)"

lemma step_kept:
  "gu_udp_bind_secret (fst (udp_step x g op)) = gu_udp_bind_secret g \<and>
   (\<exists>ps. gu_udp_bind_abuse_guard (fst (udp_step x g op)) = foldl guard_apply (gu_udp_bind_abuse_guard g) ps \<and>
      (\<forall>limit. op_before limit op \<longrightarrow> (\<forall>q \<in> set ps. guard_time q limit)))"
proof -
  have same: ?thesis if "kept (fst (udp_step x g op)) = kept g"
    using that by (auto simp: kept_def intro!: exI [of _ "[]"])
  show ?thesis
  proof (cases op)
    case (UReceive it clk remote d)
    let ?bind = "\<lambda>h. bind_datagram x clk remote (decode_header d) (drop k_header_bytes d) h"
    let ?g1 = "if length d > 0 then count ut_packets_update g else g"
    show ?thesis
    proof (cases "handle_datagram x it clk remote d g = ?bind ?g1")
      case True
      then show ?thesis
        using bind_datagram_guard [of x clk remote "decode_header d" "drop k_header_bytes d" ?g1] UReceive
        by (auto simp: op_before_def)
    next
      case False
      then have "kept (fst (handle_datagram x it clk remote d g)) = kept g"
        by (auto simp: handle_datagram_def Let_def kept_rudp kept_plain split: if_splits)
      with UReceive show ?thesis by (intro same) simp
    qed
  qed (rule same, simp add: add_session_def drop_session_def kept_ticket receive_failed_def kept_egress stop_udp_listener_def case_prod_beta)+
qed

lemma step_monitor:
  "accepts (make_udp_bind_token x g) (bindings g) (udp_events x g op) \<and>
   bindings (fst (udp_step x g op)) = foldl monitor (bindings g) (udp_events x g op)"
proof (cases op)
  case (UAdd sid client backend)
  then show ?thesis
    by (auto simp: bindings_def add_session_def fun_eq_iff binding_of_def new_session_state_def new_sequenced_metrics_def)
next
  case (UDrop sid)
  then show ?thesis
    by (auto simp: bindings_def drop_session_def fun_eq_iff idx.find_erase)
next
  case (UTicket rd1 rd2 issued frame_now sid)
  show ?thesis
  proof (cases "snd (make_udp_bind_ticket_frame x rd1 rd2 issued frame_now sid g)")
    case None
    then have "fst (make_udp_bind_ticket_frame x rd1 rd2 issued frame_now sid g) = g"
      by (auto simp: make_udp_bind_ticket_frame_def Let_def split: if_splits option.splits)
    with None UTicket show ?thesis by simp
  next
    case (Some frame)
    then obtain s where "idx_find (gu_sessions g) sid = Some s"
        "make_udp_bind_token x g sid (push_bit 32 (ucast rd1) XOR ucast rd2) (issued + ucast (gu_udp_bind_ttl_ms g)) \<noteq> []"
        "gu_udp_listen_port g \<noteq> 0" "gu_udp_bind_secret g \<noteq> []"
      by (auto simp: make_udp_bind_ticket_frame_def Let_def split: if_splits option.splits)
    with Some UTicket show ?thesis
      by (auto simp: make_udp_bind_ticket_frame_def Let_def bindings_def binding_of_def fun_eq_iff)
  qed
next
  case (UReceive it clk remote d)
  then show ?thesis using handle_datagram_monitor [of x g it clk remote d] by simp
next
  case (UReceiveFailed b)
  then show ?thesis by (simp add: receive_failed_def)
next
  case (UEgress now sid msg_id frame)
  then show ?thesis using bindings_egress [of x now sid msg_id frame g] by (simp add: case_prod_beta)
next
  case UStop
  then show ?thesis by (simp add: stop_udp_listener_def bindings_sessions [of "g\<lparr>gu_udp_socket := False\<rparr>" g])
qed


section \<open>The guarantees\<close>

lemma accepts_append: "accepts mac st (es @ fs) \<longleftrightarrow> accepts mac st es \<and> accepts mac (foldl monitor st es) fs"
  by (induction es arbitrary: st) auto

lemma log_monitored: "accepts (make_udp_bind_token x g) (bindings g) (udp_log x g ops)"
proof (induction ops arbitrary: g)
  case (Cons op ops)
  have "make_udp_bind_token x (fst (udp_step x g op)) = make_udp_bind_token x g"
    using step_kept [of x g op] by (simp add: make_udp_bind_token_def fun_eq_iff)
  with Cons [of "fst (udp_step x g op)"] step_monitor [of x g op] show ?case by (simp add: accepts_append)
qed simp

text \<open>C4.
  The UDP ingress only trusts what it has authenticated. Start a gateway without sessions and let anything
  happen: sessions opened and closed, tickets issued, arbitrary datagrams from arbitrary senders. Then a
  session is only ever bound with the ticket that was issued to it last, by a token that is the keyed MAC of
  exactly that session, nonce and expiry, not after the expiry and not while another endpoint is bound; a
  frame is handed to the backend of a session only when it came from the endpoint the session is bound to
  under its current ticket. Between one granted bind of a session and the next, the plain datagrams of its
  unreliable sequenced opcodes are handed over with strictly increasing sequence numbers. A granted bind starts
  the numbering afresh, also when the bound endpoint repeats its request under the same ticket; frames carried by
  RUDP and frames of the other delivery classes are not ordered by the monitor.\<close>

theorem udp_ingress_authentic:
  "accepts (make_udp_bind_token x (g\<lparr>gu_sessions := []\<rparr>)) (\<lambda>_. None) (udp_log x (g\<lparr>gu_sessions := []\<rparr>) ops)"
proof -
  have "bindings (g\<lparr>gu_sessions := []\<rparr>) = (\<lambda>_. None)" by (simp add: bindings_def fun_eq_iff idx_find_def)
  then show ?thesis using log_monitored [of x "g\<lparr>gu_sessions := []\<rparr>" ops] by simp
qed

definition udp_run :: "UdpEnv \<Rightarrow> GatewayUdp \<Rightarrow> UdpOp list \<Rightarrow> GatewayUdp" where
  "udp_run x g ops = foldl (\<lambda>g op. fst (udp_step x g op)) g ops"

lemma run_keeps_block:
  "(\<forall>op \<in> set ops. op_before (blocked_until (gu_udp_bind_abuse_guard g) key) op) \<Longrightarrow>
   blocked_until (gu_udp_bind_abuse_guard (udp_run x g ops)) key = blocked_until (gu_udp_bind_abuse_guard g) key"
proof (induction ops arbitrary: g)
  case (Cons op ops)
  obtain ps where ps: "gu_udp_bind_abuse_guard (fst (udp_step x g op)) = foldl guard_apply (gu_udp_bind_abuse_guard g) ps"
      "\<forall>q \<in> set ps. guard_time q (blocked_until (gu_udp_bind_abuse_guard g) key)"
    using step_kept [of x g op] Cons.prems by auto
  then have "blocked_until (gu_udp_bind_abuse_guard (fst (udp_step x g op))) key = blocked_until (gu_udp_bind_abuse_guard g) key"
    by (simp add: guard_run_keeps_block)
  with Cons.IH [of "fst (udp_step x g op)"] Cons.prems show ?case by (simp add: udp_run_def)
qed (simp add: udp_run_def)

text \<open>C5. A blocked endpoint cannot bind. From the moment the abuse guard blocks an endpoint, and whatever other
  traffic is handled meanwhile, every bind request from that endpoint that comes in before the block ends,
  however well formed and authentic, is answered with \<open>SERVER_BUSY\<close> and leaves the session table untouched.\<close>

theorem blocked_endpoint_cannot_bind:
  assumes "\<forall>op \<in> set ops. op_before (blocked_until (gu_udp_bind_abuse_guard g) (endpoint_key remote)) op"
    and "clk 0 < blocked_until (gu_udp_bind_abuse_guard g) (endpoint_key remote)"
    and "bind_payload x datagram = Some payload"
  shows "gu_sessions (fst (handle_datagram x it clk remote datagram (udp_run x g ops))) = gu_sessions (udp_run x g ops) \<and>
    snd (handle_datagram x it clk remote datagram (udp_run x g ops)) =
      send_udp_datagram (udp_run x g ops) (make_udp_bind_res_frame x (clk 2) SERVER_BUSY [] 0 0 []
        ''bind temporarily blocked'' (ph_seq (decode_header datagram))) remote"
proof -
  let ?g = "udp_run x g ops"
  let ?g1 = "if length datagram > 0 then count ut_packets_update ?g else ?g"
  have "snd (block_state (endpoint_key remote) (clk 0) (gu_udp_bind_abuse_guard ?g1)) =
      \<lparr>bs_blocked = True, bs_retry_after_ms = blocked_until (gu_udp_bind_abuse_guard g) (endpoint_key remote) - clk 0\<rparr>"
    using run_keeps_block [OF assms(1)] assms(2) by (simp add: block_state_blocked)
  then obtain guard t where b: "block_state (endpoint_key remote) (clk 0) (gu_udp_bind_abuse_guard ?g1) =
      (guard, \<lparr>bs_blocked = True, bs_retry_after_ms = t\<rparr>)"
    by (cases "block_state (endpoint_key remote) (clk 0) (gu_udp_bind_abuse_guard ?g1)") auto
  have h: "handle_datagram x it clk remote datagram ?g =
      bind_datagram x clk remote (decode_header datagram) (drop k_header_bytes datagram) ?g1"
    using assms(3) by (auto simp: handle_datagram_def bind_payload_def Let_def split: if_splits)
  show ?thesis
    unfolding h bind_datagram_def Let_def b prod.case by (simp add: refuse_def send_udp_datagram_def)
qed

section \<open>A blocked client\<close>

text \<open>A gateway with a toy MAC whose guard has just blocked a client after one failed bind at time 10.\<close>

definition sample_opcodes :: OpcodeTables where
  "sample_opcodes =
     \<lparr>oc_game_opcode_name = (\<lambda>m. if m = 0x0206 then ''MSG_FPS_INPUT'' else []),
      oc_core_opcode_name = (\<lambda>_. []),
      oc_game_opcode_policy = (\<lambda>_. \<lparr>op_required_state = StAuthenticated, op_processing_place = PpInline,
        op_transport = TmBoth, op_delivery = DcUnreliableSequenced, op_channel = 1\<rparr>),
      oc_core_opcode_policy = (\<lambda>_. default_opcode_policy),
      oc_MSG_UDP_BIND_REQ = 0x0012, oc_MSG_UDP_BIND_RES = 0x0013, oc_MSG_FPS_STATE_DELTA = 0x0208,
      oc_MSG_LOGIN_REQ = 0x0010, oc_MSG_LOGIN_RES = 0x0011, oc_MSG_PING = 0x0002, oc_MSG_PONG = 0x0003\<rparr>"

definition sample_env :: UdpEnv where
  "sample_env = \<lparr>ue_hmac_sha256 = (\<lambda>secret message. Some [of_nat (length message)]), ue_opcodes = sample_opcodes\<rparr>"

definition sample_client :: UdpEndpoint where "sample_client = \<lparr>ep_address = ''c'', ep_port = 5\<rparr>"

definition sample_gateway :: GatewayUdp where
  "sample_gateway =
     \<lparr>gu_udp_listen_port = 7000, gu_udp_bind_secret = ''k'', gu_udp_bind_ttl_ms = 90,
      gu_udp_bind_retry_backoff_ms = 2, gu_udp_bind_retry_backoff_max_ms = 20, gu_udp_bind_retry_max_attempts = 6,
      gu_udp_opcode_allowlist = {0x0206},
      gu_rudp_rollout_policy = \<lparr>rp_enabled = False, rp_canary_percent = 0, rp_opcode_allowlist = {}\<rparr>,
      gu_rudp_config = default_rudp_config,
      gu_udp_bind_abuse_guard = fst (abuse_record_failure (endpoint_key sample_client) 10 (abuse_configure 50 1 60 new_abuse_guard)),
      gu_udp_socket = True, gu_sessions = [],
      gu_totals = \<lparr>ut_packets = 0, ut_receive_error = 0, ut_bind_ticket_issued = 0, ut_bind_success = 0,
        ut_bind_reject = 0, ut_bind_block = 0, ut_bind_rate_limit_reject = 0, ut_bind_retry_backoff = 0,
        ut_bind_retry_reject = 0, ut_opcode_allowlist_reject = 0, ut_forward = 0, ut_forward_reliable_ordered = 0,
        ut_forward_reliable = 0, ut_forward_unreliable_sequenced = 0, ut_direct_state_delta = 0, ut_replay_drop = 0,
        ut_reorder_drop = 0, ut_duplicate_drop = 0, ut_retransmit = 0, ut_loss_estimated = 0, ut_jitter_ms_last = 0,
        ut_rtt_ms_last = 0, ut_rudp_packets = 0, ut_rudp_packets_reject = 0, ut_rudp_inner_forward = 0,
        ut_rudp_fallback = 0, ut_rudp_direct_state_delta = 0, ut_direct_state_delta_tcp_fallback = 0\<rparr>,
      gu_rudp_counters = new_rudp_counters\<rparr>"

definition sample_bind :: bytes where
  "sample_bind = encode_header \<lparr>ph_length = 0, ph_msg_id = 0x0012, ph_flags = 0, ph_seq = 1, ph_utc_ts_ms32 = 0\<rparr>"

lemma sample_blocked: "blocked_until (gu_udp_bind_abuse_guard sample_gateway) (endpoint_key sample_client) = 70"
  by (simp add: blocked_until_def sample_gateway_def abuse_record_failure_def abuse_fail_entry_def abuse_configure_def
      new_abuse_guard_def new_abuse_entry_def idx_find_def [of "[]"] Let_def)

lemma sample_bind_payload: "bind_payload sample_env sample_bind = Some []"
  by code_simp

theorem blocked_endpoint_cannot_bind_witness:
  "gu_sessions (fst (handle_datagram sample_env id (\<lambda>_. 30) sample_client sample_bind
     (udp_run sample_env sample_gateway [UAdd ''s'' ''u'' ''b'', UReceive id (\<lambda>_. 20) sample_client sample_bind]))) =
   gu_sessions (udp_run sample_env sample_gateway [UAdd ''s'' ''u'' ''b'', UReceive id (\<lambda>_. 20) sample_client sample_bind])"
  using blocked_endpoint_cannot_bind [of "[UAdd ''s'' ''u'' ''b'', UReceive id (\<lambda>_. 20) sample_client sample_bind]"
      sample_gateway sample_client "\<lambda>_. 30" sample_env sample_bind "[]" id]
  by (simp add: sample_blocked sample_bind_payload op_before_def)

end
