(* ===== verification/Process_Metrics.thy ===== *)
theory Process_Metrics
  imports Runtime_Metrics Keyed_Index
begin

text \<open>
  The process-wide counters of \<open>core/src/runtime_metrics.cpp\<close> other than the RUDP ones: sessions and
  packets, dispatch, exceptions, the two job queues, the memory pool, the watchdogs and the detailed
  telemetry window that a failing watchdog opens. One record per group. As for the RUDP counters an atomic
  is the value one thread at a time leaves in it, and a compare-and-swap loop that raises a maximum is the
  maximum. A duration is the signed nanosecond count of the source.
\<close>

section \<open>The counters\<close>

datatype LivenessState = LvBootstrapping | LvRunning | LvDegraded | LvStopping | LvFailed

fun liveness_state_name :: "LivenessState \<Rightarrow> string" where
  "liveness_state_name LvBootstrapping = ''bootstrapping''"
| "liveness_state_name LvRunning = ''running''"
| "liveness_state_name LvDegraded = ''degraded''"
| "liveness_state_name LvStopping = ''stopping''"
| "liveness_state_name LvFailed = ''failed''"

definition kDispatchProcessingPlaceCount :: nat where
  "kDispatchProcessingPlaceCount = 3"

definition kDispatchLatencyBucketUpperBoundsNs :: "u64 list" where
  "kDispatchLatencyBucketUpperBoundsNs =
     [100000, 250000, 500000, 1000000, 2500000, 5000000, 10000000, 25000000, 50000000, 100000000,
      250000000, 500000000, 1000000000, 2500000000, 5000000000]"

record SessionCounters =
  sc_session_started_total :: u64
  sc_session_stopped_total :: u64
  sc_session_active :: u64
  sc_session_timeout_total :: u64
  sc_session_write_timeout_total :: u64
  sc_heartbeat_timeout_total :: u64
  sc_send_queue_drop_total :: u64
  sc_packet_total :: u64
  sc_packet_error_total :: u64
  sc_packet_payload_sum_bytes :: u64
  sc_packet_payload_count :: u64
  sc_packet_payload_max_bytes :: u64

record DispatchCounters =
  dm_dispatch_total :: u64
  dm_dispatch_unknown_total :: u64
  dm_dispatch_exception_total :: u64
  dm_latency_sum_ns :: u64
  dm_latency_count :: u64
  dm_latency_last_ns :: u64
  dm_latency_max_ns :: u64
  dm_latency_bucket_counts :: "u64 list"
  dm_place_calls_total :: "u64 list"
  dm_place_reject_total :: "u64 list"
  dm_place_exception_total :: "u64 list"
  dm_opcode_counters :: "u16 \<Rightarrow> u64"

record JobQueueCounters =
  jc_depth :: u64
  jc_depth_peak :: u64
  jc_capacity :: u64
  jc_reject_total :: u64
  jc_push_wait_sum_ns :: u64
  jc_push_wait_count :: u64
  jc_push_wait_max_ns :: u64

record PoolCounters =
  pc_capacity :: u64
  pc_in_use :: u64
  pc_in_use_peak :: u64

record WatchdogState =
  wd_healthy :: bool
  wd_detail :: string
  wd_unhealthy_samples_total :: u64
  wd_transition_total :: u64
  wd_freeze_suspect_total :: u64
  wd_consecutive_unhealthy_samples :: u64

record TelemetryState =
  tl_exception_recoverable_total :: u64
  tl_exception_fatal_total :: u64
  tl_exception_ignored_total :: u64
  tl_activation_total :: u64
  tl_active :: bool
  tl_capture_budget_remaining :: u64
  tl_captured_exception_total :: u64
  tl_captured_dispatch_latency_max_ns :: u64
  tl_trigger :: string
  tl_watchdog_transition_total :: u64
  tl_watchdog_freeze_suspect_total :: u64
  tl_watchdog_registry :: "(string, WatchdogState) idx"

record ProcessMetrics =
  pm_liveness_state :: LivenessState
  pm_accept_total :: u64
  pm_session :: SessionCounters
  pm_dispatch :: DispatchCounters
  pm_jobs :: JobQueueCounters
  pm_db_jobs :: JobQueueCounters
  pm_db_job_processed_total :: u64
  pm_db_job_failed_total :: u64
  pm_pool :: PoolCounters
  pm_telemetry :: TelemetryState

definition new_session_counters :: SessionCounters where
  "new_session_counters =
     \<lparr>sc_session_started_total = 0, sc_session_stopped_total = 0, sc_session_active = 0, sc_session_timeout_total = 0,
      sc_session_write_timeout_total = 0, sc_heartbeat_timeout_total = 0, sc_send_queue_drop_total = 0,
      sc_packet_total = 0, sc_packet_error_total = 0, sc_packet_payload_sum_bytes = 0, sc_packet_payload_count = 0,
      sc_packet_payload_max_bytes = 0\<rparr>"

definition new_dispatch_counters :: DispatchCounters where
  "new_dispatch_counters =
     \<lparr>dm_dispatch_total = 0, dm_dispatch_unknown_total = 0, dm_dispatch_exception_total = 0, dm_latency_sum_ns = 0,
      dm_latency_count = 0, dm_latency_last_ns = 0, dm_latency_max_ns = 0,
      dm_latency_bucket_counts = replicate (length kDispatchLatencyBucketUpperBoundsNs) 0,
      dm_place_calls_total = replicate kDispatchProcessingPlaceCount 0,
      dm_place_reject_total = replicate kDispatchProcessingPlaceCount 0,
      dm_place_exception_total = replicate kDispatchProcessingPlaceCount 0,
      dm_opcode_counters = (\<lambda>_. 0)\<rparr>"

definition new_job_queue_counters :: JobQueueCounters where
  "new_job_queue_counters =
     \<lparr>jc_depth = 0, jc_depth_peak = 0, jc_capacity = 0, jc_reject_total = 0, jc_push_wait_sum_ns = 0,
      jc_push_wait_count = 0, jc_push_wait_max_ns = 0\<rparr>"

definition new_pool_counters :: PoolCounters where
  "new_pool_counters = \<lparr>pc_capacity = 0, pc_in_use = 0, pc_in_use_peak = 0\<rparr>"

definition new_watchdog_state :: WatchdogState where
  "new_watchdog_state =
     \<lparr>wd_healthy = True, wd_detail = [], wd_unhealthy_samples_total = 0, wd_transition_total = 0,
      wd_freeze_suspect_total = 0, wd_consecutive_unhealthy_samples = 0\<rparr>"

definition new_telemetry_state :: TelemetryState where
  "new_telemetry_state =
     \<lparr>tl_exception_recoverable_total = 0, tl_exception_fatal_total = 0, tl_exception_ignored_total = 0,
      tl_activation_total = 0, tl_active = False, tl_capture_budget_remaining = 0, tl_captured_exception_total = 0,
      tl_captured_dispatch_latency_max_ns = 0, tl_trigger = [], tl_watchdog_transition_total = 0,
      tl_watchdog_freeze_suspect_total = 0, tl_watchdog_registry = []\<rparr>"

definition new_process_metrics :: ProcessMetrics where
  "new_process_metrics =
     \<lparr>pm_liveness_state = LvBootstrapping, pm_accept_total = 0, pm_session = new_session_counters,
      pm_dispatch = new_dispatch_counters, pm_jobs = new_job_queue_counters, pm_db_jobs = new_job_queue_counters,
      pm_db_job_processed_total = 0, pm_db_job_failed_total = 0, pm_pool = new_pool_counters,
      pm_telemetry = new_telemetry_state\<rparr>"

section \<open>Detailed telemetry\<close>

definition kDetailedTelemetryCaptureBudget :: u64 where
  "kDetailedTelemetryCaptureBudget = 8"

definition kDetailedTelemetryWatchdogThreshold :: u64 where
  "kDetailedTelemetryWatchdogThreshold = 2"

definition activate_detailed_telemetry :: "string \<Rightarrow> TelemetryState \<Rightarrow> TelemetryState" where
  "activate_detailed_telemetry trigger c =
     c\<lparr>tl_activation_total := tl_activation_total c + 1, tl_active := True,
       tl_capture_budget_remaining := kDetailedTelemetryCaptureBudget, tl_captured_exception_total := 0,
       tl_captured_dispatch_latency_max_ns := 0, tl_trigger := trigger\<rparr>"

definition consume_detailed_telemetry_budget :: "TelemetryState \<Rightarrow> TelemetryState" where
  "consume_detailed_telemetry_budget c =
     (if \<not> tl_active c then c
      else
        (let previous = tl_capture_budget_remaining c;
             c = c\<lparr>tl_capture_budget_remaining := previous - 1\<rparr>
         in if previous \<le> 1 then c\<lparr>tl_capture_budget_remaining := 0, tl_active := False\<rparr> else c))"

definition record_detailed_exception_capture :: "TelemetryState \<Rightarrow> TelemetryState" where
  "record_detailed_exception_capture c =
     (if \<not> tl_active c then c
      else consume_detailed_telemetry_budget
        (c\<lparr>tl_captured_exception_total := tl_captured_exception_total c + 1\<rparr>))"

definition record_detailed_dispatch_latency_capture :: "u64 \<Rightarrow> TelemetryState \<Rightarrow> TelemetryState" where
  "record_detailed_dispatch_latency_capture ns c =
     (if \<not> tl_active c then c
      else consume_detailed_telemetry_budget
        (c\<lparr>tl_captured_dispatch_latency_max_ns := max (tl_captured_dispatch_latency_max_ns c) ns\<rparr>))"

definition record_exception_recoverable :: "TelemetryState \<Rightarrow> TelemetryState" where
  "record_exception_recoverable c =
     record_detailed_exception_capture (c\<lparr>tl_exception_recoverable_total := tl_exception_recoverable_total c + 1\<rparr>)"

definition record_exception_fatal :: "TelemetryState \<Rightarrow> TelemetryState" where
  "record_exception_fatal c =
     record_detailed_exception_capture (c\<lparr>tl_exception_fatal_total := tl_exception_fatal_total c + 1\<rparr>)"

definition record_exception_ignored :: "TelemetryState \<Rightarrow> TelemetryState" where
  "record_exception_ignored c =
     record_detailed_exception_capture (c\<lparr>tl_exception_ignored_total := tl_exception_ignored_total c + 1\<rparr>)"

section \<open>Watchdogs\<close>

text \<open>\<open>watchdog_entry\<close> is \<open>watchdog_registry()[name]\<close>, which makes a healthy entry for a new name.\<close>

definition watchdog_entry :: "string \<Rightarrow> TelemetryState \<Rightarrow> WatchdogState" where
  "watchdog_entry name c =
     (case idx_find (tl_watchdog_registry c) name of None \<Rightarrow> new_watchdog_state | Some state \<Rightarrow> state)"

definition record_watchdog_sample :: "string \<Rightarrow> bool \<Rightarrow> string \<Rightarrow> TelemetryState \<Rightarrow> TelemetryState" where
  "record_watchdog_sample name healthy detail c =
     (if name = [] then c
      else
        (let state = watchdog_entry name c;
             (state, c) = (if wd_healthy state \<noteq> healthy
                then (state\<lparr>wd_transition_total := wd_transition_total state + 1\<rparr>,
                      c\<lparr>tl_watchdog_transition_total := tl_watchdog_transition_total c + 1\<rparr>)
                else (state, c));
             state = state\<lparr>wd_healthy := healthy, wd_detail := detail\<rparr>;
             (state, should_activate_detail) = (if healthy
                then (state\<lparr>wd_consecutive_unhealthy_samples := 0\<rparr>, False)
                else (let state = state\<lparr>wd_unhealthy_samples_total := wd_unhealthy_samples_total state + 1,
                        wd_consecutive_unhealthy_samples := wd_consecutive_unhealthy_samples state + 1\<rparr>
                      in (state, wd_consecutive_unhealthy_samples state \<ge> kDetailedTelemetryWatchdogThreshold)));
             c = c\<lparr>tl_watchdog_registry := idx_put name state (tl_watchdog_registry c)\<rparr>
         in if \<not> healthy \<and> should_activate_detail
            then activate_detailed_telemetry (''watchdog:'' @ name) c else c))"

definition record_watchdog_freeze_suspect ::
  "string \<Rightarrow> int \<Rightarrow> int \<Rightarrow> string \<Rightarrow> LivenessState \<times> TelemetryState \<Rightarrow> LivenessState \<times> TelemetryState"
where
  "record_watchdog_freeze_suspect name stall threshold detail = (\<lambda>(liveness, c).
     if name = [] \<or> stall < threshold then (liveness, c)
     else
       (let state = watchdog_entry name c;
            (state, c) = (if wd_healthy state
               then (state\<lparr>wd_transition_total := wd_transition_total state + 1\<rparr>,
                     c\<lparr>tl_watchdog_transition_total := tl_watchdog_transition_total c + 1\<rparr>)
               else (state, c));
            state = state\<lparr>wd_healthy := False, wd_detail := detail,
              wd_freeze_suspect_total := wd_freeze_suspect_total state + 1,
              wd_unhealthy_samples_total := wd_unhealthy_samples_total state + 1,
              wd_consecutive_unhealthy_samples := wd_consecutive_unhealthy_samples state + 1\<rparr>;
            c = c\<lparr>tl_watchdog_registry := idx_put name state (tl_watchdog_registry c)\<rparr>;
            c = c\<lparr>tl_watchdog_freeze_suspect_total := tl_watchdog_freeze_suspect_total c + 1\<rparr>
        in (LvDegraded, activate_detailed_telemetry (''freeze:'' @ name) c)))"

section \<open>Sessions and packets\<close>

definition set_liveness_state :: "LivenessState \<Rightarrow> ProcessMetrics \<Rightarrow> ProcessMetrics" where
  "set_liveness_state state m = m\<lparr>pm_liveness_state := state\<rparr>"

definition record_accept :: "ProcessMetrics \<Rightarrow> ProcessMetrics" where
  "record_accept m = m\<lparr>pm_accept_total := pm_accept_total m + 1\<rparr>"

definition record_session_start :: "SessionCounters \<Rightarrow> SessionCounters" where
  "record_session_start c =
     c\<lparr>sc_session_started_total := sc_session_started_total c + 1, sc_session_active := sc_session_active c + 1\<rparr>"

definition record_session_stop :: "SessionCounters \<Rightarrow> SessionCounters" where
  "record_session_stop c =
     c\<lparr>sc_session_stopped_total := sc_session_stopped_total c + 1, sc_session_active := sc_session_active c - 1\<rparr>"

definition record_session_timeout :: "SessionCounters \<Rightarrow> SessionCounters" where
  "record_session_timeout c = c\<lparr>sc_session_timeout_total := sc_session_timeout_total c + 1\<rparr>"

definition record_session_write_timeout :: "SessionCounters \<Rightarrow> SessionCounters" where
  "record_session_write_timeout c = c\<lparr>sc_session_write_timeout_total := sc_session_write_timeout_total c + 1\<rparr>"

definition record_heartbeat_timeout :: "SessionCounters \<Rightarrow> SessionCounters" where
  "record_heartbeat_timeout c = c\<lparr>sc_heartbeat_timeout_total := sc_heartbeat_timeout_total c + 1\<rparr>"

definition record_send_queue_drop :: "SessionCounters \<Rightarrow> SessionCounters" where
  "record_send_queue_drop c = c\<lparr>sc_send_queue_drop_total := sc_send_queue_drop_total c + 1\<rparr>"

definition record_packet_ok :: "SessionCounters \<Rightarrow> SessionCounters" where
  "record_packet_ok c = c\<lparr>sc_packet_total := sc_packet_total c + 1\<rparr>"

definition record_packet_error :: "SessionCounters \<Rightarrow> SessionCounters" where
  "record_packet_error c = c\<lparr>sc_packet_error_total := sc_packet_error_total c + 1\<rparr>"

definition record_packet_payload :: "nat \<Rightarrow> SessionCounters \<Rightarrow> SessionCounters" where
  "record_packet_payload n c =
     c\<lparr>sc_packet_payload_sum_bytes := sc_packet_payload_sum_bytes c + word_of_nat n,
       sc_packet_payload_count := sc_packet_payload_count c + 1,
       sc_packet_payload_max_bytes := max (sc_packet_payload_max_bytes c) (word_of_nat n)\<rparr>"

section \<open>Dispatch\<close>

definition normalize_dispatch_place_index :: "nat \<Rightarrow> nat" where
  "normalize_dispatch_place_index place_index =
     (if place_index < kDispatchProcessingPlaceCount then place_index else kDispatchProcessingPlaceCount - 1)"

definition bump_place :: "nat \<Rightarrow> u64 list \<Rightarrow> u64 list" where
  "bump_place place_index ns =
     (let i = normalize_dispatch_place_index place_index in ns[i := ns ! i + 1])"

definition record_dispatch_opcode :: "u16 \<Rightarrow> DispatchCounters \<Rightarrow> DispatchCounters" where
  "record_dispatch_opcode opcode c =
     c\<lparr>dm_opcode_counters := (dm_opcode_counters c)(opcode := dm_opcode_counters c opcode + 1)\<rparr>"

definition record_dispatch_attempt :: "bool \<Rightarrow> int \<Rightarrow> ProcessMetrics \<Rightarrow> ProcessMetrics" where
  "record_dispatch_attempt handler_found elapsed m =
     (let c = pm_dispatch m;
          c = c\<lparr>dm_dispatch_total := dm_dispatch_total c + 1\<rparr>;
          c = (if \<not> handler_found then c\<lparr>dm_dispatch_unknown_total := dm_dispatch_unknown_total c + 1\<rparr> else c);
          ns = word_of_int elapsed;
          c = c\<lparr>dm_latency_sum_ns := dm_latency_sum_ns c + ns, dm_latency_count := dm_latency_count c + 1,
                dm_latency_last_ns := ns, dm_latency_max_ns := max (dm_latency_max_ns c) ns,
                dm_latency_bucket_counts := bump_bucket kDispatchLatencyBucketUpperBoundsNs ns (dm_latency_bucket_counts c)\<rparr>
      in m\<lparr>pm_dispatch := c, pm_telemetry := record_detailed_dispatch_latency_capture ns (pm_telemetry m)\<rparr>)"

definition record_dispatch_exception :: "DispatchCounters \<Rightarrow> DispatchCounters" where
  "record_dispatch_exception c = c\<lparr>dm_dispatch_exception_total := dm_dispatch_exception_total c + 1\<rparr>"

definition record_dispatch_processing_place_call :: "nat \<Rightarrow> DispatchCounters \<Rightarrow> DispatchCounters" where
  "record_dispatch_processing_place_call i c = c\<lparr>dm_place_calls_total := bump_place i (dm_place_calls_total c)\<rparr>"

definition record_dispatch_processing_place_reject :: "nat \<Rightarrow> DispatchCounters \<Rightarrow> DispatchCounters" where
  "record_dispatch_processing_place_reject i c = c\<lparr>dm_place_reject_total := bump_place i (dm_place_reject_total c)\<rparr>"

definition record_dispatch_processing_place_exception :: "nat \<Rightarrow> DispatchCounters \<Rightarrow> DispatchCounters" where
  "record_dispatch_processing_place_exception i c =
     c\<lparr>dm_place_exception_total := bump_place i (dm_place_exception_total c)\<rparr>"

section \<open>Job queues and the memory pool\<close>

text \<open>The main job queue and the database job queue have counters of one shape and functions that are the
  same but for the counters they act on.\<close>

definition record_job_queue_depth :: "nat \<Rightarrow> JobQueueCounters \<Rightarrow> JobQueueCounters" where
  "record_job_queue_depth depth c =
     c\<lparr>jc_depth := word_of_nat depth, jc_depth_peak := max (jc_depth_peak c) (word_of_nat depth)\<rparr>"

definition register_job_queue_capacity :: "nat \<Rightarrow> JobQueueCounters \<Rightarrow> JobQueueCounters" where
  "register_job_queue_capacity capacity c = c\<lparr>jc_capacity := word_of_nat capacity\<rparr>"

definition record_job_queue_reject :: "JobQueueCounters \<Rightarrow> JobQueueCounters" where
  "record_job_queue_reject c = c\<lparr>jc_reject_total := jc_reject_total c + 1\<rparr>"

definition record_job_queue_push_wait :: "int \<Rightarrow> JobQueueCounters \<Rightarrow> JobQueueCounters" where
  "record_job_queue_push_wait waited c =
     (let ns = (if waited \<le> 0 then 0 else word_of_int waited)
      in if ns = 0 then c
         else c\<lparr>jc_push_wait_sum_ns := jc_push_wait_sum_ns c + ns, jc_push_wait_count := jc_push_wait_count c + 1,
                jc_push_wait_max_ns := max (jc_push_wait_max_ns c) ns\<rparr>)"

definition record_db_job_queue_depth :: "nat \<Rightarrow> ProcessMetrics \<Rightarrow> ProcessMetrics" where
  "record_db_job_queue_depth depth m = m\<lparr>pm_db_jobs := record_job_queue_depth depth (pm_db_jobs m)\<rparr>"

definition register_db_job_queue_capacity :: "nat \<Rightarrow> ProcessMetrics \<Rightarrow> ProcessMetrics" where
  "register_db_job_queue_capacity capacity m = m\<lparr>pm_db_jobs := register_job_queue_capacity capacity (pm_db_jobs m)\<rparr>"

definition record_db_job_queue_reject :: "ProcessMetrics \<Rightarrow> ProcessMetrics" where
  "record_db_job_queue_reject m = m\<lparr>pm_db_jobs := record_job_queue_reject (pm_db_jobs m)\<rparr>"

definition record_db_job_queue_push_wait :: "int \<Rightarrow> ProcessMetrics \<Rightarrow> ProcessMetrics" where
  "record_db_job_queue_push_wait waited m = m\<lparr>pm_db_jobs := record_job_queue_push_wait waited (pm_db_jobs m)\<rparr>"

definition record_db_job_processed :: "ProcessMetrics \<Rightarrow> ProcessMetrics" where
  "record_db_job_processed m = m\<lparr>pm_db_job_processed_total := pm_db_job_processed_total m + 1\<rparr>"

definition record_db_job_failed :: "ProcessMetrics \<Rightarrow> ProcessMetrics" where
  "record_db_job_failed m = m\<lparr>pm_db_job_failed_total := pm_db_job_failed_total m + 1\<rparr>"

definition register_memory_pool_capacity :: "nat \<Rightarrow> PoolCounters \<Rightarrow> PoolCounters" where
  "register_memory_pool_capacity capacity c =
     (let cap = word_of_nat capacity;
          c = c\<lparr>pc_capacity := cap\<rparr>;
          c = (if pc_in_use c > cap then c\<lparr>pc_in_use := cap\<rparr> else c)
      in if pc_in_use_peak c > cap then c\<lparr>pc_in_use_peak := cap\<rparr> else c)"

definition record_memory_pool_acquire :: "PoolCounters \<Rightarrow> PoolCounters" where
  "record_memory_pool_acquire c =
     (let current = pc_in_use c + 1
      in c\<lparr>pc_in_use := current, pc_in_use_peak := max (pc_in_use_peak c) current\<rparr>)"

definition record_memory_pool_release :: "PoolCounters \<Rightarrow> PoolCounters" where
  "record_memory_pool_release c = c\<lparr>pc_in_use := pc_in_use c - 1\<rparr>"

section \<open>Snapshots\<close>

text \<open>The parts of the snapshots that are computed rather than copied: the opcodes with a count, the number of
  watchdogs and of unhealthy ones, and the watchdogs sorted by name.\<close>

definition snapshot_opcode_counts :: "DispatchCounters \<Rightarrow> (u16 \<times> u64) list" where
  "snapshot_opcode_counts c =
     map (\<lambda>i. (word_of_nat i, dm_opcode_counters c (word_of_nat i)))
       (filter (\<lambda>i. dm_opcode_counters c (word_of_nat i) \<noteq> 0) [0..<65536])"

definition snapshot_watchdogs :: "TelemetryState \<Rightarrow> nat \<times> nat" where
  "snapshot_watchdogs c =
     (length (tl_watchdog_registry c), length (filter (\<lambda>(name, state). \<not> wd_healthy state) (tl_watchdog_registry c)))"

section \<open>The telemetry window\<close>

text \<open>What the window may capture: an exception of any of the three kinds, or the latency of a dispatch.\<close>

datatype Capture = CapRecoverable | CapFatal | CapIgnored | CapLatency u64

fun capture :: "TelemetryState \<Rightarrow> Capture \<Rightarrow> TelemetryState" where
  "capture c CapRecoverable = record_exception_recoverable c"
| "capture c CapFatal = record_exception_fatal c"
| "capture c CapIgnored = record_exception_ignored c"
| "capture c (CapLatency ns) = record_detailed_dispatch_latency_capture ns c"

fun latency_of :: "Capture \<Rightarrow> u64" where
  "latency_of (CapLatency ns) = ns"
| "latency_of _ = 0"

definition exceptions_in :: "Capture list \<Rightarrow> nat" where
  "exceptions_in ps = length (filter (\<lambda>p. \<forall>ns. p \<noteq> CapLatency ns) ps)"

lemma exceptions_in_snoc [simp]:
  "exceptions_in [] = 0"
  "exceptions_in (ps @ [p]) = exceptions_in ps + (case p of CapLatency _ \<Rightarrow> 0 | _ \<Rightarrow> 1)"
  by (auto simp: exceptions_in_def split: Capture.split)

lemma capture_closed:
  "\<not> tl_active c \<Longrightarrow>
   \<not> tl_active (capture c p) \<and> tl_capture_budget_remaining (capture c p) = tl_capture_budget_remaining c \<and>
   tl_captured_exception_total (capture c p) = tl_captured_exception_total c \<and>
   tl_captured_dispatch_latency_max_ns (capture c p) = tl_captured_dispatch_latency_max_ns c"
  by (cases p) (simp_all add: record_exception_recoverable_def record_exception_fatal_def record_exception_ignored_def
      record_detailed_exception_capture_def record_detailed_dispatch_latency_capture_def)

lemmas capture_defs = record_exception_recoverable_def record_exception_fatal_def record_exception_ignored_def
  record_detailed_exception_capture_def record_detailed_dispatch_latency_capture_def
  consume_detailed_telemetry_budget_def Let_def

lemma capture_open_active:
  "tl_active c \<Longrightarrow> tl_active (capture c p) = (\<not> tl_capture_budget_remaining c \<le> 1)"
  by (cases p) (simp_all add: capture_defs)

lemma capture_open_remaining:
  "tl_active c \<Longrightarrow> tl_capture_budget_remaining (capture c p) =
     (if tl_capture_budget_remaining c \<le> 1 then 0 else tl_capture_budget_remaining c - 1)"
  by (cases p) (simp_all add: capture_defs)

lemma capture_open_exceptions:
  "tl_active c \<Longrightarrow> tl_captured_exception_total (capture c p) =
     tl_captured_exception_total c + (case p of CapLatency _ \<Rightarrow> 0 | _ \<Rightarrow> 1)"
  by (cases p) (simp_all add: capture_defs)

lemma capture_open_latency:
  "tl_active c \<Longrightarrow> tl_captured_dispatch_latency_max_ns (capture c p) =
     max (tl_captured_dispatch_latency_max_ns c) (latency_of p)"
  by (cases p) (simp_all add: capture_defs)

lemmas capture_open = capture_open_active capture_open_remaining capture_open_exceptions capture_open_latency

text \<open>The detailed telemetry window captures exactly the first eight events after it opens. From any state, after
  the window is activated and any sequence of captures, the window is open iff fewer than eight captures came,
  its remaining budget is eight less their number, the captured exceptions are the exceptions among the first
  eight and the captured latency is the largest latency among them.\<close>

theorem telemetry_window_exact:
  "let c' = foldl capture (activate_detailed_telemetry trigger c) ps
   in (tl_active c' \<longleftrightarrow> length ps < 8) \<and>
      tl_capture_budget_remaining c' = word_of_nat (8 - length ps) \<and>
      tl_captured_exception_total c' = word_of_nat (exceptions_in (take 8 ps)) \<and>
      tl_captured_dispatch_latency_max_ns c' = foldr max (map latency_of (take 8 ps)) 0"
  unfolding Let_def
proof (induction ps rule: rev_induct)
  case Nil
  then show ?case by (simp add: activate_detailed_telemetry_def kDetailedTelemetryCaptureBudget_def)
next
  case (snoc p ps)
  let ?c = "foldl capture (activate_detailed_telemetry trigger c) ps"
  show ?case
  proof (cases "length ps < 8")
    case True
    then have a: "tl_active ?c" and b: "tl_capture_budget_remaining ?c = word_of_nat (8 - length ps)"
      using snoc.IH by simp_all
    have n: "(word_of_nat n \<le> (1 :: u64)) = (n \<le> 1)" if "n \<le> 8" for n
      using that by (simp add: word_le_nat_alt unat_of_nat)
    have p: "word_of_nat n - 1 = (word_of_nat (n - 1) :: u64)" if "0 < n" for n
      using that by (cases n) simp_all
    have w: "(word_of_nat (8 - length ps) \<le> (1 :: u64)) = (length ps = 7)"
      "length ps \<noteq> 7 \<Longrightarrow> word_of_nat (8 - length ps) - 1 = (word_of_nat (7 - length ps) :: u64)"
      using True n [of "8 - length ps"] p [of "8 - length ps"] by (auto simp del: of_nat_diff)
    have m: "foldr max (map latency_of (ps @ [p])) 0 = max (foldr max (map latency_of ps) 0) (latency_of p)"
      by (induction ps) (auto simp: max.assoc)
    show ?thesis
    proof (intro conjI)
      show "tl_active (foldl capture (activate_detailed_telemetry trigger c) (ps @ [p])) \<longleftrightarrow> length (ps @ [p]) < 8"
        using True w(1) by (auto simp: capture_open [OF a] b)
      show "tl_capture_budget_remaining (foldl capture (activate_detailed_telemetry trigger c) (ps @ [p])) =
          word_of_nat (8 - length (ps @ [p]))"
        using w by (cases "length ps = 7") (simp_all add: capture_open [OF a] b del: of_nat_diff)
      show "tl_captured_exception_total (foldl capture (activate_detailed_telemetry trigger c) (ps @ [p])) =
          word_of_nat (exceptions_in (take 8 (ps @ [p])))"
        using snoc.IH True by (simp add: capture_open [OF a] split: Capture.split)
      show "tl_captured_dispatch_latency_max_ns (foldl capture (activate_detailed_telemetry trigger c) (ps @ [p])) =
          foldr max (map latency_of (take 8 (ps @ [p]))) 0"
        using snoc.IH True m by (simp add: capture_open [OF a])
    qed
  next
    case False
    then show ?thesis using snoc.IH capture_closed [of ?c p] by simp
  qed
qed

end
