(* ===== verification/Memory_Pool.thy ===== *)
theory Memory_Pool
  imports Process_Metrics "HOL-Library.Disjoint_Sets"
begin

text \<open>
  The fixed-block memory pool of \<open>core/src/memory/memory_pool.cpp\<close>. A pointer is its offset from the
  start of the pool's chunk, so pointers outside the chunk are offsets below zero or past its end; the free
  list is a stack whose top is the head of the list. \<open>BufferManager\<close> hands a block out as an owning pointer
  whose deleter releases it, so a client releases exactly the blocks it holds, once each: the runs below are
  the runs of such clients.
\<close>

record MemoryPool =
  mp_block_size :: nat
  mp_block_count :: nat
  mp_chunk_size :: nat
  mp_free_list :: "int list"

definition new_memory_pool :: "nat \<Rightarrow> nat \<Rightarrow> PoolCounters \<Rightarrow> MemoryPool \<times> PoolCounters" where
  "new_memory_pool block_size block_count c =
     (if block_size = 0 \<or> block_count = 0 then
        (\<lparr>mp_block_size = block_size, mp_block_count = 0, mp_chunk_size = 0, mp_free_list = []\<rparr>,
         register_memory_pool_capacity 0 c)
      else
        (\<lparr>mp_block_size = block_size, mp_block_count = block_count, mp_chunk_size = block_size * block_count,
          mp_free_list = foldl (\<lambda>free i. int (i * block_size) # free) [] [0..<block_count]\<rparr>,
         register_memory_pool_capacity block_count c))"

definition pool_acquire :: "MemoryPool \<Rightarrow> PoolCounters \<Rightarrow> MemoryPool \<times> PoolCounters \<times> int option" where
  "pool_acquire p c =
     (case mp_free_list p of
        [] \<Rightarrow> (p, c, None)
      | ptr # free \<Rightarrow> (p\<lparr>mp_free_list := free\<rparr>, record_memory_pool_acquire c, Some ptr))"

definition pool_release :: "int option \<Rightarrow> MemoryPool \<Rightarrow> PoolCounters \<Rightarrow> MemoryPool \<times> PoolCounters" where
  "pool_release ptr p c =
     (case ptr of
        None \<Rightarrow> (p, c)
      | Some byte_ptr \<Rightarrow>
          if mp_chunk_size p = 0 \<or> mp_block_size p = 0 \<or> mp_block_count p = 0 then (p, c)
          else if byte_ptr < 0 \<or> byte_ptr \<ge> int (mp_chunk_size p) then (p, c)
          else if byte_ptr mod int (mp_block_size p) \<noteq> 0 then (p, c)
          else if length (mp_free_list p) \<ge> mp_block_count p then (p, c)
          else (p\<lparr>mp_free_list := byte_ptr # mp_free_list p\<rparr>, record_memory_pool_release c))"

section \<open>Clients\<close>

text \<open>A run of clients: a buffer is acquired, or the \<open>k\<close>-th of the buffers held is dropped, whose deleter
  releases it. The held buffers are kept as a list.\<close>

datatype PoolOp = PoolAcquire | PoolDrop nat

fun pool_step :: "MemoryPool \<times> PoolCounters \<times> int list \<Rightarrow> PoolOp \<Rightarrow> MemoryPool \<times> PoolCounters \<times> int list" where
  "pool_step (p, c, held) PoolAcquire =
     (case pool_acquire p c of
        (p, c, None) \<Rightarrow> (p, c, held)
      | (p, c, Some ptr) \<Rightarrow> (p, c, held @ [ptr]))"
| "pool_step (p, c, held) (PoolDrop k) =
     (if k < length held
      then (case pool_release (Some (held ! k)) p c of (p, c) \<Rightarrow> (p, c, take k held @ drop (Suc k) held))
      else (p, c, held))"

definition pool_run :: "nat \<Rightarrow> nat \<Rightarrow> PoolOp list \<Rightarrow> MemoryPool \<times> PoolCounters \<times> int list" where
  "pool_run block_size block_count ops =
     (case new_memory_pool block_size block_count new_pool_counters of (p, c) \<Rightarrow> foldl pool_step (p, c, []) ops)"

definition blocks :: "nat \<Rightarrow> nat \<Rightarrow> int set" where
  "blocks block_size n = (\<lambda>i. int (i * block_size)) ` {..<n}"

definition pool_ok :: "nat \<Rightarrow> nat \<Rightarrow> MemoryPool \<times> PoolCounters \<times> int list \<Rightarrow> bool" where
  "pool_ok block_size n s \<longleftrightarrow> (case s of (p, c, held) \<Rightarrow>
     mp_block_size p = block_size \<and> mp_block_count p = n \<and> mp_chunk_size p = block_size * n \<and>
     (0 < n \<longrightarrow> 0 < block_size) \<and>
     distinct (held @ mp_free_list p) \<and> set (held @ mp_free_list p) = blocks block_size n \<and>
     pc_in_use c = word_of_nat (length held))"

lemma foldl_push: "foldl (\<lambda>free i. f i # free) acc is = rev (map f is) @ acc"
  by (induction "is" arbitrary: acc) auto

lemma card_blocks: "0 < block_size \<Longrightarrow> card (blocks block_size n) = n"
  unfolding blocks_def by (subst card_image) (auto simp: inj_on_def)

lemma new_pool_ok:
  "case new_memory_pool block_size n new_pool_counters of (p, c) \<Rightarrow>
     pool_ok block_size (if block_size = 0 then 0 else n) (p, c, [])"
proof (cases "block_size = 0 \<or> n = 0")
  case True
  then show ?thesis
    by (auto simp: new_memory_pool_def pool_ok_def blocks_def register_memory_pool_capacity_def new_pool_counters_def Let_def)
next
  case False
  then have "distinct (map (\<lambda>i. int (i * block_size)) [0..<n])"
    by (auto simp: distinct_map inj_on_def)
  with False show ?thesis
    by (auto simp: new_memory_pool_def pool_ok_def blocks_def register_memory_pool_capacity_def
        new_pool_counters_def Let_def foldl_push lessThan_atLeast0)
qed

lemma pool_ok_counts:
  assumes "pool_ok block_size n (p, c, held)"
  shows "length held + length (mp_free_list p) = n"
proof -
  have "card (set (held @ mp_free_list p)) = length (held @ mp_free_list p)"
    using assms by (intro distinct_card) (simp add: pool_ok_def)
  moreover have "card (blocks block_size n) = n"
    using assms card_blocks [of block_size n] by (cases n) (auto simp: pool_ok_def blocks_def)
  ultimately show ?thesis using assms by (simp add: pool_ok_def)
qed

lemma block_accepted:
  "b \<in> blocks block_size n \<Longrightarrow> 0 < block_size \<Longrightarrow> 0 \<le> b \<and> b < int (block_size * n) \<and> b mod int block_size = 0"
  unfolding blocks_def by (auto simp: mult.commute)

lemma list_pick:
  assumes "k < length xs"
  shows "set xs = insert (xs ! k) (set (take k xs @ drop (Suc k) xs))"
    and "distinct xs \<Longrightarrow> distinct (take k xs @ drop (Suc k) xs) \<and> xs ! k \<notin> set (take k xs @ drop (Suc k) xs)"
  using assms id_take_nth_drop [OF assms]
  by (metis Un_insert_right list.simps(15) set_append, metis distinct.simps(2) distinct_append not_distinct_conv_prefix
      Un_iff disjoint_insert(1) distinct_append list.simps(15) set_append)

lemma pool_step_ok:
  assumes "pool_ok block_size n (p, c, held)"
  shows "pool_ok block_size n (pool_step (p, c, held) op)"
proof (cases op)
  case PoolAcquire
  then show ?thesis
    using assms by (cases "mp_free_list p") (auto simp: pool_acquire_def pool_ok_def record_memory_pool_acquire_def Let_def)
next
  case (PoolDrop k)
  show ?thesis
  proof (cases "k < length held")
    case True
    let ?rest = "take k held @ drop (Suc k) held"
    have b: "held ! k \<in> blocks block_size n" using assms True by (force simp: pool_ok_def)
    have pos: "0 < n" "0 < block_size" using assms b by (auto simp: pool_ok_def blocks_def)
    have room: "length (mp_free_list p) < n" using pool_ok_counts [OF assms] True by simp
    have "pool_release (Some (held ! k)) p c = (p\<lparr>mp_free_list := held ! k # mp_free_list p\<rparr>, record_memory_pool_release c)"
      using assms block_accepted [OF b pos(2)] pos room by (auto simp: pool_release_def pool_ok_def)
    moreover have "set held = insert (held ! k) (set ?rest)" "distinct ?rest" "held ! k \<notin> set ?rest"
      using list_pick [OF True] assms by (auto simp: pool_ok_def)
    moreover have "word_of_nat (length held) - 1 = (word_of_nat (length ?rest) :: u64)"
      using True by (cases held) auto
    ultimately show ?thesis
      using assms PoolDrop True by (auto simp: pool_ok_def record_memory_pool_release_def)
  qed (use assms PoolDrop in simp)
qed

lemma pool_run_ok: "pool_ok block_size (if block_size = 0 then 0 else n) (pool_run block_size n ops)"
proof -
  obtain p c where new: "new_memory_pool block_size n new_pool_counters = (p, c)" by fastforce
  have "pool_ok block_size m (foldl pool_step s ops)" if "pool_ok block_size m s" for s m
    using that
  proof (induction ops arbitrary: s)
    case (Cons op ops)
    then show ?case by (cases s) (simp add: pool_step_ok del: pool_step.simps)
  qed simp
  then show ?thesis using new_pool_ok [of block_size n] by (simp add: pool_run_def new)
qed

definition block_range :: "nat \<Rightarrow> int \<Rightarrow> int set" where
  "block_range block_size b = {b..<b + int block_size}"

lemma block_ranges_disjoint:
  assumes "a \<in> blocks block_size n" "b \<in> blocks block_size n" "a \<noteq> b"
  shows "block_range block_size a \<inter> block_range block_size b = {}"
proof -
  obtain i j where ij: "a = int (i * block_size)" "b = int (j * block_size)" "i \<noteq> j"
    using assms by (auto simp: blocks_def)
  have "x * block_size + block_size \<le> y * block_size" if "x < y" for x y :: nat
    using that mult_le_mono1 [of "Suc x" y block_size] by simp
  then have "i * block_size + block_size \<le> j * block_size \<or> j * block_size + block_size \<le> i * block_size"
    using ij(3) by (cases "i < j") auto
  then have "a + int block_size \<le> b \<or> b + int block_size \<le> a"
    unfolding ij by (simp only: of_nat_le_iff flip: of_nat_add)
  then show ?thesis by (auto simp: block_range_def)
qed

text \<open>C25.
  No two buffers in use ever share a byte. After any run of acquisitions and drops the buffers held are
  pairwise disjoint ranges inside the pool's chunk, an acquisition fails exactly when every block of the pool is
  held, and the usage counter is the number of buffers held.\<close>

theorem pool_buffers_exclusive:
  "case pool_run block_size n ops of (p, c, held) \<Rightarrow>
     disjoint_family_on (\<lambda>i. block_range block_size (held ! i)) {..<length held} \<and>
     (\<Union>i<length held. block_range block_size (held ! i)) \<subseteq> {0..<int (mp_chunk_size p)} \<and>
     (snd (snd (pool_acquire p c)) = None \<longleftrightarrow> length held = (if block_size = 0 then 0 else n)) \<and>
     pc_in_use c = word_of_nat (length held)"
proof -
  define m where "m = (if block_size = 0 then 0 else n)"
  obtain p c held where r: "pool_run block_size n ops = (p, c, held)" by (metis prod_cases3)
  have ok: "pool_ok block_size m (p, c, held)" using pool_run_ok [of block_size n ops] unfolding r m_def .
  have d: "distinct held" and sub: "set held \<subseteq> blocks block_size m" using ok by (auto simp: pool_ok_def)
  have 1: "disjoint_family_on (\<lambda>i. block_range block_size (held ! i)) {..<length held}"
    unfolding disjoint_family_on_def
  proof (intro ballI impI)
    fix i j
    assume "i \<in> {..<length held}" "j \<in> {..<length held}" "i \<noteq> j"
    then have "held ! i \<in> blocks block_size m" "held ! j \<in> blocks block_size m" "held ! i \<noteq> held ! j"
      using d sub by (auto simp: nth_eq_iff_index_eq)
    then show "block_range block_size (held ! i) \<inter> block_range block_size (held ! j) = {}"
      by (rule block_ranges_disjoint)
  qed
  have 2: "block_range block_size b \<subseteq> {0..<int (mp_chunk_size p)}" if "b \<in> set held" for b
  proof -
    have "b \<in> blocks block_size m" using that sub by (rule set_mp [rotated])
    then obtain i where i: "b = int (i * block_size)" "i < m" by (auto simp: blocks_def)
    then have "Suc i * block_size \<le> m * block_size" by (intro mult_le_mono1) simp
    then have "i * block_size + block_size \<le> block_size * m" by (simp add: algebra_simps)
    then have "b + int block_size \<le> int (block_size * m)" unfolding i(1) by linarith
    moreover have "mp_chunk_size p = block_size * m" using ok by (simp add: pool_ok_def)
    moreover have "0 \<le> b" unfolding i(1) by (rule of_nat_0_le_iff)
    ultimately show ?thesis unfolding block_range_def by (intro subsetI) simp
  qed
  have 3: "snd (snd (pool_acquire p c)) = None \<longleftrightarrow> length held = m"
    using pool_ok_counts [OF ok] by (cases "mp_free_list p") (auto simp: pool_acquire_def)
  have 4: "pc_in_use c = word_of_nat (length held)" using ok by (simp add: pool_ok_def)
  have 5: "(\<Union>i<length held. block_range block_size (held ! i)) \<subseteq> {0..<int (mp_chunk_size p)}"
    using 2 by (intro UN_least) (simp add: nth_mem)
  show ?thesis unfolding r prod.case m_def [symmetric] using 1 3 4 5 by (intro conjI)
qed

text \<open>The discipline of the owning pointers is needed: the pool itself accepts a block that is already free as
  long as some other block is held, and then hands it out twice.\<close>

lemma double_release_hands_out_twice:
  "let (p, c) = new_memory_pool 16 2 new_pool_counters;
       (p, c, a) = pool_acquire p c;
       (p, c, b) = pool_acquire p c;
       (p, c) = pool_release a p c;
       (p, c) = pool_release a p c;
       (p, c, x) = pool_acquire p c;
       (p, c, y) = pool_acquire p c
   in x = y \<and> x = Some 16"
  by code_simp

end
