(* ===== verification/Job_Queue.thy ===== *)
theory Job_Queue
  imports Process_Metrics
begin

text \<open>
  The job queue of \<open>core/src/concurrent/job_queue.cpp\<close> with the threads that use it. A call runs as critical
  sections: it takes the mutex and either finishes or waits on the one condition variable, and after a wake-up it
  takes the mutex again and re-examines the queue. As in the code, the notification of a call is a step of its own,
  after the mutex was released, so anything may happen in between. Producers that wait for room and consumers that
  wait for a job wait on the same condition variable, and \<open>notify_one\<close> wakes any one of them: the choice is part of
  the event. A waiting thread may also wake up spuriously at any time. A job is a non-empty function: a push of an
  empty one returns before it takes the mutex and is no call of the model.
\<close>

section \<open>The critical sections\<close>

record 'j JobQueue =
  jq_jobs :: "'j list"
  jq_stopping :: bool
  jq_max_size :: nat

definition new_job_queue :: "nat \<Rightarrow> JobQueueCounters \<Rightarrow> 'j JobQueue \<times> JobQueueCounters" where
  "new_job_queue max_size c =
     (\<lparr>jq_jobs = [], jq_stopping = False, jq_max_size = max_size\<rparr>, register_job_queue_capacity max_size c)"

definition jq_full :: "'j JobQueue \<Rightarrow> bool" where
  "jq_full q \<longleftrightarrow> jq_max_size q > 0 \<and> length (jq_jobs q) \<ge> jq_max_size q"

definition jq_add :: "'j \<Rightarrow> 'j JobQueue \<Rightarrow> 'j JobQueue" where
  "jq_add job q = q\<lparr>jq_jobs := jq_jobs q @ [job]\<rparr>"

datatype PushEnd = PuWaits | PuReturns | PuPushed

text \<open>\<open>waited\<close> is the time waited so far, None when the section is the first of its call: the first one
  returns at once when the queue is stopping, a later one records the wait before it looks.\<close>

definition jq_push ::
  "int option \<Rightarrow> 'j \<Rightarrow> 'j JobQueue \<Rightarrow> JobQueueCounters \<Rightarrow> 'j JobQueue \<times> JobQueueCounters \<times> PushEnd"
where
  "jq_push waited job q c =
     (case waited of
        None \<Rightarrow>
          if jq_stopping q then (q, c, PuReturns)
          else if jq_full q then (q, c, PuWaits)
          else (let q = jq_add job q in (q, record_job_queue_depth (length (jq_jobs q)) c, PuPushed))
      | Some ns \<Rightarrow>
          if \<not> (jq_stopping q \<or> length (jq_jobs q) < jq_max_size q) then (q, c, PuWaits)
          else
            (let c = record_job_queue_push_wait ns c
             in if jq_stopping q then (q, c, PuReturns)
                else (let q = jq_add job q in (q, record_job_queue_depth (length (jq_jobs q)) c, PuPushed))))"

definition jq_try_push :: "'j \<Rightarrow> 'j JobQueue \<Rightarrow> JobQueueCounters \<Rightarrow> 'j JobQueue \<times> JobQueueCounters \<times> bool" where
  "jq_try_push job q c =
     (if jq_stopping q then (q, c, False)
      else if jq_full q then
        (q, record_job_queue_depth (length (jq_jobs q)) (record_job_queue_reject c), False)
      else (let q = jq_add job q in (q, record_job_queue_depth (length (jq_jobs q)) c, True)))"

datatype 'j PopEnd = PoWaits | PoNull | PoJob 'j

definition jq_pop :: "'j JobQueue \<Rightarrow> JobQueueCounters \<Rightarrow> 'j JobQueue \<times> JobQueueCounters \<times> 'j PopEnd" where
  "jq_pop q c =
     (case jq_jobs q of
        [] \<Rightarrow> if jq_stopping q then (q, record_job_queue_depth 0 c, PoNull) else (q, c, PoWaits)
      | job # jobs \<Rightarrow> (q\<lparr>jq_jobs := jobs\<rparr>, record_job_queue_depth (length jobs) c, PoJob job))"

definition jq_stop :: "'j JobQueue \<Rightarrow> JobQueueCounters \<Rightarrow> 'j JobQueue \<times> JobQueueCounters" where
  "jq_stop q c = (q\<lparr>jq_stopping := True\<rparr>, record_job_queue_depth (length (jq_jobs q)) c)"

section \<open>Threads\<close>

text \<open>A thread is outside the queue; about to enter a section of a push (the flag says whether it has waited), a
  try-push, a pop or a stop; waiting inside a push or a pop; or about to notify after it has left its section.\<close>

datatype 'j Thread =
    ThOutside
  | ThPush 'j bool
  | ThPushWaits 'j
  | ThTryPush 'j
  | ThPop
  | ThPopWaits
  | ThStop
  | ThNotifyOne
  | ThNotifyAll

fun waits :: "'j Thread \<Rightarrow> bool" where
  "waits (ThPushWaits _) = True"
| "waits ThPopWaits = True"
| "waits _ = False"

fun awake :: "'j Thread \<Rightarrow> 'j Thread" where
  "awake (ThPushWaits j) = ThPush j True"
| "awake ThPopWaits = ThPop"
| "awake t = t"

record 'j JobSystem =
  js_queue :: "'j JobQueue"
  js_counters :: JobQueueCounters
  js_threads :: "'j Thread list"

text \<open>\<open>notify_one\<close> wakes the chosen waiting thread; when no thread waits it has no effect. Any other choice is
  not a behaviour.\<close>

definition notify_one :: "nat \<Rightarrow> 'j Thread list \<Rightarrow> 'j Thread list option" where
  "notify_one w ts =
     (if \<not> list_ex waits ts then Some ts
      else if w < length ts \<and> waits (ts ! w) then Some (ts[w := awake (ts ! w)])
      else None)"

definition notify_all :: "'j Thread list \<Rightarrow> 'j Thread list" where
  "notify_all ts = map awake ts"

datatype 'j JobAct = Enqueued 'j | Dequeued 'j

text \<open>The sections: what the call does to the queue, and where its thread stands when it has released the mutex.\<close>

definition left_section ::
  "nat \<Rightarrow> 'j Thread \<Rightarrow> 'j JobQueue \<Rightarrow> JobQueueCounters \<Rightarrow> 'j JobSystem \<Rightarrow> 'j JobSystem"
where
  "left_section t x q c s = s\<lparr>js_queue := q, js_counters := c, js_threads := (js_threads s)[t := x]\<rparr>"

definition run_push :: "nat \<Rightarrow> 'j \<Rightarrow> int option \<Rightarrow> 'j JobSystem \<Rightarrow> 'j JobSystem \<times> 'j JobAct list" where
  "run_push t job waited s =
     (case jq_push waited job (js_queue s) (js_counters s) of
        (q, c, PuWaits) \<Rightarrow> (left_section t (ThPushWaits job) q c s, [])
      | (q, c, PuReturns) \<Rightarrow> (left_section t ThOutside q c s, [])
      | (q, c, PuPushed) \<Rightarrow> (left_section t ThNotifyOne q c s, [Enqueued job]))"

definition run_try_push :: "nat \<Rightarrow> 'j \<Rightarrow> 'j JobSystem \<Rightarrow> 'j JobSystem \<times> 'j JobAct list" where
  "run_try_push t job s =
     (case jq_try_push job (js_queue s) (js_counters s) of
        (q, c, pushed) \<Rightarrow>
          if pushed then (left_section t ThNotifyOne q c s, [Enqueued job]) else (left_section t ThOutside q c s, []))"

definition run_pop :: "nat \<Rightarrow> 'j JobSystem \<Rightarrow> 'j JobSystem \<times> 'j JobAct list" where
  "run_pop t s =
     (case jq_pop (js_queue s) (js_counters s) of
        (q, c, PoWaits) \<Rightarrow> (left_section t ThPopWaits q c s, [])
      | (q, c, PoNull) \<Rightarrow> (left_section t ThOutside q c s, [])
      | (q, c, PoJob job) \<Rightarrow>
          (left_section t (if jq_max_size q > 0 then ThNotifyOne else ThOutside) q c s, [Dequeued job]))"

definition run_stop :: "nat \<Rightarrow> 'j JobSystem \<Rightarrow> 'j JobSystem \<times> 'j JobAct list" where
  "run_stop t s =
     (case jq_stop (js_queue s) (js_counters s) of (q, c) \<Rightarrow> (left_section t ThNotifyAll q c s, []))"

datatype 'j JobEvent =
    CallPush nat 'j
  | CallTryPush nat 'j
  | CallPop nat
  | CallStop nat
  | RunThread nat int
  | NotifyThread nat nat
  | SpuriousWake nat

type_synonym 'j outcome = "('j JobSystem \<times> 'j JobAct list) option"

definition at :: "nat \<Rightarrow> 'j JobSystem \<Rightarrow> 'j Thread option" where
  "at t s = (if t < length (js_threads s) then Some (js_threads s ! t) else None)"

definition begin_call :: "nat \<Rightarrow> 'j Thread \<Rightarrow> 'j JobSystem \<Rightarrow> 'j outcome" where
  "begin_call t x s =
     (if at t s = Some ThOutside then Some (s\<lparr>js_threads := (js_threads s)[t := x]\<rparr>, []) else None)"

fun job_step :: "'j JobEvent \<Rightarrow> 'j JobSystem \<Rightarrow> 'j outcome" where
  "job_step (CallPush t job) s = begin_call t (ThPush job False) s"
| "job_step (CallTryPush t job) s = begin_call t (ThTryPush job) s"
| "job_step (CallPop t) s = begin_call t ThPop s"
| "job_step (CallStop t) s = begin_call t ThStop s"
| "job_step (RunThread t ns) s =
     (case at t s of
        Some (ThPush job waited) \<Rightarrow> Some (run_push t job (if waited then Some ns else None) s)
      | Some (ThTryPush job) \<Rightarrow> Some (run_try_push t job s)
      | Some ThPop \<Rightarrow> Some (run_pop t s)
      | Some ThStop \<Rightarrow> Some (run_stop t s)
      | _ \<Rightarrow> None)"
| "job_step (NotifyThread t w) s =
     (case at t s of
        Some ThNotifyOne \<Rightarrow>
          map_option (\<lambda>ts. (s\<lparr>js_threads := ts\<rparr>, [])) (notify_one w ((js_threads s)[t := ThOutside]))
      | Some ThNotifyAll \<Rightarrow> Some (s\<lparr>js_threads := notify_all ((js_threads s)[t := ThOutside])\<rparr>, [])
      | _ \<Rightarrow> None)"
| "job_step (SpuriousWake t) s =
     (if t < length (js_threads s) \<and> waits (js_threads s ! t)
      then Some (s\<lparr>js_threads := (js_threads s)[t := awake (js_threads s ! t)]\<rparr>, []) else None)"

fun job_run :: "'j JobEvent list \<Rightarrow> 'j JobSystem \<Rightarrow> 'j outcome" where
  "job_run [] s = Some (s, [])"
| "job_run (e # es) s =
     (case job_step e s of
        None \<Rightarrow> None
      | Some (s, acts) \<Rightarrow> (case job_run es s of None \<Rightarrow> None | Some (s, acts') \<Rightarrow> Some (s, acts @ acts')))"

definition new_job_system :: "nat \<Rightarrow> nat \<Rightarrow> 'j JobSystem" where
  "new_job_system max_size n =
     (case new_job_queue max_size new_job_queue_counters of
        (q, c) \<Rightarrow> \<lparr>js_queue = q, js_counters = c, js_threads = replicate n ThOutside\<rparr>)"

fun enqueued :: "'j JobAct list \<Rightarrow> 'j list" where
  "enqueued [] = []"
| "enqueued (Enqueued j # acts) = j # enqueued acts"
| "enqueued (Dequeued j # acts) = enqueued acts"

fun dequeued :: "'j JobAct list \<Rightarrow> 'j list" where
  "dequeued [] = []"
| "dequeued (Enqueued j # acts) = dequeued acts"
| "dequeued (Dequeued j # acts) = j # dequeued acts"

lemma act_append [simp]:
  "enqueued (xs @ ys) = enqueued xs @ enqueued ys"
  "dequeued (xs @ ys) = dequeued xs @ dequeued ys"
  by (induction xs rule: enqueued.induct) auto

section \<open>First in, first out\<close>

definition queue_kept :: "'j JobSystem \<Rightarrow> 'j JobSystem \<Rightarrow> 'j JobAct list \<Rightarrow> bool" where
  "queue_kept s s' acts \<longleftrightarrow>
     jq_jobs (js_queue s) @ enqueued acts = dequeued acts @ jq_jobs (js_queue s') \<and>
     jq_max_size (js_queue s') = jq_max_size (js_queue s) \<and>
     (enqueued acts \<noteq> [] \<longrightarrow> \<not> jq_full (js_queue s) \<and> \<not> jq_stopping (js_queue s) \<and> length (enqueued acts) = 1) \<and>
     (jq_stopping (js_queue s) \<longrightarrow> jq_stopping (js_queue s'))"

lemma left_section_fields [simp]:
  "js_queue (left_section t x q c s) = q" "js_threads (left_section t x q c s) = (js_threads s)[t := x]"
  by (simp_all add: left_section_def)

lemma sections_kept:
  "run_push t job waited s = (s', acts) \<Longrightarrow> queue_kept s s' acts"
  "run_try_push t job s = (s', acts) \<Longrightarrow> queue_kept s s' acts"
  "run_pop t s = (s', acts) \<Longrightarrow> queue_kept s s' acts"
  "run_stop t s = (s', acts) \<Longrightarrow> queue_kept s s' acts"
  by (auto simp: run_push_def jq_push_def run_try_push_def jq_try_push_def run_pop_def jq_pop_def run_stop_def jq_stop_def
      queue_kept_def jq_add_def jq_full_def Let_def split: option.splits if_splits list.splits)

lemma job_step_kept:
  assumes "job_step e s = Some (s', acts)"
  shows "queue_kept s s' acts"
  using assms by (cases e) (auto simp: begin_call_def queue_kept_def [of s "s\<lparr>js_threads := ts\<rparr>" for ts]
      split: if_splits option.splits Thread.splits intro: sections_kept)

lemma job_run_kept:
  "job_run es s = Some (s', acts) \<Longrightarrow>
   jq_jobs (js_queue s) @ enqueued acts = dequeued acts @ jq_jobs (js_queue s') \<and>
   jq_max_size (js_queue s') = jq_max_size (js_queue s) \<and>
   (0 < jq_max_size (js_queue s) \<and> length (jq_jobs (js_queue s)) \<le> jq_max_size (js_queue s) \<longrightarrow>
      length (jq_jobs (js_queue s')) \<le> jq_max_size (js_queue s))"
proof (induction es arbitrary: s acts)
  case (Cons e es)
  obtain s1 a1 a2 where 1: "job_step e s = Some (s1, a1)" "job_run es s1 = Some (s', a2)" "acts = a1 @ a2"
    using Cons.prems by (auto split: option.splits)
  have k: "queue_kept s s1 a1" by (rule job_step_kept [OF 1(1)])
  then have "length (jq_jobs (js_queue s1)) \<le> length (jq_jobs (js_queue s)) + length (enqueued a1)"
    unfolding queue_kept_def by (metis le_add2 length_append)
  then have b: "length (jq_jobs (js_queue s1)) \<le> jq_max_size (js_queue s)"
    if "0 < jq_max_size (js_queue s)" "length (jq_jobs (js_queue s)) \<le> jq_max_size (js_queue s)"
    using k that by (cases "enqueued a1 = []") (auto simp: queue_kept_def jq_full_def)
  have "jq_jobs (js_queue s) @ enqueued acts = (jq_jobs (js_queue s) @ enqueued a1) @ enqueued a2"
    by (simp add: 1(3))
  also have "\<dots> = dequeued a1 @ jq_jobs (js_queue s1) @ enqueued a2" using k by (simp add: queue_kept_def)
  also have "\<dots> = dequeued acts @ jq_jobs (js_queue s')" using Cons.IH [OF 1(2)] by (simp add: 1(3))
  finally show ?case using b k Cons.IH [OF 1(2)] by (auto simp: queue_kept_def)
qed simp

text \<open>C23.
  The job queue is first in, first out, loses nothing and stays within its bound, however many threads use it
  and however their sections interleave: the jobs taken in, in order, are the jobs given out, in order, followed
  by the jobs still queued, and a queue with a bound never holds more.\<close>

theorem job_queue_fifo:
  assumes "job_run es (new_job_system max_size n) = Some (s, acts)"
  shows "enqueued acts = dequeued acts @ jq_jobs (js_queue s) \<and>
    (max_size = 0 \<or> length (jq_jobs (js_queue s)) \<le> max_size)"
  using job_run_kept [OF assms] by (auto simp: new_job_system_def new_job_queue_def)

theorem job_queue_fifo_witness:
  "\<exists>s acts. job_run [CallPush 0 (3 :: nat), RunThread 0 0, CallPop 1, RunThread 1 0, NotifyThread 0 0, CallTryPush 0 4, RunThread 0 0]
      (new_job_system 2 2) = Some (s, acts) \<and> enqueued acts = dequeued acts @ jq_jobs (js_queue s)"
proof -
  have "job_run [CallPush 0 (3 :: nat), RunThread 0 0, CallPop 1, RunThread 1 0, NotifyThread 0 0, CallTryPush 0 4, RunThread 0 0]
      (new_job_system 2 2) \<noteq> None"
    by code_simp
  then obtain s acts where "job_run [CallPush 0 (3 :: nat), RunThread 0 0, CallPop 1, RunThread 1 0, NotifyThread 0 0,
      CallTryPush 0 4, RunThread 0 0] (new_job_system 2 2) = Some (s, acts)"
    by (metis not_None_eq surj_pair)
  from job_queue_fifo [OF this] this show ?thesis by blast
qed

section \<open>Wake-ups\<close>

text \<open>The threads that will see to a queued job: a consumer that is awake and about to look, and a thread that is
  about to wake one up.\<close>

fun hand :: "'j Thread \<Rightarrow> bool" where
  "hand ThPop = True"
| "hand ThNotifyOne = True"
| "hand _ = False"

definition hands :: "'j Thread list \<Rightarrow> nat" where
  "hands ts = length (filter hand ts)"

text \<open>No producer of an unbounded queue waits or has waited.\<close>

fun push_ok :: "'j Thread \<Rightarrow> bool" where
  "push_ok (ThPush _ waited) = (\<not> waited)"
| "push_ok (ThPushWaits _) = False"
| "push_ok _ = True"

text \<open>While a thread waits on a queue that is stopping, its wake-up is under way; while a consumer waits on an
  unbounded queue, there are as many hands as jobs.\<close>

definition threads_ok :: "bool \<Rightarrow> nat \<Rightarrow> nat \<Rightarrow> 'j Thread list \<Rightarrow> bool" where
  "threads_ok stopping max_size jobs ts \<longleftrightarrow>
     (stopping \<and> list_ex waits ts \<longrightarrow> ThNotifyAll \<in> set ts) \<and>
     (max_size = 0 \<longrightarrow> list_all push_ok ts \<and> (list_ex waits ts \<longrightarrow> jobs \<le> hands ts))"

definition wake_ok :: "'j JobSystem \<Rightarrow> bool" where
  "wake_ok s \<longleftrightarrow> threads_ok (jq_stopping (js_queue s)) (jq_max_size (js_queue s)) (length (jq_jobs (js_queue s))) (js_threads s)"

lemma hands_update:
  "t < length ts \<Longrightarrow> hands (ts[t := x]) + of_bool (hand (ts ! t)) = hands ts + of_bool (hand x)"
proof (induction ts arbitrary: t)
  case (Cons y ts)
  then show ?case by (cases t) (auto simp: hands_def)
qed simp

lemma list_ex_update:
  "t < length ts \<Longrightarrow> \<not> P (ts ! t) \<Longrightarrow> list_ex P (ts[t := x]) \<longleftrightarrow> P x \<or> list_ex P ts"
proof (induction ts arbitrary: t)
  case (Cons y ts)
  then show ?case by (cases t) auto
qed simp

lemma list_all_update: "list_all P ts \<Longrightarrow> P x \<Longrightarrow> list_all P (ts[t := x])"
  using set_update_subset_insert [of ts t x] by (auto simp: list_all_iff)

lemma in_set_update_other: "y \<in> set ts \<Longrightarrow> ts ! t \<noteq> y \<Longrightarrow> y \<in> set (ts[t := x])"
  by (metis in_set_conv_nth length_list_update nth_list_update_neq)

text \<open>One thread moves on while the queue changes.\<close>

lemma threads_ok_update:
  assumes "threads_ok st m j ts" "t < length ts" "\<not> waits (ts ! t)" "m = 0 \<Longrightarrow> push_ok x"
    and "waits x \<Longrightarrow> \<not> st' \<and> (m = 0 \<longrightarrow> j' = 0)"
    and "m = 0 \<Longrightarrow> j' = 0 \<or> j' + of_bool (hand (ts ! t)) \<le> j + of_bool (hand x)"
    and "st' \<Longrightarrow> x = ThNotifyAll \<or> st \<and> ts ! t \<noteq> ThNotifyAll"
  shows "threads_ok st' m j' (ts[t := x])"
proof -
  have w: "list_ex waits (ts[t := x]) \<longleftrightarrow> waits x \<or> list_ex waits ts" using assms(2,3) by (rule list_ex_update)
  have "ThNotifyAll \<in> set (ts[t := x])" if "st'" "list_ex waits (ts[t := x])"
  proof (cases "x = ThNotifyAll")
    case True
    then show ?thesis using assms(2) by (simp add: set_update_memI)
  next
    case False
    then have "st" "ts ! t \<noteq> ThNotifyAll" "list_ex waits ts" using assms(5,7) that w by auto
    then show ?thesis using assms(1) by (intro in_set_update_other) (simp_all add: threads_ok_def)
  qed
  moreover have "j' \<le> hands (ts[t := x])" if "m = 0" "list_ex waits (ts[t := x])"
    using assms(1,5,6) that w hands_update [OF assms(2), of x] by (auto simp: threads_ok_def)
  moreover have "list_all push_ok (ts[t := x])" if "m = 0"
    using assms(1,4) that by (intro list_all_update) (simp_all add: threads_ok_def)
  ultimately show ?thesis by (simp add: threads_ok_def)
qed

lemma threads_ok_notify_one:
  assumes "threads_ok st m j ts" "t < length ts" "ts ! t = ThNotifyOne" "notify_one w (ts[t := ThOutside]) = Some ts'"
  shows "threads_ok st m j ts'"
proof (cases "list_ex waits ts")
  case False
  then have "\<not> list_ex waits (ts[t := ThOutside])" using list_ex_update [OF assms(2), of waits ThOutside] assms(3) by simp
  then have "ts' = ts[t := ThOutside]" "\<not> list_ex waits ts'" using assms(4) by (simp_all add: notify_one_def split: if_splits)
  then show ?thesis using assms(1) by (simp add: threads_ok_def list_all_update)
next
  case True
  then have "list_ex waits (ts[t := ThOutside])" using list_ex_update [OF assms(2), of waits ThOutside] assms(3) by simp
  then have w: "w < length ts" "waits (ts[t := ThOutside] ! w)" "ts' = ts[t := ThOutside, w := awake (ts[t := ThOutside] ! w)]"
    using assms(4) by (auto simp: notify_one_def split: if_splits)
  then have wt: "w \<noteq> t" "ts[t := ThOutside] ! w = ts ! w" using assms(2) by (auto simp: nth_list_update split: if_splits)
  have "ThNotifyAll \<in> set ts'" if "st"
  proof -
    have "ThNotifyAll \<in> set (ts[t := ThOutside])" using assms(1,3) that True by (intro in_set_update_other) (simp_all add: threads_ok_def)
    moreover have "ts[t := ThOutside] ! w \<noteq> ThNotifyAll" using w(2) by auto
    ultimately show ?thesis unfolding w(3) by (rule in_set_update_other)
  qed
  moreover have "list_all push_ok ts' \<and> j \<le> hands ts'" if "m = 0"
  proof -
    have p: "list_all push_ok ts" "j \<le> hands ts" using assms(1) that True by (simp_all add: threads_ok_def)
    then have "push_ok (ts ! w)" using w(1) by (simp add: list_all_length)
    then have "ts ! w = ThPopWaits" using w(2) wt(2) by (cases "ts ! w") simp_all
    then show ?thesis
      using p wt w(1) hands_update [OF assms(2), of ThOutside] hands_update [of w "ts[t := ThOutside]" ThPop]
      by (simp add: w(3) assms(3) list_all_update)
  qed
  ultimately show ?thesis by (simp add: threads_ok_def)
qed

lemma threads_ok_notify_all:
  assumes "threads_ok st m j ts"
  shows "threads_ok st m j (notify_all (ts[t := ThOutside]))"
proof -
  have "\<not> waits (awake x)" for x :: "'a Thread" by (cases x) simp_all
  then have "\<not> list_ex waits (notify_all us)" for us :: "'a Thread list" by (auto simp: notify_all_def list_ex_iff)
  moreover have "push_ok x \<Longrightarrow> push_ok (awake x)" for x :: "'a Thread" by (cases x) simp_all
  ultimately show ?thesis
    using assms list_all_update [of push_ok ts ThOutside t] by (auto simp: threads_ok_def notify_all_def list_all_iff)
qed

lemma threads_ok_spurious:
  assumes "threads_ok st m j ts" "t < length ts" "waits (ts ! t)"
  shows "threads_ok st m j (ts[t := awake (ts ! t)])"
proof -
  have "list_ex waits ts" using assms(2,3) by (auto simp: list_ex_length)
  moreover have "ThNotifyAll \<in> set ts \<Longrightarrow> ThNotifyAll \<in> set (ts[t := awake (ts ! t)])"
    using assms(3) by (intro in_set_update_other) auto
  moreover have "list_all push_ok ts \<Longrightarrow> push_ok (awake (ts ! t))"
    using assms(2) by (cases "ts ! t") (auto simp: list_all_length)
  moreover have "\<not> hand (ts ! t)" using assms(3) by (cases "ts ! t") simp_all
  then have "hands ts \<le> hands (ts[t := awake (ts ! t)])" using hands_update [OF assms(2), of "awake (ts ! t)"] by simp
  ultimately show ?thesis using assms(1) by (auto simp: threads_ok_def list_all_update)
qed

lemma wake_ok_left:
  assumes "wake_ok s" "at t s = Some y" "\<not> waits y" "jq_max_size q = jq_max_size (js_queue s)"
    and "jq_max_size q = 0 \<Longrightarrow> push_ok x" "waits x \<Longrightarrow> \<not> jq_stopping q \<and> (jq_max_size q = 0 \<longrightarrow> jq_jobs q = [])"
    and "jq_max_size q = 0 \<Longrightarrow>
      jq_jobs q = [] \<or> length (jq_jobs q) + of_bool (hand y) \<le> length (jq_jobs (js_queue s)) + of_bool (hand x)"
    and "jq_stopping q \<Longrightarrow> x = ThNotifyAll \<or> jq_stopping (js_queue s) \<and> y \<noteq> ThNotifyAll"
  shows "wake_ok (left_section t x q c s)"
proof -
  have t: "t < length (js_threads s)" "js_threads s ! t = y" using assms(2) by (auto simp: at_def split: if_splits)
  show ?thesis
    using assms t unfolding wake_ok_def left_section_fields
    by (intro threads_ok_update [where st = "jq_stopping (js_queue s)" and j = "length (jq_jobs (js_queue s))"]) simp_all
qed

lemma sections_ok:
  assumes "wake_ok s"
  shows "at t s = Some (ThPush job waited) \<Longrightarrow> wake_ok (fst (run_push t job (if waited then Some ns else None) s))"
    and "at t s = Some (ThTryPush job) \<Longrightarrow> wake_ok (fst (run_try_push t job s))"
    and "at t s = Some ThPop \<Longrightarrow> wake_ok (fst (run_pop t s))"
    and "at t s = Some ThStop \<Longrightarrow> wake_ok (fst (run_stop t s))"
proof -
  assume a: "at t s = Some (ThPush job waited)"
  then have "\<not> waited" if "jq_max_size (js_queue s) = 0"
    using assms that by (auto simp: wake_ok_def threads_ok_def at_def list_all_length split: if_splits)
  with a assms show "wake_ok (fst (run_push t job (if waited then Some ns else None) s))"
    by (cases "jq_push (if waited then Some ns else None) job (js_queue s) (js_counters s)")
      (auto simp: run_push_def jq_push_def jq_full_def jq_add_def Let_def intro!: wake_ok_left split: if_splits)
next
  assume "at t s = Some (ThTryPush job)"
  with assms show "wake_ok (fst (run_try_push t job s))"
    by (auto simp: run_try_push_def jq_try_push_def jq_add_def Let_def intro!: wake_ok_left split: if_splits)
next
  assume "at t s = Some ThPop"
  with assms show "wake_ok (fst (run_pop t s))"
    by (auto simp: run_pop_def jq_pop_def intro!: wake_ok_left split: if_splits list.splits)
next
  assume "at t s = Some ThStop"
  with assms show "wake_ok (fst (run_stop t s))"
    by (auto simp: run_stop_def jq_stop_def intro!: wake_ok_left)
qed

lemma begin_call_ok:
  assumes "begin_call t x s = Some (s', acts)" "wake_ok s" "\<not> waits x" "push_ok x"
  shows "wake_ok s'"
proof -
  have "at t s = Some ThOutside" "s' = left_section t x (js_queue s) (js_counters s) s"
    using assms(1) by (auto simp: begin_call_def left_section_def split: if_splits)
  then show ?thesis using assms(2-4) by (auto intro!: wake_ok_left)
qed

lemma job_step_ok:
  assumes "job_step e s = Some (s', acts)" "wake_ok s"
  shows "wake_ok s'"
proof (cases e)
  case (RunThread t ns)
  then show ?thesis using assms sections_ok [OF assms(2), of t] by (auto split: option.splits Thread.splits) (metis fst_conv)+
next
  case (NotifyThread t w)
  then show ?thesis
    using assms by (auto simp: wake_ok_def at_def threads_ok_notify_all split: option.splits Thread.splits if_splits
        intro: threads_ok_notify_one)
next
  case (SpuriousWake t)
  then show ?thesis using assms by (auto simp: wake_ok_def threads_ok_spurious split: if_splits)
qed (use assms begin_call_ok in \<open>force+\<close>)

lemma job_run_ok: "job_run es s = Some (s', acts) \<Longrightarrow> wake_ok s \<Longrightarrow> wake_ok s'"
proof (induction es arbitrary: s acts)
  case (Cons e es)
  then obtain s1 a1 a2 where "job_step e s = Some (s1, a1)" "job_run es s1 = Some (s', a2)"
    by (auto split: option.splits)
  then show ?case using Cons.IH job_step_ok Cons.prems(2) by blast
qed simp

lemma new_job_system_ok: "wake_ok (new_job_system max_size n)"
  by (auto simp: wake_ok_def threads_ok_def new_job_system_def new_job_queue_def list_ex_iff list_all_iff)

text \<open>C24. No wake-up is lost in an unbounded queue, and none in a queue that stops. In every reachable state of an
  unbounded queue in which a consumer waits, each queued job has a thread that will see to it: there are at least as
  many consumers awake and about to look, or threads about to call \<open>notify_one\<close>, as there are jobs. In every
  reachable state of any queue that is stopping and in which a thread waits, a thread is about to call
  \<open>notify_all\<close>. So when every thread is outside or waiting, no consumer waits beside a queued job, and nobody waits on a stopping queue.\<close>

theorem job_wakeups_not_lost:
  assumes "job_run es (new_job_system max_size n) = Some (s, acts)"
  shows "(max_size = 0 \<and> ThPopWaits \<in> set (js_threads s) \<longrightarrow>
      length (jq_jobs (js_queue s)) \<le> length (filter (\<lambda>t. t = ThPop \<or> t = ThNotifyOne) (js_threads s))) \<and>
    (jq_stopping (js_queue s) \<and> list_ex waits (js_threads s) \<longrightarrow> ThNotifyAll \<in> set (js_threads s)) \<and>
    (list_all (\<lambda>t. t = ThOutside \<or> waits t) (js_threads s) \<longrightarrow>
      (max_size = 0 \<and> jq_jobs (js_queue s) \<noteq> [] \<longrightarrow> ThPopWaits \<notin> set (js_threads s)) \<and>
      (jq_stopping (js_queue s) \<longrightarrow> \<not> list_ex waits (js_threads s)))"
proof -
  have ok: "wake_ok s" by (rule job_run_ok [OF assms new_job_system_ok])
  have m: "jq_max_size (js_queue s) = max_size"
    using job_run_kept [OF assms] by (simp add: new_job_system_def new_job_queue_def)
  have "hand = (\<lambda>t :: 'a Thread. t = ThPop \<or> t = ThNotifyOne)" by (rule ext, rule hand.induct) simp_all
  then have h: "hands ts = length (filter (\<lambda>t. t = ThPop \<or> t = ThNotifyOne) ts)" for ts :: "'a Thread list"
    by (simp add: hands_def)
  have w: "list_ex waits (js_threads s)" if "ThPopWaits \<in> set (js_threads s)"
    using that by (force simp: list_ex_iff)
  have q: "filter (\<lambda>t. t = ThPop \<or> t = ThNotifyOne) (js_threads s) = [] \<and> ThNotifyAll \<notin> set (js_threads s)"
    if "list_all (\<lambda>t. t = ThOutside \<or> waits t) (js_threads s)"
    using that by (auto simp: list_all_iff filter_empty_conv)
  show ?thesis using ok w q unfolding wake_ok_def threads_ok_def m h by auto
qed

theorem job_wakeups_not_lost_witness:
  "\<exists>s acts. job_run [CallPop 0, RunThread 0 0, CallTryPush 1 (3 :: nat), RunThread 1 0] (new_job_system 0 2) =
      Some (s, acts) \<and> ThPopWaits \<in> set (js_threads s) \<and>
      1 \<le> length (filter (\<lambda>t. t = ThPop \<or> t = ThNotifyOne) (js_threads s))"
proof -
  have "map_option (\<lambda>(s, acts). (jq_jobs (js_queue s), js_threads s))
      (job_run [CallPop 0, RunThread 0 0, CallTryPush 1 (3 :: nat), RunThread 1 0] (new_job_system 0 2)) =
    Some ([3], [ThPopWaits, ThNotifyOne])"
    by code_simp
  then obtain s acts where
    r: "job_run [CallPop 0, RunThread 0 0, CallTryPush 1 (3 :: nat), RunThread 1 0] (new_job_system 0 2) = Some (s, acts)"
    and s: "jq_jobs (js_queue s) = [3]" "ThPopWaits \<in> set (js_threads s)"
    by auto
  have "length (jq_jobs (js_queue s)) \<le> length (filter (\<lambda>t. t = ThPop \<or> t = ThNotifyOne) (js_threads s))"
    using job_wakeups_not_lost [OF r] s(2) by blast
  with r s show ?thesis by auto
qed

text \<open>With a bound it can happen. The threads 0 and 1 wait for a job; thread 2 pushes one and wakes 0; before 0
  runs, thread 3 finds the queue full and waits for room; 0 takes the job, and its notification wakes 1, which
  finds nothing and waits again; 0 comes back for more and waits too. The queue is then empty, has room and is not
  stopping, and yet the producer and both consumers wait.\<close>

definition lost_wakeup_run :: "nat JobEvent list" where
  "lost_wakeup_run =
     [CallPop 0, RunThread 0 0, CallPop 1, RunThread 1 0,
      CallPush 2 7, RunThread 2 0, NotifyThread 2 0,
      CallPush 3 8, RunThread 3 0,
      RunThread 0 0, NotifyThread 0 1, RunThread 1 0,
      CallPop 0, RunThread 0 0]"

lemma bounded_queue_loses_wakeup:
  "map_option (\<lambda>(s, acts). (jq_jobs (js_queue s), jq_full (js_queue s), jq_stopping (js_queue s), js_threads s))
     (job_run lost_wakeup_run (new_job_system 1 4)) =
   Some ([], False, False, [ThPopWaits, ThPopWaits, ThOutside, ThPushWaits 8])"
  by code_simp

end
