(* ===== verification/Task_Scheduler.thy ===== *)
theory Task_Scheduler
  imports Keyed_Index "HOL-Library.Multiset"
begin

text \<open>
  The task scheduler of \<open>core/src/concurrent/task_scheduler.cpp\<close>: delayed and repeating tasks that
  \<open>poll\<close> collects and runs. The records are shared between the table of live tasks and the queue entries
  that point to them, so they are kept in a store of their own, by task id, and stay there when a task leaves
  the table. A queue entry carries the generation its record had; an entry whose record has moved on is stale.

  Task bodies and validators are callbacks: the environment says which scheduler operations each of them calls
  while it runs and how it ends. It also gives the clock readings, the jitter draws and the order in which the
  priority queue yields entries that are due at the same time. The multiplication of an interval by a
  floating-point backoff factor is a function carried by the policy, None when the factor is at most one.
  Generations and task ids are counted without the wrap-around of their 64 bits.
\<close>

section \<open>State\<close>

record RepeatPolicy =
  rpt_interval :: int
  rpt_max_interval :: int
  rpt_backoff :: "(int \<Rightarrow> int) option"
  rpt_jitter :: int

record RepeatContext =
  rcx_run_count :: nat
  rcx_validator_skip_count :: nat
  rcx_first_due :: int
  rcx_last_due :: int
  rcx_current_interval :: int

record TaskRecord =
  tr_group :: nat
  tr_body :: nat
  tr_validator :: "nat option"
  tr_policy :: RepeatPolicy
  tr_context :: RepeatContext
  tr_repeating :: bool
  tr_canceled :: bool
  tr_generation :: nat

record ScheduleHandle =
  sh_task_id :: nat
  sh_cancel_token :: nat
  sh_cancel_group :: nat

type_synonym entry = "nat \<times> nat"

record TaskScheduler =
  sk_records :: "(nat, TaskRecord) idx"
  sk_tasks :: "nat list"
  sk_ready :: "entry list"
  sk_delayed :: "(int \<times> entry) list"
  sk_shutdown :: bool
  sk_next_task_id :: nat
  sk_next_group_id :: nat

definition new_task_scheduler :: TaskScheduler where
  "new_task_scheduler =
     \<lparr>sk_records = [], sk_tasks = [], sk_ready = [], sk_delayed = [], sk_shutdown = False, sk_next_task_id = 1,
      sk_next_group_id = 1\<rparr>"

definition no_policy :: RepeatPolicy where
  "no_policy = \<lparr>rpt_interval = 0, rpt_max_interval = 0, rpt_backoff = None, rpt_jitter = 0\<rparr>"

definition no_context :: RepeatContext where
  "no_context =
     \<lparr>rcx_run_count = 0, rcx_validator_skip_count = 0, rcx_first_due = 0, rcx_last_due = 0, rcx_current_interval = 0\<rparr>"

definition no_handle :: ScheduleHandle where
  "no_handle = \<lparr>sh_task_id = 0, sh_cancel_token = 0, sh_cancel_group = 0\<rparr>"

definition make_handle :: "nat \<Rightarrow> nat \<Rightarrow> ScheduleHandle" where
  "make_handle i grp = \<lparr>sh_task_id = i, sh_cancel_token = i, sh_cancel_group = grp\<rparr>"

definition upd_record :: "nat \<Rightarrow> (TaskRecord \<Rightarrow> TaskRecord) \<Rightarrow> TaskScheduler \<Rightarrow> TaskScheduler" where
  "upd_record i f s = s\<lparr>sk_records := idx_update i f (sk_records s)\<rparr>"

section \<open>Delays\<close>

definition clamp_duration_to_non_negative :: "int \<Rightarrow> int" where
  "clamp_duration_to_non_negative delay = (if delay \<le> 0 then 0 else delay)"

definition is_valid_repeat_policy :: "RepeatPolicy \<Rightarrow> bool" where
  "is_valid_repeat_policy policy \<longleftrightarrow> rpt_interval policy > 0"

definition apply_jitter :: "(int \<Rightarrow> int) \<Rightarrow> int \<Rightarrow> int \<Rightarrow> int" where
  "apply_jitter draw delay jitter =
     (let delay = clamp_duration_to_non_negative delay;
          jitter_cap = clamp_duration_to_non_negative jitter
      in if jitter_cap \<le> 0 then delay else delay + draw jitter_cap)"

definition next_repeat_delay :: "(int \<Rightarrow> int) \<Rightarrow> TaskRecord \<Rightarrow> int" where
  "next_repeat_delay draw r =
     (let policy = tr_policy r;
          delay = rcx_current_interval (tr_context r);
          delay = (if delay \<le> 0 then rpt_interval policy else delay);
          delay = (case rpt_backoff policy of
             Some scale \<Rightarrow>
               (let next_ns = scale delay;
                    next_ns = (if next_ns < 0 then 0 else next_ns)
                in if rpt_max_interval policy > 0 then min next_ns (rpt_max_interval policy) else next_ns)
           | None \<Rightarrow> rpt_interval policy)
      in apply_jitter draw delay (rpt_jitter policy))"

section \<open>Scheduling and cancelling\<close>

definition shutdown :: "TaskScheduler \<Rightarrow> TaskScheduler" where
  "shutdown s =
     (if sk_shutdown s then s
      else s\<lparr>sk_shutdown := True, sk_tasks := [], sk_ready := [], sk_delayed := []\<rparr>)"

definition create_cancel_group :: "TaskScheduler \<Rightarrow> TaskScheduler \<times> nat" where
  "create_cancel_group s = (s\<lparr>sk_next_group_id := sk_next_group_id s + 1\<rparr>, sk_next_group_id s)"

definition add_task :: "TaskRecord \<Rightarrow> TaskScheduler \<Rightarrow> TaskScheduler" where
  "add_task r s =
     s\<lparr>sk_records := idx_put (sk_next_task_id s) r (sk_records s), sk_tasks := sk_tasks s @ [sk_next_task_id s],
       sk_next_task_id := sk_next_task_id s + 1\<rparr>"

definition schedule_controlled ::
  "int \<Rightarrow> nat option \<Rightarrow> int \<Rightarrow> nat \<Rightarrow> nat option \<Rightarrow> TaskScheduler \<Rightarrow> TaskScheduler \<times> ScheduleHandle"
where
  "schedule_controlled now task delay grp validator s =
     (case task of
        None \<Rightarrow> (s, no_handle)
      | Some body \<Rightarrow>
          if sk_shutdown s then (s, no_handle)
          else
            (let i = sk_next_task_id s;
                 r = \<lparr>tr_group = grp, tr_body = body, tr_validator = validator, tr_policy = no_policy,
                      tr_context = no_context, tr_repeating = False, tr_canceled = False, tr_generation = 0\<rparr>;
                 due = now + clamp_duration_to_non_negative delay;
                 s = add_task r s;
                 s = (if delay \<le> 0 then s\<lparr>sk_ready := sk_ready s @ [(i, tr_generation r)]\<rparr>
                      else s\<lparr>sk_delayed := sk_delayed s @ [(due, i, tr_generation r)]\<rparr>)
             in (s, make_handle i grp)))"

definition post_controlled :: "int \<Rightarrow> nat option \<Rightarrow> nat \<Rightarrow> nat option \<Rightarrow> TaskScheduler \<Rightarrow> TaskScheduler \<times> ScheduleHandle" where
  "post_controlled now task grp validator s = schedule_controlled now task 0 grp validator s"

definition schedule_every_controlled ::
  "int \<Rightarrow> (int \<Rightarrow> int) \<Rightarrow> nat option \<Rightarrow> RepeatPolicy \<Rightarrow> nat option \<Rightarrow> nat \<Rightarrow> TaskScheduler \<Rightarrow> TaskScheduler \<times> ScheduleHandle"
where
  "schedule_every_controlled now draw task policy validator grp s =
     (case task of
        None \<Rightarrow> (s, no_handle)
      | Some body \<Rightarrow>
          if \<not> is_valid_repeat_policy policy \<or> sk_shutdown s then (s, no_handle)
          else
            (let i = sk_next_task_id s;
                 initial_delay = apply_jitter draw (rpt_interval policy) (rpt_jitter policy);
                 first_due = now + initial_delay;
                 r = \<lparr>tr_group = grp, tr_body = body, tr_validator = validator, tr_policy = policy,
                      tr_context = no_context\<lparr>rcx_current_interval := initial_delay, rcx_first_due := first_due,
                        rcx_last_due := first_due\<rparr>,
                      tr_repeating = True, tr_canceled = False, tr_generation = 0\<rparr>;
                 s = add_task r s
             in (s\<lparr>sk_delayed := sk_delayed s @ [(first_due, i, tr_generation r)]\<rparr>, make_handle i grp)))"

definition mark_canceled :: "nat \<Rightarrow> TaskScheduler \<Rightarrow> TaskScheduler" where
  "mark_canceled i s = upd_record i (\<lambda>r. r\<lparr>tr_canceled := True, tr_generation := tr_generation r + 1\<rparr>) s"

definition cancel :: "nat \<Rightarrow> TaskScheduler \<Rightarrow> TaskScheduler \<times> bool" where
  "cancel token s =
     (if token = 0 \<or> sk_shutdown s then (s, False)
      else if token \<notin> set (sk_tasks s) then (s, False)
      else ((mark_canceled token s)\<lparr>sk_tasks := filter (\<lambda>i. i \<noteq> token) (sk_tasks s)\<rparr>, True))"

definition in_group :: "nat \<Rightarrow> TaskScheduler \<Rightarrow> nat \<Rightarrow> bool" where
  "in_group grp s i = (case idx_find (sk_records s) i of None \<Rightarrow> False | Some r \<Rightarrow> tr_group r = grp)"

definition cancel_group :: "nat \<Rightarrow> TaskScheduler \<Rightarrow> TaskScheduler \<times> nat" where
  "cancel_group grp s =
     (if grp = 0 \<or> sk_shutdown s then (s, 0)
      else
        (let hit = filter (in_group grp s) (sk_tasks s)
         in ((foldl (\<lambda>s i. mark_canceled i s) s hit)\<lparr>sk_tasks := filter (\<lambda>i. \<not> in_group grp s i) (sk_tasks s)\<rparr>,
             length hit)))"

definition live_record :: "nat \<Rightarrow> TaskScheduler \<Rightarrow> TaskRecord option" where
  "live_record token s =
     (if token \<in> set (sk_tasks s) then
        (case idx_find (sk_records s) token of None \<Rightarrow> None | Some r \<Rightarrow> if tr_canceled r then None else Some r)
      else None)"

definition reschedule :: "int \<Rightarrow> nat \<Rightarrow> int \<Rightarrow> TaskScheduler \<Rightarrow> TaskScheduler \<times> bool" where
  "reschedule now token delay s =
     (if token = 0 \<or> sk_shutdown s then (s, False)
      else case live_record token s of
        None \<Rightarrow> (s, False)
      | Some r \<Rightarrow>
          (let gen = tr_generation r + 1;
               next_due = now + clamp_duration_to_non_negative delay;
               s = upd_record token (\<lambda>r. r\<lparr>tr_generation := gen\<rparr>) s;
               s = (if delay \<le> 0 then s\<lparr>sk_ready := sk_ready s @ [(token, gen)]\<rparr>
                    else s\<lparr>sk_delayed := sk_delayed s @ [(next_due, token, gen)]\<rparr>);
               s = (if tr_repeating r
                    then upd_record token (\<lambda>r. r\<lparr>tr_context := (tr_context r)
                           \<lparr>rcx_current_interval := clamp_duration_to_non_negative delay, rcx_last_due := next_due\<rparr>\<rparr>) s
                    else s)
           in (s, True)))"

definition update_repeat_policy ::
  "int \<Rightarrow> (int \<Rightarrow> int) \<Rightarrow> nat \<Rightarrow> RepeatPolicy \<Rightarrow> TaskScheduler \<Rightarrow> TaskScheduler \<times> bool"
where
  "update_repeat_policy now draw token policy s =
     (if token = 0 \<or> \<not> is_valid_repeat_policy policy \<or> sk_shutdown s then (s, False)
      else case live_record token s of
        None \<Rightarrow> (s, False)
      | Some r \<Rightarrow>
          if \<not> tr_repeating r then (s, False)
          else
            (let gen = tr_generation r + 1;
                 delay = apply_jitter draw (rpt_interval policy) (rpt_jitter policy);
                 next_due = now + delay;
                 s = upd_record token (\<lambda>r. r\<lparr>tr_policy := policy, tr_generation := gen, tr_context := (tr_context r)
                       \<lparr>rcx_current_interval := delay, rcx_last_due := next_due\<rparr>\<rparr>) s
             in (s\<lparr>sk_delayed := sk_delayed s @ [(next_due, token, gen)]\<rparr>, True)))"

definition sched_empty :: "TaskScheduler \<Rightarrow> bool" where
  "sched_empty s \<longleftrightarrow> sk_ready s = [] \<and> sk_delayed s = [] \<and> sk_tasks s = []"

section \<open>Callbacks\<close>

text \<open>The operations a callback may call, with the clock reading and the jitter draw each of them makes.\<close>

datatype SchedOp =
    SoSchedule int "nat option" int nat "nat option"
  | SoEvery int "int \<Rightarrow> int" "nat option" RepeatPolicy "nat option" nat
  | SoCancel nat
  | SoCancelGroup nat
  | SoReschedule int nat int
  | SoUpdatePolicy int "int \<Rightarrow> int" nat RepeatPolicy
  | SoNewGroup
  | SoShutdown

fun sched_op :: "SchedOp \<Rightarrow> TaskScheduler \<Rightarrow> TaskScheduler" where
  "sched_op (SoSchedule now task delay grp validator) s = fst (schedule_controlled now task delay grp validator s)"
| "sched_op (SoEvery now draw task policy validator grp) s =
     fst (schedule_every_controlled now draw task policy validator grp s)"
| "sched_op (SoCancel token) s = fst (cancel token s)"
| "sched_op (SoCancelGroup grp) s = fst (cancel_group grp s)"
| "sched_op (SoReschedule now token delay) s = fst (reschedule now token delay s)"
| "sched_op (SoUpdatePolicy now draw token policy) s = fst (update_repeat_policy now draw token policy s)"
| "sched_op SoNewGroup s = fst (create_cancel_group s)"
| "sched_op SoShutdown s = shutdown s"

definition sched_ops :: "SchedOp list \<Rightarrow> TaskScheduler \<Rightarrow> TaskScheduler" where
  "sched_ops ops s = foldl (\<lambda>s op. sched_op op s) s ops"

datatype BodyEnd = BeContinue | BeStop | BeThrow

datatype ValidatorEnd = VeAccept | VeReject | VeThrow

record SchedEnv =
  se_validate :: "nat \<Rightarrow> nat \<Rightarrow> RepeatContext \<Rightarrow> SchedOp list \<times> ValidatorEnd"
  se_body :: "nat \<Rightarrow> nat \<Rightarrow> RepeatContext \<Rightarrow> SchedOp list \<times> BodyEnd"
  se_now :: "nat \<Rightarrow> int"
  se_draw :: "nat \<Rightarrow> int \<Rightarrow> int"
  se_order :: "(int \<times> entry) list \<Rightarrow> (int \<times> entry) list"

section \<open>Polling\<close>

definition current :: "TaskScheduler \<Rightarrow> entry \<Rightarrow> bool" where
  "current s e =
     (case idx_find (sk_records s) (fst e) of
        None \<Rightarrow> False
      | Some r \<Rightarrow> \<not> tr_canceled r \<and> snd e = tr_generation r)"

text \<open>The entries that are due leave the priority queue in the order of their due times; those that are current
  join the ready queue, from which at most \<open>max_tasks\<close> are taken.\<close>

definition collect_ready :: "SchedEnv \<Rightarrow> int \<Rightarrow> nat \<Rightarrow> TaskScheduler \<Rightarrow> TaskScheduler \<times> entry list" where
  "collect_ready x now max_tasks s =
     (let due = map snd (sort_key fst (se_order x (filter (\<lambda>d. fst d \<le> now) (sk_delayed s))));
          ready = sk_ready s @ filter (current s) due
      in (s\<lparr>sk_delayed := filter (\<lambda>d. \<not> fst d \<le> now) (sk_delayed s), sk_ready := drop max_tasks ready\<rparr>,
          take max_tasks ready))"

definition finish_task :: "nat \<Rightarrow> TaskScheduler \<Rightarrow> TaskScheduler" where
  "finish_task i s =
     (upd_record i (\<lambda>r. r\<lparr>tr_canceled := True\<rparr>) s)\<lparr>sk_tasks := filter (\<lambda>j. j \<noteq> i) (sk_tasks s)\<rparr>"

definition is_canceled :: "nat \<Rightarrow> TaskScheduler \<Rightarrow> bool" where
  "is_canceled i s = (case idx_find (sk_records s) i of None \<Rightarrow> False | Some r \<Rightarrow> tr_canceled r)"

text \<open>A repeating task is queued again: the counter of the context that \<open>bump\<close> names is raised, then the
  generation, and the next delay is computed from the context.\<close>

definition requeue :: "SchedEnv \<Rightarrow> nat \<Rightarrow> (RepeatContext \<Rightarrow> RepeatContext) \<Rightarrow> nat \<Rightarrow> TaskScheduler \<Rightarrow> TaskScheduler" where
  "requeue x k bump i s =
     (case idx_find (sk_records s) i of
        None \<Rightarrow> s
      | Some r \<Rightarrow>
          (let r = r\<lparr>tr_context := bump (tr_context r), tr_generation := tr_generation r + 1\<rparr>;
               delay = next_repeat_delay (se_draw x k) r;
               next_due = se_now x k + delay;
               r = r\<lparr>tr_context := (tr_context r)\<lparr>rcx_current_interval := delay, rcx_last_due := next_due\<rparr>\<rparr>
           in s\<lparr>sk_records := idx_put i r (sk_records s), sk_delayed := sk_delayed s @ [(next_due, i, tr_generation r)]\<rparr>))"

definition validate :: "SchedEnv \<Rightarrow> nat \<Rightarrow> TaskRecord \<Rightarrow> TaskScheduler \<Rightarrow> TaskScheduler \<times> ValidatorEnd" where
  "validate x k r s =
     (case tr_validator r of
        None \<Rightarrow> (s, VeAccept)
      | Some v \<Rightarrow> (let (ops, verdict) = se_validate x k v (tr_context r) in (sched_ops ops s, verdict)))"

text \<open>One iteration of the loop over the collected entries: the new state, the task whose body was entered, and
  whether a callback threw. Nothing in the loop catches: an exception of the validator or of the body leaves
  \<open>poll\<close> at that point, with the record neither finished nor queued again.\<close>

definition poll_one_shot :: "SchedEnv \<Rightarrow> nat \<Rightarrow> nat \<Rightarrow> TaskRecord \<Rightarrow> TaskScheduler \<Rightarrow> TaskScheduler \<times> nat list \<times> bool" where
  "poll_one_shot x k i r s =
     (let (s, verdict) = validate x k r s
      in if verdict = VeThrow then (s, [], True)
         else if verdict = VeReject then (finish_task i s, [], False)
         else
           (let (ops, fin) = se_body x k (tr_body r) (tr_context r);
                s = sched_ops ops s
            in if fin = BeThrow then (s, [i], True) else (finish_task i s, [i], False)))"

definition poll_repeating :: "SchedEnv \<Rightarrow> nat \<Rightarrow> nat \<Rightarrow> TaskRecord \<Rightarrow> TaskScheduler \<Rightarrow> TaskScheduler \<times> nat list \<times> bool" where
  "poll_repeating x k i r s =
     (let (s, verdict) = validate x k r s
      in if verdict = VeThrow then (s, [], True)
         else if verdict = VeReject then
           (if is_canceled i s then (s, [], False)
            else (requeue x k (\<lambda>c. c\<lparr>rcx_validator_skip_count := rcx_validator_skip_count c + 1\<rparr>) i s, [], False))
         else
           (let (ops, fin) = se_body x k (tr_body r) (tr_context r);
                s = sched_ops ops s
            in if fin = BeThrow then (s, [i], True)
               else if fin = BeStop then (finish_task i s, [i], False)
               else if is_canceled i s then (s, [i], False)
               else (requeue x k (\<lambda>c. c\<lparr>rcx_run_count := rcx_run_count c + 1\<rparr>) i s, [i], False)))"

definition poll_entry :: "SchedEnv \<Rightarrow> nat \<Rightarrow> entry \<Rightarrow> TaskScheduler \<Rightarrow> TaskScheduler \<times> nat list \<times> bool" where
  "poll_entry x k e s =
     (case idx_find (sk_records s) (fst e) of
        None \<Rightarrow> (s, [], False)
      | Some r \<Rightarrow>
          if tr_canceled r \<or> snd e \<noteq> tr_generation r then (s, [], False)
          else if \<not> tr_repeating r then poll_one_shot x k (fst e) r s
          else poll_repeating x k (fst e) r s)"

fun poll_loop :: "SchedEnv \<Rightarrow> nat \<Rightarrow> entry list \<Rightarrow> TaskScheduler \<Rightarrow> TaskScheduler \<times> nat list \<times> bool" where
  "poll_loop x k [] s = (s, [], False)"
| "poll_loop x k (e # es) s =
     (let (s, done_ids, threw) = poll_entry x k e s
      in if threw then (s, done_ids, True)
         else (let (s, done_ids', threw) = poll_loop x (Suc k) es s in (s, done_ids @ done_ids', threw)))"

definition sched_poll :: "SchedEnv \<Rightarrow> int \<Rightarrow> nat \<Rightarrow> TaskScheduler \<Rightarrow> TaskScheduler \<times> nat list \<times> bool" where
  "sched_poll x now max_tasks s =
     (if sk_shutdown s then (s, [], False)
      else (let (s, batch) = collect_ready x now max_tasks s in poll_loop x 0 batch s))"

section \<open>Pending exactly once\<close>

text \<open>
  The invariant speaks of the records as a map, the live tasks, the next id and the multiset of queue entries,
  those collected by the running poll included. A task is live iff its record is not canceled; no entry is
  ahead of its record; and every live task outside \<open>X\<close>, the task whose callback is running, has exactly one
  current entry.
\<close>

definition sched_inv :: "nat set \<Rightarrow> (nat \<Rightarrow> TaskRecord option) \<Rightarrow> nat list \<Rightarrow> nat \<Rightarrow> entry multiset \<Rightarrow> bool" where
  "sched_inv X R T n E \<longleftrightarrow>
     distinct T \<and>
     (\<forall>i r. R i = Some r \<longrightarrow> i < n) \<and>
     (\<forall>i. i \<in> set T \<longleftrightarrow> (\<exists>r. R i = Some r \<and> \<not> tr_canceled r)) \<and>
     (\<forall>e \<in># E. \<exists>r. R (fst e) = Some r \<and> snd e \<le> tr_generation r) \<and>
     (\<forall>i r. R i = Some r \<and> \<not> tr_canceled r \<and> i \<notin> X \<longrightarrow> count E (i, tr_generation r) = 1)"

lemma sched_invI:
  assumes "distinct T" "\<And>i r. R i = Some r \<Longrightarrow> i < n"
    and "\<And>i. i \<in> set T \<longleftrightarrow> (\<exists>r. R i = Some r \<and> \<not> tr_canceled r)"
    and "\<And>i g. (i, g) \<in># E \<Longrightarrow> \<exists>r. R i = Some r \<and> g \<le> tr_generation r"
    and "\<And>i r. R i = Some r \<Longrightarrow> \<not> tr_canceled r \<Longrightarrow> i \<notin> X \<Longrightarrow> count E (i, tr_generation r) = 1"
  shows "sched_inv X R T n E"
  using assms unfolding sched_inv_def by (intro conjI allI impI ballI; fastforce)

lemma sched_invD:
  assumes "sched_inv X R T n E"
  shows "distinct T" "\<And>i r. R i = Some r \<Longrightarrow> i < n"
    and "\<And>i. i \<in> set T \<longleftrightarrow> (\<exists>r. R i = Some r \<and> \<not> tr_canceled r)"
    and "\<And>i g. (i, g) \<in># E \<Longrightarrow> \<exists>r. R i = Some r \<and> g \<le> tr_generation r"
    and "\<And>i r. R i = Some r \<Longrightarrow> \<not> tr_canceled r \<Longrightarrow> i \<notin> X \<Longrightarrow> count E (i, tr_generation r) = 1"
  using assms unfolding sched_inv_def by (blast, blast, blast, fastforce, blast)

lemma sched_inv_weaken: "sched_inv X R T n E \<Longrightarrow> X \<subseteq> Y \<Longrightarrow> sched_inv Y R T n E"
  unfolding sched_inv_def by blast

lemma sched_inv_add:
  assumes "sched_inv X R T n E" "\<not> tr_canceled r"
  shows "sched_inv X (R(n \<mapsto> r)) (T @ [n]) (Suc n) (add_mset (n, tr_generation r) E)"
proof (rule sched_invI)
  note D = sched_invD [OF assms(1)]
  have n: "R n = None" using D(2) [of n] by (cases "R n") auto
  then have "n \<notin> set T" using D(3) by simp
  then show "distinct (T @ [n])" using D(1) by simp
  have e: "count E (n, g) = 0" for g using D(4) [of n g] n by (intro not_in_iff [THEN iffD1]) auto
  show "i < Suc n" if "(R(n \<mapsto> r)) i = Some r'" for i r' using that D(2) by (auto simp: less_Suc_eq split: if_splits)
  show "i \<in> set (T @ [n]) \<longleftrightarrow> (\<exists>r'. (R(n \<mapsto> r)) i = Some r' \<and> \<not> tr_canceled r')" for i
    using D(3) [of i] assms(2) by auto
  show "\<exists>r'. (R(n \<mapsto> r)) i = Some r' \<and> g \<le> tr_generation r'" if "(i, g) \<in># add_mset (n, tr_generation r) E" for i g
    using that D(4) [of i g] n by (auto simp: fun_upd_def)
  show "count (add_mset (n, tr_generation r) E) (i, tr_generation r') = 1"
    if "(R(n \<mapsto> r)) i = Some r'" "\<not> tr_canceled r'" "i \<notin> X" for i r'
    using that D(5) e by (auto split: if_splits)
qed

lemma sched_inv_cancel:
  assumes "sched_inv X R T n E" "R i = Some r" "tr_canceled r'" "tr_generation r \<le> tr_generation r'"
  shows "sched_inv (X - {i}) (R(i \<mapsto> r')) (filter (\<lambda>j. j \<noteq> i) T) n E"
proof (rule sched_invI)
  note D = sched_invD [OF assms(1)]
  show "distinct (filter (\<lambda>j. j \<noteq> i) T)" using D(1) by simp
  show "j < n" if "(R(i \<mapsto> r')) j = Some q" for j q using that D(2) assms(2) by (auto split: if_splits)
  show "j \<in> set (filter (\<lambda>j. j \<noteq> i) T) \<longleftrightarrow> (\<exists>q. (R(i \<mapsto> r')) j = Some q \<and> \<not> tr_canceled q)" for j
    using D(3) [of j] assms(3) by auto
  show "\<exists>q. (R(i \<mapsto> r')) j = Some q \<and> g \<le> tr_generation q" if "(j, g) \<in># E" for j g
    using D(4) [OF that] assms(2,4) by auto
  show "count E (j, tr_generation q) = 1" if "(R(i \<mapsto> r')) j = Some q" "\<not> tr_canceled q" "j \<notin> X - {i}" for j q
    using that D(5) assms(3) by (auto split: if_splits)
qed

lemma sched_inv_bump:
  assumes "sched_inv X R T n E" "R i = Some r" "\<not> tr_canceled r" "\<not> tr_canceled r'"
    and "tr_generation r' = Suc (tr_generation r)"
  shows "sched_inv (X - {i}) (R(i \<mapsto> r')) T n (add_mset (i, tr_generation r') E)"
proof (rule sched_invI)
  note D = sched_invD [OF assms(1)]
  show "distinct T" by (rule D(1))
  have e: "count E (i, tr_generation r') = 0"
    using D(4) [of i "tr_generation r'"] assms(2,5) by (intro not_in_iff [THEN iffD1]) auto
  show "j < n" if "(R(i \<mapsto> r')) j = Some q" for j q using that D(2) assms(2) by (auto split: if_splits)
  show "j \<in> set T \<longleftrightarrow> (\<exists>q. (R(i \<mapsto> r')) j = Some q \<and> \<not> tr_canceled q)" for j
    using D(3) [of j] assms(2-4) by auto
  show "\<exists>q. (R(i \<mapsto> r')) j = Some q \<and> g \<le> tr_generation q" if "(j, g) \<in># add_mset (i, tr_generation r') E" for j g
    using that D(4) [of j g] assms(2,5) by auto
  show "count (add_mset (i, tr_generation r') E) (j, tr_generation q) = 1"
    if "(R(i \<mapsto> r')) j = Some q" "\<not> tr_canceled q" "j \<notin> X - {i}" for j q
    using that D(5) e by (auto split: if_splits)
qed

lemma sched_inv_drop:
  assumes "sched_inv X R T n (add_mset e E)"
  shows "sched_inv (insert (fst e) X) R T n E"
proof (rule sched_invI)
  note D = sched_invD [OF assms]
  show "\<exists>q. R j = Some q \<and> g \<le> tr_generation q" if "(j, g) \<in># E" for j g using D(4) [of j g] that by simp
  show "count E (j, tr_generation q) = 1" if "R j = Some q" "\<not> tr_canceled q" "j \<notin> insert (fst e) X" for j q
    using D(5) [of j q] that by (auto split: if_splits)
qed (use sched_invD [OF assms] in auto)

lemma sched_inv_drop_stale:
  assumes "sched_inv X R T n (add_mset e E)" "\<And>r. R (fst e) = Some r \<Longrightarrow> tr_canceled r \<or> snd e \<noteq> tr_generation r"
  shows "sched_inv X R T n E"
proof (rule sched_invI)
  note D = sched_invD [OF assms(1)]
  show "\<exists>q. R j = Some q \<and> g \<le> tr_generation q" if "(j, g) \<in># E" for j g using D(4) [of j g] that by simp
  show "count E (j, tr_generation q) = 1" if "R j = Some q" "\<not> tr_canceled q" "j \<notin> X" for j q
    using D(5) [of j q] that assms(2) by (auto split: if_splits)
qed (use sched_invD [OF assms(1)] in auto)

lemma sched_inv_drop_stales:
  assumes "sched_inv X R T n (mset es + E)"
    and "\<And>e r. e \<in> set es \<Longrightarrow> R (fst e) = Some r \<Longrightarrow> tr_canceled r \<or> snd e \<noteq> tr_generation r"
  shows "sched_inv X R T n E"
  using assms
proof (induction es)
  case (Cons e es)
  have "sched_inv X R T n (add_mset e (mset es + E))" using Cons.prems(1) by simp
  then have "sched_inv X R T n (mset es + E)"
    by (rule sched_inv_drop_stale) (use Cons.prems(2) [of e] in auto)
  with Cons.IH Cons.prems(2) show ?case by (meson list.set_intros(2))
qed simp

lemma sched_inv_dead:
  assumes "sched_inv {i} R T n E" "\<And>r. R i = Some r \<Longrightarrow> tr_canceled r"
  shows "sched_inv {} R T n E"
proof (rule sched_invI)
  show "count E (j, tr_generation r) = 1" if "R j = Some r" "\<not> tr_canceled r" for j r
    using sched_invD(5) [OF assms(1) that] assms(2) that by (cases "j = i") auto
qed (use sched_invD [OF assms(1)] in auto)

definition entries :: "entry list \<Rightarrow> TaskScheduler \<Rightarrow> entry multiset" where
  "entries batch s = mset batch + mset (sk_ready s) + mset (map snd (sk_delayed s))"

definition sched_ok :: "nat set \<Rightarrow> entry list \<Rightarrow> TaskScheduler \<Rightarrow> bool" where
  "sched_ok X batch s \<longleftrightarrow>
     sk_shutdown s \<or> sched_inv X (idx_find (sk_records s)) (sk_tasks s) (sk_next_task_id s) (entries batch s)"

lemma find_upd_record [simp]:
  "idx_find (sk_records (upd_record i f s)) =
     (case idx_find (sk_records s) i of None \<Rightarrow> idx_find (sk_records s) | Some r \<Rightarrow> (idx_find (sk_records s))(i \<mapsto> f r))"
  by (auto simp: upd_record_def fun_eq_iff split: option.splits)

lemma upd_record_rest [simp]:
  "sk_tasks (upd_record i f s) = sk_tasks s" "sk_ready (upd_record i f s) = sk_ready s"
  "sk_delayed (upd_record i f s) = sk_delayed s" "sk_shutdown (upd_record i f s) = sk_shutdown s"
  "sk_next_task_id (upd_record i f s) = sk_next_task_id s"
  by (simp_all add: upd_record_def)

lemma find_put_fun: "idx_find (idx_put i r m) = (idx_find m)(i \<mapsto> r)"
  by (auto simp: fun_eq_iff)

lemma add_task_ok:
  assumes "sched_ok X batch s" "\<not> tr_canceled r" "tr_generation r = 0" "\<not> sk_shutdown s"
  shows "sched_ok X batch ((add_task r s)\<lparr>sk_ready := sk_ready (add_task r s) @ [(sk_next_task_id s, 0)]\<rparr>)"
    and "sched_ok X batch ((add_task r s)\<lparr>sk_delayed := sk_delayed (add_task r s) @ [(due, sk_next_task_id s, 0)]\<rparr>)"
proof -
  have "sched_inv X (idx_find (sk_records s)) (sk_tasks s) (sk_next_task_id s) (entries batch s)"
    using assms(1,4) by (simp add: sched_ok_def)
  from sched_inv_add [OF this assms(2)]
  show "sched_ok X batch ((add_task r s)\<lparr>sk_ready := sk_ready (add_task r s) @ [(sk_next_task_id s, 0)]\<rparr>)"
    and "sched_ok X batch ((add_task r s)\<lparr>sk_delayed := sk_delayed (add_task r s) @ [(due, sk_next_task_id s, 0)]\<rparr>)"
    by (simp_all add: sched_ok_def entries_def add_task_def find_put_fun assms(3))
qed

lemma schedule_controlled_ok:
  assumes "sched_ok X batch s"
  shows "sched_ok X batch (fst (schedule_controlled now task delay grp validator s))"
  using assms by (cases "delay \<le> 0")
    (auto simp: schedule_controlled_def Let_def add_task_ok split: option.splits)

lemma schedule_every_ok:
  assumes "sched_ok X batch s"
  shows "sched_ok X batch (fst (schedule_every_controlled now draw task policy validator grp s))"
  using assms by (auto simp: schedule_every_controlled_def Let_def add_task_ok split: option.splits)

lemma cancel_ok:
  assumes "sched_ok X batch s"
  shows "sched_ok X batch (fst (cancel token s))"
proof (cases "token = 0 \<or> sk_shutdown s \<or> token \<notin> set (sk_tasks s)")
  case False
  then have i: "sched_inv X (idx_find (sk_records s)) (sk_tasks s) (sk_next_task_id s) (entries batch s)"
    using assms by (simp add: sched_ok_def)
  then obtain r where r: "idx_find (sk_records s) token = Some r" using False sched_invD(3) [OF i, of token] by auto
  have "sched_inv X ((idx_find (sk_records s))(token \<mapsto> r\<lparr>tr_canceled := True, tr_generation := tr_generation r + 1\<rparr>))
      (filter (\<lambda>j. j \<noteq> token) (sk_tasks s)) (sk_next_task_id s) (entries batch s)"
    by (rule sched_inv_weaken [OF sched_inv_cancel [OF i r]]) auto
  then show ?thesis using False r by (simp add: cancel_def mark_canceled_def sched_ok_def entries_def)
qed (use assms in \<open>auto simp: cancel_def\<close>)

lemma live_record_Some: "live_record i s = Some r \<Longrightarrow> idx_find (sk_records s) i = Some r \<and> \<not> tr_canceled r"
  by (auto simp: live_record_def split: if_splits option.splits)

lemma reschedule_ok:
  assumes "sched_ok X batch s"
  shows "sched_ok X batch (fst (reschedule now token delay s))"
proof (cases "token = 0 \<or> sk_shutdown s \<or> live_record token s = None")
  case False
  then obtain r where "live_record token s = Some r" by auto
  then have r: "idx_find (sk_records s) token = Some r" "\<not> tr_canceled r" "live_record token s = Some r"
    using live_record_Some by blast+
  have i: "sched_inv X (idx_find (sk_records s)) (sk_tasks s) (sk_next_task_id s) (entries batch s)"
    using assms False by (simp add: sched_ok_def)
  have b: "sched_inv X ((idx_find (sk_records s))(token \<mapsto> r')) (sk_tasks s) (sk_next_task_id s)
      (add_mset (token, Suc (tr_generation r)) (entries batch s))"
    if "\<not> tr_canceled r'" "tr_generation r' = Suc (tr_generation r)" for r'
    using sched_inv_weaken [OF sched_inv_bump [OF i r(1,2) that]] by (simp add: that(2))
  show ?thesis
    using False r b by (auto simp: reschedule_def sched_ok_def entries_def Let_def)
qed (use assms in \<open>auto simp: reschedule_def split: option.splits\<close>)

lemma update_repeat_policy_ok:
  assumes "sched_ok X batch s"
  shows "sched_ok X batch (fst (update_repeat_policy now draw token policy s))"
proof (cases "token = 0 \<or> \<not> is_valid_repeat_policy policy \<or> sk_shutdown s \<or> live_record token s = None")
  case False
  then obtain r where "live_record token s = Some r" by auto
  then have r: "idx_find (sk_records s) token = Some r" "\<not> tr_canceled r" "live_record token s = Some r"
    using live_record_Some by blast+
  have i: "sched_inv X (idx_find (sk_records s)) (sk_tasks s) (sk_next_task_id s) (entries batch s)"
    using assms False by (simp add: sched_ok_def)
  have b: "sched_inv X ((idx_find (sk_records s))(token \<mapsto> r')) (sk_tasks s) (sk_next_task_id s)
      (add_mset (token, Suc (tr_generation r)) (entries batch s))"
    if "\<not> tr_canceled r'" "tr_generation r' = Suc (tr_generation r)" for r'
    using sched_inv_weaken [OF sched_inv_bump [OF i r(1,2) that]] by (simp add: that(2))
  show ?thesis
    using False r b assms by (auto simp: update_repeat_policy_def sched_ok_def entries_def Let_def)
qed (use assms in \<open>auto simp: update_repeat_policy_def split: option.splits\<close>)

lemma mark_canceled_rest [simp]:
  "sk_tasks (mark_canceled i s) = sk_tasks s" "sk_ready (mark_canceled i s) = sk_ready s"
  "sk_delayed (mark_canceled i s) = sk_delayed s" "sk_shutdown (mark_canceled i s) = sk_shutdown s"
  "sk_next_task_id (mark_canceled i s) = sk_next_task_id s"
  by (simp_all add: mark_canceled_def)

lemma cancel_all_ok:
  assumes "sched_inv X (idx_find (sk_records s)) T n E" "set is \<subseteq> set T" "distinct is"
  shows "sched_inv X (idx_find (sk_records (foldl (\<lambda>s i. mark_canceled i s) s is))) (filter (\<lambda>i. i \<notin> set is) T) n E \<and>
    sk_shutdown (foldl (\<lambda>s i. mark_canceled i s) s is) = sk_shutdown s \<and>
    sk_next_task_id (foldl (\<lambda>s i. mark_canceled i s) s is) = sk_next_task_id s \<and>
    sk_ready (foldl (\<lambda>s i. mark_canceled i s) s is) = sk_ready s \<and>
    sk_delayed (foldl (\<lambda>s i. mark_canceled i s) s is) = sk_delayed s"
  using assms
proof (induction "is" arbitrary: s T)
  case (Cons i "is")
  obtain r where r: "idx_find (sk_records s) i = Some r" using Cons.prems(2) sched_invD(3) [OF Cons.prems(1), of i] by auto
  have "sched_inv X (idx_find (sk_records (mark_canceled i s))) (filter (\<lambda>j. j \<noteq> i) T) n E"
    by (rule sched_inv_weaken [where X = "X - {i}"])
      (use sched_inv_cancel [OF Cons.prems(1) r, of "r\<lparr>tr_canceled := True, tr_generation := tr_generation r + 1\<rparr>"] r
        in \<open>auto simp: mark_canceled_def\<close>)
  from Cons.IH [OF this] Cons.prems(2,3) show ?case
    by (auto simp: filter_filter conj_commute cong: filter_cong)
qed simp

lemma cancel_group_ok:
  assumes "sched_ok X batch s"
  shows "sched_ok X batch (fst (cancel_group grp s))"
proof (cases "grp = 0 \<or> sk_shutdown s")
  case False
  let ?hit = "filter (in_group grp s) (sk_tasks s)"
  have i: "sched_inv X (idx_find (sk_records s)) (sk_tasks s) (sk_next_task_id s) (entries batch s)"
    using assms False by (simp add: sched_ok_def)
  have "filter (\<lambda>i. i \<notin> set ?hit) (sk_tasks s) = filter (\<lambda>i. \<not> in_group grp s i) (sk_tasks s)"
    by (rule filter_cong) auto
  then show ?thesis
    using False cancel_all_ok [OF i, of ?hit] sched_invD(1) [OF i]
    by (auto simp: cancel_group_def Let_def sched_ok_def entries_def)
qed (use assms in \<open>auto simp: cancel_group_def\<close>)

lemma sched_op_ok: "sched_ok X batch s \<Longrightarrow> sched_ok X batch (sched_op op s)"
proof (cases op)
  case SoNewGroup
  assume "sched_ok X batch s"
  then show ?thesis using SoNewGroup by (simp add: create_cancel_group_def sched_ok_def entries_def)
next
  case SoShutdown
  then show ?thesis by (simp add: shutdown_def sched_ok_def)
qed (simp_all add: schedule_controlled_ok schedule_every_ok cancel_ok cancel_group_ok reschedule_ok update_repeat_policy_ok)

lemma sched_ops_ok: "sched_ok X batch s \<Longrightarrow> sched_ok X batch (sched_ops ops s)"
  unfolding sched_ops_def by (induction ops arbitrary: s) (simp_all add: sched_op_ok)

lemma finish_task_ok:
  assumes "sched_ok {i} batch s"
  shows "sched_ok {} batch (finish_task i s)"
proof (cases "sk_shutdown s")
  case False
  then have v: "sched_inv {i} (idx_find (sk_records s)) (sk_tasks s) (sk_next_task_id s) (entries batch s)"
    using assms by (simp add: sched_ok_def)
  show ?thesis
  proof (cases "idx_find (sk_records s) i")
    case None
    then have "i \<notin> set (sk_tasks s)" using sched_invD(3) [OF v, of i] by simp
    then have "filter (\<lambda>j. j \<noteq> i) (sk_tasks s) = sk_tasks s" by (auto intro: filter_True)
    moreover have "sched_inv {} (idx_find (sk_records s)) (sk_tasks s) (sk_next_task_id s) (entries batch s)"
      by (rule sched_inv_dead [OF v]) (simp add: None)
    ultimately show ?thesis using None False by (simp add: finish_task_def sched_ok_def entries_def)
  next
    case (Some r)
    then show ?thesis
      using sched_inv_cancel [OF v Some, of "r\<lparr>tr_canceled := True\<rparr>"] by (simp add: finish_task_def sched_ok_def entries_def)
  qed
qed (simp add: sched_ok_def finish_task_def)

lemma requeue_ok:
  assumes "sched_ok {i} batch s" "\<not> is_canceled i s"
  shows "sched_ok {} batch (requeue x k bump i s)"
proof (cases "sk_shutdown s")
  case False
  then have v: "sched_inv {i} (idx_find (sk_records s)) (sk_tasks s) (sk_next_task_id s) (entries batch s)"
    using assms by (simp add: sched_ok_def)
  show ?thesis
  proof (cases "idx_find (sk_records s) i")
    case None
    then show ?thesis using sched_inv_dead [OF v] by (simp add: requeue_def sched_ok_def)
  next
    case (Some r)
    then have c: "\<not> tr_canceled r" using assms(2) by (simp add: is_canceled_def)
    show ?thesis
      using sched_inv_bump [OF v Some c] Some c
      by (auto simp: requeue_def Let_def sched_ok_def entries_def find_put_fun)
  qed
next
  case True
  then show ?thesis by (auto simp: sched_ok_def requeue_def Let_def split: option.splits)
qed

lemma canceled_ok: "sched_ok {i} batch s \<Longrightarrow> is_canceled i s \<Longrightarrow> sched_ok {} batch s"
  unfolding sched_ok_def is_canceled_def by (auto intro: sched_inv_dead split: option.splits)

lemma validate_ok: "sched_ok X batch s \<Longrightarrow> sched_ok X batch (fst (validate x k r s))"
  by (auto simp: validate_def sched_ops_ok split: option.splits prod.splits)

lemma poll_one_shot_ok:
  assumes "sched_ok {i} batch s" "poll_one_shot x k i r s = (s', done_ids, False)"
  shows "sched_ok {} batch s'"
  using assms validate_ok [OF assms(1), of x k r]
  by (auto simp: poll_one_shot_def finish_task_ok sched_ops_ok Let_def split: prod.splits if_splits)

lemma poll_repeating_ok:
  assumes "sched_ok {i} batch s" "poll_repeating x k i r s = (s', done_ids, False)"
  shows "sched_ok {} batch s'"
  using assms validate_ok [OF assms(1), of x k r]
  by (auto simp: poll_repeating_def finish_task_ok sched_ops_ok requeue_ok Let_def
      intro: canceled_ok canceled_ok [OF sched_ops_ok] split: prod.splits if_splits)

lemma poll_entry_ok:
  assumes "sched_ok {} (e # batch) s" "poll_entry x k e s = (s', done_ids, False)"
  shows "sched_ok {} batch s'"
proof -
  have drop: "sched_ok {fst e} batch s"
    using assms(1) sched_inv_drop [of "{}" _ _ _ e] by (auto simp: sched_ok_def entries_def)
  show ?thesis
  proof (cases "idx_find (sk_records s) (fst e)")
    case None
    then show ?thesis
      using assms sched_inv_drop_stale [of "{}" "idx_find (sk_records s)" _ _ e]
      by (auto simp: poll_entry_def sched_ok_def entries_def)
  next
    case (Some r)
    show ?thesis
    proof (cases "tr_canceled r \<or> snd e \<noteq> tr_generation r")
      case True
      then have "s' = s" using assms(2) Some by (auto simp: poll_entry_def)
      then show ?thesis
        using assms(1) Some True sched_inv_drop_stale [of "{}" "idx_find (sk_records s)" _ _ e]
        by (auto simp: sched_ok_def entries_def)
    next
      case False
      then show ?thesis
        using assms(2) Some poll_one_shot_ok [OF drop] poll_repeating_ok [OF drop]
        by (auto simp: poll_entry_def split: if_splits)
    qed
  qed
qed

lemma poll_loop_ok:
  "sched_ok {} batch s \<Longrightarrow> poll_loop x k batch s = (s', done_ids, False) \<Longrightarrow> sched_ok {} [] s'"
proof (induction batch arbitrary: s k done_ids)
  case (Cons e batch)
  obtain s1 done_ids1 threw where 1: "poll_entry x k e s = (s1, done_ids1, threw)" by (metis prod_cases3)
  obtain s2 done_ids2 threw2 where 2: "poll_loop x (Suc k) batch s1 = (s2, done_ids2, threw2)" by (metis prod_cases3)
  have "\<not> threw" "\<not> threw2" "s2 = s'" using Cons.prems(2) 1 2 by (auto split: if_splits)
  then have "sched_ok {} batch s1" using poll_entry_ok [OF Cons.prems(1)] 1 by simp
  moreover have "poll_loop x (Suc k) batch s1 = (s', done_ids2, False)" using 2 \<open>\<not> threw2\<close> \<open>s2 = s'\<close> by simp
  ultimately show ?case by (rule Cons.IH)
qed simp

lemma collect_ready_ok:
  assumes "sched_ok {} [] s" "iteration_order (se_order x)" "collect_ready x now max_tasks s = (s', batch)"
  shows "sched_ok {} batch s'"
proof (cases "sk_shutdown s")
  case True
  then show ?thesis using assms(3) by (auto simp: sched_ok_def collect_ready_def Let_def)
next
  case False
  let ?due = "map snd (sort_key fst (se_order x (filter (\<lambda>d. fst d \<le> now) (sk_delayed s))))"
  let ?ready = "sk_ready s @ filter (current s) ?due"
  have s': "s' = s\<lparr>sk_delayed := filter (\<lambda>d. \<not> fst d \<le> now) (sk_delayed s), sk_ready := drop max_tasks ?ready\<rparr>"
    and batch: "batch = take max_tasks ?ready"
    using assms(3) by (simp_all add: collect_ready_def Let_def)
  have due: "mset ?due = image_mset snd (mset (filter (\<lambda>d. fst d \<le> now) (sk_delayed s)))"
    using assms(2) by (simp add: iteration_order_def)
  have "mset (take max_tasks ?ready) + mset (drop max_tasks ?ready) = mset ?ready"
    by (metis append_take_drop_id mset_append)
  then have "mset (filter (\<lambda>e. \<not> current s e) ?due) + entries batch s' =
      mset (filter (\<lambda>e. \<not> current s e) ?due) + mset ?ready +
        image_mset snd (mset (filter (\<lambda>d. \<not> fst d \<le> now) (sk_delayed s)))"
    unfolding entries_def s' batch by (simp add: ac_simps)
  also have "\<dots> = mset (sk_ready s) + mset ?due + image_mset snd (mset (filter (\<lambda>d. \<not> fst d \<le> now) (sk_delayed s)))"
    using multiset_partition [of "mset ?due" "current s"] by (simp add: ac_simps)
  also have "\<dots> = entries [] s"
    using multiset_partition [of "mset (sk_delayed s)" "\<lambda>d. fst d \<le> now"]
    unfolding due entries_def by (simp flip: image_mset_union)
  finally have e: "mset (filter (\<lambda>e. \<not> current s e) ?due) + entries batch s' = entries [] s" .
  have "sched_inv {} (idx_find (sk_records s)) (sk_tasks s) (sk_next_task_id s) (entries batch s')"
    by (rule sched_inv_drop_stales [of _ _ _ _ "filter (\<lambda>e. \<not> current s e) ?due"])
      (use assms(1) False e in \<open>auto simp: sched_ok_def current_def split: option.splits\<close>)
  then show ?thesis unfolding sched_ok_def s' by (simp add: s')
qed

section \<open>Runs\<close>

text \<open>A run is any sequence of calls from outside and polls; its log is the tasks whose bodies ran, and it notes
  whether a body or a validator threw out of a poll.\<close>

datatype SchedEvent = SvCall SchedOp | SvPoll SchedEnv int nat

fun sched_run :: "SchedEvent list \<Rightarrow> TaskScheduler \<Rightarrow> TaskScheduler \<times> nat list \<times> bool" where
  "sched_run [] s = (s, [], False)"
| "sched_run (SvCall op # evs) s = sched_run evs (sched_op op s)"
| "sched_run (SvPoll x now max_tasks # evs) s =
     (let (s, done_ids, threw) = sched_poll x now max_tasks s;
          (s, done_ids', threw') = sched_run evs s
      in (s, done_ids @ done_ids', threw \<or> threw'))"

fun orderly :: "SchedEvent \<Rightarrow> bool" where
  "orderly (SvCall _) = True"
| "orderly (SvPoll x _ _) = iteration_order (se_order x)"

lemma poll_ok:
  assumes "sched_ok {} [] s" "iteration_order (se_order x)" "sched_poll x now max_tasks s = (s', done_ids, False)"
  shows "sched_ok {} [] s'"
proof (cases "sk_shutdown s")
  case False
  obtain s1 batch where c: "collect_ready x now max_tasks s = (s1, batch)" by fastforce
  have "poll_loop x 0 batch s1 = (s', done_ids, False)" using assms(3) c False by (simp add: sched_poll_def)
  then show ?thesis using poll_loop_ok collect_ready_ok [OF assms(1,2) c] by blast
qed (use assms in \<open>simp add: sched_poll_def\<close>)

lemma sched_run_ok:
  "sched_ok {} [] s \<Longrightarrow> list_all orderly evs \<Longrightarrow> sched_run evs s = (s', done_ids, False) \<Longrightarrow> sched_ok {} [] s'"
proof (induction evs arbitrary: s done_ids)
  case (Cons ev evs)
  show ?case
  proof (cases ev)
    case (SvCall op)
    have "sched_ok {} [] (sched_op op s)" by (rule sched_op_ok [OF Cons.prems(1)])
    then show ?thesis using Cons.IH Cons.prems(2,3) SvCall by simp
  next
    case (SvPoll x now max_tasks)
    obtain s1 d1 t1 where 1: "sched_poll x now max_tasks s = (s1, d1, t1)" by (metis prod_cases3)
    obtain s2 d2 t2 where 2: "sched_run evs s1 = (s2, d2, t2)" by (metis prod_cases3)
    have "\<not> t1" "\<not> t2" "s2 = s'" using Cons.prems(3) 1 2 SvPoll by auto
    moreover have "sched_ok {} [] s1" using Cons.prems(2) 1 \<open>\<not> t1\<close> SvPoll by (intro poll_ok [OF Cons.prems(1), of x]) auto
    ultimately show ?thesis using Cons.IH Cons.prems(2) 2 by simp
  qed
qed simp

lemma new_scheduler_ok: "sched_ok {} [] new_task_scheduler"
  by (auto simp: sched_ok_def sched_inv_def new_task_scheduler_def entries_def idx_find_def)

lemma count_entries:
  "count (mset es) (i, tr_generation r) = length (filter (\<lambda>e. fst e = i \<and> current s e) es)"
  if "idx_find (sk_records s) i = Some r" "\<not> tr_canceled r"
proof -
  have "(\<lambda>e. fst e = i \<and> current s e) = (\<lambda>e. (i, tr_generation r) = e)" using that by (auto simp: current_def)
  then show ?thesis by (simp add: count_mset count_list_eq_length_filter)
qed

text \<open>C21.
  No task of the scheduler is lost or queued twice. After any run of calls and polls in which no body and no
  validator threw, as long as the scheduler has not been shut down, with bodies and validators that may themselves schedule, cancel, reschedule
  and change policies, every live task has exactly one current entry in the queues, and every current entry
  belongs to a live task.\<close>

theorem scheduled_exactly_once:
  assumes "list_all orderly evs" "sched_run evs new_task_scheduler = (s, done_ids, False)" "\<not> sk_shutdown s"
  shows "\<forall>i. (if i \<in> set (sk_tasks s) then length (filter (\<lambda>e. fst e = i \<and> current s e) (sk_ready s @ map snd (sk_delayed s))) = 1
    else \<not> list_ex (\<lambda>e. fst e = i \<and> current s e) (sk_ready s @ map snd (sk_delayed s)))"
proof
  fix i
  have v: "sched_inv {} (idx_find (sk_records s)) (sk_tasks s) (sk_next_task_id s) (entries [] s)"
    using sched_run_ok [OF new_scheduler_ok assms(1,2)] assms(3) by (simp add: sched_ok_def)
  have e: "entries [] s = mset (sk_ready s @ map snd (sk_delayed s))" by (simp add: entries_def)
  show "if i \<in> set (sk_tasks s) then length (filter (\<lambda>e. fst e = i \<and> current s e) (sk_ready s @ map snd (sk_delayed s))) = 1
    else \<not> list_ex (\<lambda>e. fst e = i \<and> current s e) (sk_ready s @ map snd (sk_delayed s))"
  proof (cases "i \<in> set (sk_tasks s)")
    case True
    then obtain r where r: "idx_find (sk_records s) i = Some r" "\<not> tr_canceled r" using sched_invD(3) [OF v] by auto
    show ?thesis
      using True sched_invD(5) [OF v r] count_entries [OF r, of "sk_ready s @ map snd (sk_delayed s)"] e by simp
  next
    case False
    then have "\<not> current s e" if "fst e = i" for e
      using sched_invD(3) [OF v, of i] that by (auto simp: current_def split: option.splits)
    then show ?thesis using False by (auto simp: list_ex_iff)
  qed
qed

section \<open>Cancelled for good\<close>

definition gone :: "nat \<Rightarrow> TaskScheduler \<Rightarrow> bool" where
  "gone i s \<longleftrightarrow> is_canceled i s \<and> i < sk_next_task_id s"

lemma gone_upd:
  "gone i s \<Longrightarrow> (\<And>r. tr_canceled r \<Longrightarrow> tr_canceled (f r)) \<Longrightarrow> gone i (upd_record j f s)"
  by (auto simp: gone_def is_canceled_def split: option.splits)

lemma gone_same [simp]:
  "gone i (s\<lparr>sk_ready := a\<rparr>) = gone i s" "gone i (s\<lparr>sk_delayed := b\<rparr>) = gone i s" "gone i (s\<lparr>sk_tasks := c\<rparr>) = gone i s"
  "gone i (s\<lparr>sk_shutdown := d\<rparr>) = gone i s" "gone i (s\<lparr>sk_next_group_id := n\<rparr>) = gone i s"
  by (simp_all add: gone_def is_canceled_def)

lemma gone_add: "gone i s \<Longrightarrow> gone i (add_task r s)"
  by (auto simp: gone_def is_canceled_def add_task_def)

lemma gone_mark: "gone i s \<Longrightarrow> gone i (mark_canceled j s)"
  by (simp add: mark_canceled_def gone_upd)

lemma gone_mark_all: "gone i s \<Longrightarrow> gone i (foldl (\<lambda>s j. mark_canceled j s) s js)"
  by (induction js arbitrary: s) (simp_all add: gone_mark)

lemma gone_op: "gone i s \<Longrightarrow> gone i (sched_op op s)"
  by (cases op)
    (auto simp: schedule_controlled_def schedule_every_controlled_def cancel_def cancel_group_def reschedule_def
      update_repeat_policy_def create_cancel_group_def shutdown_def Let_def gone_add gone_mark gone_mark_all
      split: option.splits intro!: gone_upd)

lemma gone_ops: "gone i s \<Longrightarrow> gone i (sched_ops ops s)"
  unfolding sched_ops_def by (induction ops arbitrary: s) (simp_all add: gone_op)

lemma gone_validate: "gone i s \<Longrightarrow> gone i (fst (validate x k r s))"
  by (auto simp: validate_def gone_ops split: option.splits prod.splits)

lemma gone_finish: "gone i s \<Longrightarrow> gone i (finish_task j s)"
  by (simp add: finish_task_def gone_upd)

lemma gone_requeue: "gone i s \<Longrightarrow> gone i (requeue x k bump j s)"
  by (auto simp: requeue_def Let_def gone_def is_canceled_def split: option.splits)

lemma gone_poll_entry:
  assumes "gone i s" "poll_entry x k e s = (s', done_ids, threw)"
  shows "gone i s' \<and> i \<notin> set done_ids"
proof -
  have "fst e \<noteq> i \<or> s' = s \<and> done_ids = []"
    using assms by (auto simp: poll_entry_def gone_def is_canceled_def split: option.splits)
  moreover have "gone i (fst (validate x k r s))" for r by (rule gone_validate [OF assms(1)])
  ultimately show ?thesis
    using assms
    by (auto simp: poll_entry_def poll_one_shot_def poll_repeating_def Let_def
        split: option.splits if_splits prod.splits) (metis fst_conv gone_ops gone_finish gone_requeue)+
qed

lemma gone_poll_loop:
  "gone i s \<Longrightarrow> poll_loop x k batch s = (s', done_ids, threw) \<Longrightarrow> gone i s' \<and> i \<notin> set done_ids"
proof (induction batch arbitrary: s s' k done_ids threw)
  case (Cons e batch)
  obtain s1 d1 t1 where 1: "poll_entry x k e s = (s1, d1, t1)" by (metis prod_cases3)
  obtain s2 d2 t2 where 2: "poll_loop x (Suc k) batch s1 = (s2, d2, t2)" by (metis prod_cases3)
  have g: "gone i s1 \<and> i \<notin> set d1" by (rule gone_poll_entry [OF Cons.prems(1) 1])
  then have "gone i s2 \<and> i \<notin> set d2" using Cons.IH 2 by blast
  with g 1 2 Cons.prems(2) show ?case by (auto split: if_splits)
qed simp

lemma gone_poll:
  assumes "gone i s" "sched_poll x now max_tasks s = (s', done_ids, threw)"
  shows "gone i s' \<and> i \<notin> set done_ids"
proof (cases "sk_shutdown s")
  case False
  obtain s1 batch where c: "collect_ready x now max_tasks s = (s1, batch)" by fastforce
  then have "gone i s1" using assms(1) by (auto simp: collect_ready_def Let_def gone_def is_canceled_def)
  moreover have "poll_loop x 0 batch s1 = (s', done_ids, threw)" using assms(2) c False by (simp add: sched_poll_def)
  ultimately show ?thesis by (rule gone_poll_loop)
qed (use assms in \<open>simp add: sched_poll_def\<close>)

lemma gone_run: "gone i s \<Longrightarrow> sched_run evs s = (s', done_ids, threw) \<Longrightarrow> i \<notin> set done_ids"
proof (induction evs arbitrary: s s' done_ids threw)
  case (Cons ev evs)
  show ?case
  proof (cases ev)
    case (SvCall op)
    have "gone i (sched_op op s)" by (rule gone_op [OF Cons.prems(1)])
    then show ?thesis using Cons.IH Cons.prems(2) SvCall by simp
  next
    case (SvPoll x now max_tasks)
    obtain s1 d1 t1 where 1: "sched_poll x now max_tasks s = (s1, d1, t1)" by (metis prod_cases3)
    obtain s2 d2 t2 where 2: "sched_run evs s1 = (s2, d2, t2)" by (metis prod_cases3)
    have "gone i s1 \<and> i \<notin> set d1" by (rule gone_poll [OF Cons.prems(1) 1])
    moreover from this have "i \<notin> set d2" using Cons.IH 2 by blast
    ultimately show ?thesis using Cons.prems(2) 1 2 SvPoll by auto
  qed
qed simp

text \<open>C22. Cancelling is final: once \<open>cancel\<close> has answered true for a task of a running scheduler, no later poll runs it,
  whatever is called in between, even when the task sits in the ready queue already or is rescheduled.\<close>

theorem cancelled_never_runs:
  assumes "list_all orderly evs" "sched_run evs new_task_scheduler = (s, done_ids, False)"
    and "cancel token s = (s', True)" "sched_run evs' s' = (s'', later, threw)"
  shows "token \<notin> set later"
proof -
  have t: "\<not> sk_shutdown s" "token \<in> set (sk_tasks s)" using assms(3) by (auto simp: cancel_def split: if_splits)
  have v: "sched_inv {} (idx_find (sk_records s)) (sk_tasks s) (sk_next_task_id s) (entries [] s)"
    using sched_run_ok [OF new_scheduler_ok assms(1,2)] t(1) by (simp add: sched_ok_def)
  obtain r where r: "idx_find (sk_records s) token = Some r" using sched_invD(3) [OF v] t(2) by auto
  then have "gone token s'"
    using assms(3) sched_invD(2) [OF v r] by (auto simp: cancel_def gone_def is_canceled_def mark_canceled_def split: if_splits)
  then show ?thesis using assms(4) by (rule gone_run)
qed

section \<open>A run\<close>

text \<open>Two tasks: task 1 runs every 10 units and on its second run cancels task 2; task 2 is due at 40.\<close>

definition sample_sched_env :: SchedEnv where
  "sample_sched_env =
     \<lparr>se_validate = (\<lambda>k v c. ([], VeAccept)),
      se_body = (\<lambda>k b c. (if b = 7 \<and> rcx_run_count c = 1 then [SoCancel 2] else [], BeContinue)),
      se_now = (\<lambda>k. 20), se_draw = (\<lambda>k cap. 0), se_order = (\<lambda>es. es)\<rparr>"

definition sample_sched_events :: "SchedEvent list" where
  "sample_sched_events =
     [SvCall (SoEvery 0 (\<lambda>cap. 0) (Some 7) \<lparr>rpt_interval = 10, rpt_max_interval = 0, rpt_backoff = None, rpt_jitter = 0\<rparr> None 0),
      SvCall (SoSchedule 0 (Some 8) 40 0 None),
      SvPoll sample_sched_env 10 5, SvPoll sample_sched_env 30 5, SvPoll sample_sched_env 50 5]"

definition sample_sched_end :: "TaskScheduler \<times> nat list \<times> bool" where
  "sample_sched_end = sched_run sample_sched_events new_task_scheduler"

lemma sample_orderly: "list_all orderly sample_sched_events"
  by (simp add: sample_sched_events_def sample_sched_env_def)

lemma sample_end:
  "snd sample_sched_end = ([1, 1, 1], False)" "sk_tasks (fst sample_sched_end) = [1]"
  "sk_shutdown (fst sample_sched_end) = False"
  by code_simp+

lemma sched_sample_run: "sched_run sample_sched_events new_task_scheduler = (fst sample_sched_end, [1, 1, 1], False)"
  using sample_end(1) by (metis sample_sched_end_def prod.collapse)

theorem scheduled_exactly_once_witness:
  "length (filter (\<lambda>e. fst e = 1 \<and> current (fst sample_sched_end) e)
     (sk_ready (fst sample_sched_end) @ map snd (sk_delayed (fst sample_sched_end)))) = 1 \<and>
   \<not> list_ex (\<lambda>e. fst e = 2 \<and> current (fst sample_sched_end) e)
     (sk_ready (fst sample_sched_end) @ map snd (sk_delayed (fst sample_sched_end)))"
  using scheduled_exactly_once [OF sample_orderly sched_sample_run, THEN spec, of 1]
    scheduled_exactly_once [OF sample_orderly sched_sample_run, THEN spec, of 2] sample_end(2,3) by simp

theorem cancelled_never_runs_witness:
  "snd (cancel 1 (fst sample_sched_end)) \<and>
   1 \<notin> set (fst (snd (sched_run [SvPoll sample_sched_env 90 5] (fst (cancel 1 (fst sample_sched_end))))))"
proof -
  have c: "snd (cancel 1 (fst sample_sched_end))" using sample_end by (simp add: cancel_def)
  show ?thesis
    using c cancelled_never_runs [OF sample_orderly sched_sample_run, of 1 "fst (cancel 1 (fst sample_sched_end))"
        "[SvPoll sample_sched_env 90 5]"]
    by (metis prod.collapse)
qed

text \<open>The restriction to callbacks that do not throw is needed. A body or a validator that throws ends the poll, and the entries
  the poll had collected after it are gone: here task 2 is still live but has no entry left, so nothing ever runs
  it, and \<open>sched_empty\<close> never becomes true.\<close>

lemma throwing_body_strands_batch:
  "let x = sample_sched_env\<lparr>se_body := (\<lambda>k b c. ([], if b = 7 then BeThrow else BeContinue))\<rparr>;
       s = sched_op (SoSchedule 0 (Some 8) 0 0 None) (sched_op (SoSchedule 0 (Some 7) 0 0 None) new_task_scheduler);
       (s, done_ids, threw) = sched_poll x 0 5 s
   in threw \<and> done_ids = [1] \<and> sk_tasks s = [1, 2] \<and> sk_ready s = [] \<and> sk_delayed s = []"
  by code_simp

lemma throwing_validator_strands_batch:
  "let x = sample_sched_env\<lparr>se_validate := (\<lambda>k v c. ([], VeThrow))\<rparr>;
       s = sched_op (SoSchedule 0 (Some 8) 0 0 None) (sched_op (SoSchedule 0 (Some 7) 0 0 (Some 3)) new_task_scheduler);
       (s, done_ids, threw) = sched_poll x 0 5 s
   in threw \<and> done_ids = [] \<and> sk_tasks s = [1, 2] \<and> sk_ready s = [] \<and> sk_delayed s = []"
  by code_simp

text \<open>A repeating task that reschedules itself from its own body is told that it worked, but the poll that runs it
  raises the generation once more and queues it after the interval of its policy: the entry is stale.\<close>

lemma reschedule_in_own_body_is_overridden:
  "let x = sample_sched_env\<lparr>se_body := (\<lambda>k b c. ([SoReschedule 20 1 500], BeContinue)), se_now := (\<lambda>k. 20)\<rparr>;
       policy = \<lparr>rpt_interval = 10, rpt_max_interval = 0, rpt_backoff = None, rpt_jitter = 0\<rparr>;
       s = sched_op (SoEvery 0 (\<lambda>cap. 0) (Some 7) policy None 0) new_task_scheduler;
       (s, done_ids, threw) = sched_poll x 20 5 s
   in filter (\<lambda>d. current s (snd d)) (sk_delayed s) = [(30, 1, 2)]"
  by code_simp

end
