(* ===== verification/Tcp_Session.thy ===== *)
theory Tcp_Session
  imports Opcode_Policy Job_Queue Text_Prelude
begin

text \<open>
  A TCP session of the server, \<open>core/src/net/session.cpp\<close>, with the dispatcher of
  \<open>core/src/net/dispatcher.cpp\<close> that its read loop feeds.

  Everything a session does runs on its strand, one handler at a time: \<open>ts_strand\<close> is the queue of handlers
  that are ready. Inside a handler \<open>asio::dispatch\<close> to the same strand runs at once, from another thread it
  queues. The outstanding read, the outstanding write and the timers that are armed are part of the state;
  their completions are events that queue the completion handler. A cancelled timer leaves no trace, since its
  handler returns at once when it is told so.

  The buffers come from the shared pool, of which the state has the number of free blocks; what the other
  sessions take and give back is an event. The handlers that are registered with the dispatcher are the
  environment: for a handler and a payload it says which operations of the session the handler calls and how it
  ends. \<open>ts_log\<close> records what happened, for the statements below. Logging and tracing are left out.
\<close>

section \<open>State\<close>

record SessionOptions =
  so_recv_max_payload :: nat
  so_send_queue_max :: nat
  so_heartbeat_interval_ms :: nat
  so_read_timeout_ms :: nat
  so_write_timeout_ms :: nat

record DispatchEntry =
  de_handler :: nat
  de_policy :: OpcodePolicy

datatype ReadOp = RdHeader | RdBody nat

text \<open>The job queue is shared with the other sessions and services; their jobs are \<open>JbOther\<close>.\<close>

datatype SessionJob = JbOwn nat bytes u16 nat | JbOther

datatype StrandTask =
    StSend bytes
  | StClose
  | StHeader bool bytes
  | StBody bool bytes
  | StWritten bool bytes
  | StReadTimeout
  | StWriteTimeout
  | StHeartbeat
  | StHandler nat bytes u16 nat

datatype SessionLog =
    LgQueued bytes
  | LgWritten bytes
  | LgReceived bytes
  | LgDispatched u16 bytes
  | LgAdmitted u16 SessionStatus
  | LgRan u16
  | LgClosed

record TcpSession =
  ts_options :: "SessionOptions option"
  ts_block_size :: nat
  ts_free_blocks :: nat
  ts_table :: "(u16, DispatchEntry) idx"
  ts_shared :: bool
  ts_jobs :: "SessionJob JobQueue option"
  ts_workers :: "SessionJob list"
  ts_session_status :: SessionStatus
  ts_tx_seq :: u32
  ts_header :: PacketHeader
  ts_read_buf :: bool
  ts_send_queue :: "bytes list"
  ts_queued_bytes :: nat
  ts_stopped :: bool
  ts_open :: bool
  ts_connection_count :: "nat option"
  ts_reading :: "ReadOp option"
  ts_writing :: "bytes option"
  ts_read_timer :: bool
  ts_write_timer :: bool
  ts_heartbeat_timer :: bool
  ts_strand :: "StrandTask list"
  ts_prepared :: "bytes list"
  ts_metrics :: ProcessMetrics
  ts_log :: "SessionLog list"

datatype HandlerOp =
    HoSend u16 bytes u16
  | HoSendError u16 string
  | HoSetStatus SessionStatus
  | HoStop

datatype HandlerEnd = HeReturns | HeThrowsStd | HeThrowsOther

record SessionEnv =
  sv_handler :: "nat \<Rightarrow> SessionStatus \<Rightarrow> bytes \<Rightarrow> HandlerOp list \<times> HandlerEnd"
  sv_now :: "u32 \<Rightarrow> u64"
  sv_elapsed :: int

definition logged :: "SessionLog \<Rightarrow> TcpSession \<Rightarrow> TcpSession" where
  "logged l s = s\<lparr>ts_log := ts_log s @ [l]\<rparr>"

definition on_session :: "(SessionCounters \<Rightarrow> SessionCounters) \<Rightarrow> TcpSession \<Rightarrow> TcpSession" where
  "on_session f s = s\<lparr>ts_metrics := (ts_metrics s)\<lparr>pm_session := f (pm_session (ts_metrics s))\<rparr>\<rparr>"

definition on_dispatch :: "(DispatchCounters \<Rightarrow> DispatchCounters) \<Rightarrow> TcpSession \<Rightarrow> TcpSession" where
  "on_dispatch f s = s\<lparr>ts_metrics := (ts_metrics s)\<lparr>pm_dispatch := f (pm_dispatch (ts_metrics s))\<rparr>\<rparr>"

definition on_telemetry :: "(TelemetryState \<Rightarrow> TelemetryState) \<Rightarrow> TcpSession \<Rightarrow> TcpSession" where
  "on_telemetry f s = s\<lparr>ts_metrics := (ts_metrics s)\<lparr>pm_telemetry := f (pm_telemetry (ts_metrics s))\<rparr>\<rparr>"

section \<open>Stopping and timers\<close>

text \<open>\<open>close_session\<close> is the handler that \<open>stop\<close> dispatches to the strand; \<open>session_stop\<close> is \<open>stop\<close> called from a
  handler of the strand, where the dispatch runs at once.\<close>

definition close_session :: "TcpSession \<Rightarrow> TcpSession" where
  "close_session s =
     (let s = s\<lparr>ts_open := False, ts_read_timer := False, ts_write_timer := False, ts_heartbeat_timer := False\<rparr>;
          s = s\<lparr>ts_connection_count := map_option (\<lambda>n. n - 1) (ts_connection_count s)\<rparr>
      in logged LgClosed (on_session record_session_stop s))"

definition session_stop :: "TcpSession \<Rightarrow> TcpSession" where
  "session_stop s = (if ts_stopped s then s else close_session (s\<lparr>ts_stopped := True\<rparr>))"

definition arm_read_timeout :: "TcpSession \<Rightarrow> TcpSession" where
  "arm_read_timeout s =
     (case ts_options s of
        None \<Rightarrow> s
      | Some opts \<Rightarrow> if so_read_timeout_ms opts = 0 then s else s\<lparr>ts_read_timer := True\<rparr>)"

definition arm_write_timeout :: "TcpSession \<Rightarrow> TcpSession" where
  "arm_write_timeout s =
     (case ts_options s of
        None \<Rightarrow> s
      | Some opts \<Rightarrow> if so_write_timeout_ms opts = 0 then s else s\<lparr>ts_write_timer := True\<rparr>)"

definition arm_heartbeat :: "TcpSession \<Rightarrow> TcpSession" where
  "arm_heartbeat s =
     (case ts_options s of
        None \<Rightarrow> s
      | Some opts \<Rightarrow> if so_heartbeat_interval_ms opts = 0 then s else s\<lparr>ts_heartbeat_timer := True\<rparr>)"

section \<open>Sending\<close>

definition exceeds_queue_budget :: "nat \<Rightarrow> nat \<Rightarrow> nat \<Rightarrow> bool" where
  "exceeds_queue_budget queue_max_bytes queued_bytes incoming_bytes =
     (if queue_max_bytes = 0 then False
      else if incoming_bytes > queue_max_bytes then True
      else queued_bytes > queue_max_bytes - incoming_bytes)"

definition do_write :: "TcpSession \<Rightarrow> TcpSession" where
  "do_write s =
     (case ts_send_queue s of
        [] \<Rightarrow> s\<lparr>ts_write_timer := False\<rparr>
      | front # _ \<Rightarrow> (arm_write_timeout s)\<lparr>ts_writing := Some front\<rparr>)"

text \<open>\<open>async_send\<close> of a finished packet, on the strand. A packet that is not queued goes out of scope, which
  returns its block to the pool.\<close>

definition send_packet :: "bytes \<Rightarrow> TcpSession \<Rightarrow> TcpSession" where
  "send_packet p s =
     (if ts_stopped s then s\<lparr>ts_free_blocks := ts_free_blocks s + 1\<rparr>
      else if (case ts_options s of
                 None \<Rightarrow> False
               | Some opts \<Rightarrow> exceeds_queue_budget (so_send_queue_max opts) (ts_queued_bytes s) (length p)) then
        (session_stop (on_session record_send_queue_drop s))\<lparr>ts_free_blocks := ts_free_blocks s + 1\<rparr>
      else
        (let kick_write = (ts_send_queue s = []);
             s = s\<lparr>ts_queued_bytes := ts_queued_bytes s + length p, ts_send_queue := ts_send_queue s @ [p]\<rparr>;
             s = logged (LgQueued p) s
         in if kick_write then do_write s else s))"

text \<open>\<open>make_packet\<close> with the \<open>tx_seq_++\<close> of its callers; the timestamp is the low half of the clock.\<close>

definition session_make_packet :: "SessionEnv \<Rightarrow> u16 \<Rightarrow> u16 \<Rightarrow> bytes \<Rightarrow> TcpSession \<Rightarrow> TcpSession \<times> bytes option" where
  "session_make_packet x msg_id flags payload s =
     (let seq = ts_tx_seq s;
          now32 = ucast (sv_now x seq);
          s = s\<lparr>ts_tx_seq := seq + 1\<rparr>;
          packet_size = k_header_bytes + length payload
      in if packet_size > ts_block_size s then (s, None)
         else if ts_free_blocks s = 0 then (s, None)
         else
           (s\<lparr>ts_free_blocks := ts_free_blocks s - 1\<rparr>,
            Some (encode_header \<lparr>ph_length = word_of_nat (length payload), ph_msg_id = msg_id, ph_flags = flags,
                    ph_seq = seq, ph_utc_ts_ms32 = now32\<rparr> @ payload)))"

definition session_async_send :: "SessionEnv \<Rightarrow> u16 \<Rightarrow> bytes \<Rightarrow> u16 \<Rightarrow> TcpSession \<Rightarrow> TcpSession" where
  "session_async_send x msg_id payload flags s =
     (case session_make_packet x msg_id flags payload s of
        (s, None) \<Rightarrow> s
      | (s, Some p) \<Rightarrow> send_packet p s)"

definition hello_payload :: "u64 \<Rightarrow> TcpSession \<Rightarrow> bytes" where
  "hello_payload now s =
     write_be16 1 @ write_be16 1 @ write_be16 (0x0001 OR 0x0002) @
     write_be16 (case ts_options s of None \<Rightarrow> 0 | Some opts \<Rightarrow> word_of_nat (so_heartbeat_interval_ms opts div 10)) @
     write_be32 (ucast (drop_bit 32 now))"

definition error_payload :: "u16 \<Rightarrow> string \<Rightarrow> bytes" where
  "error_payload code msg =
     (let len = min (length msg) 400
      in write_be16 code @ write_be16 (word_of_nat len) @ take len (octets_of msg))"

definition send_error :: "SessionEnv \<Rightarrow> u16 \<Rightarrow> string \<Rightarrow> TcpSession \<Rightarrow> TcpSession" where
  "send_error x code msg s = session_async_send x 0x0004 (error_payload code msg) 0 s"

section \<open>Dispatching\<close>

definition register_handler :: "u16 \<Rightarrow> nat \<Rightarrow> OpcodePolicy \<Rightarrow> (u16, DispatchEntry) idx \<Rightarrow> (u16, DispatchEntry) idx" where
  "register_handler msg_id handler policy table = idx_put msg_id \<lparr>de_handler = handler, de_policy = policy\<rparr> table"

fun satisfies_required_state :: "SessionStatus \<Rightarrow> SessionStatus \<Rightarrow> bool" where
  "satisfies_required_state StAny now = True"
| "satisfies_required_state StAuthenticated now = (now = StAuthenticated \<or> now = StInRoom \<or> now = StAdmin)"
| "satisfies_required_state StInRoom now = (now = StInRoom \<or> now = StAdmin)"
| "satisfies_required_state StAdmin now = (now = StAdmin)"

fun processing_place_index :: "ProcessingPlace \<Rightarrow> nat" where
  "processing_place_index PpInline = 0"
| "processing_place_index PpWorker = 1"
| "processing_place_index PpRoomStrand = 2"

fun handler_op :: "SessionEnv \<Rightarrow> HandlerOp \<Rightarrow> TcpSession \<Rightarrow> TcpSession" where
  "handler_op x (HoSend msg_id payload flags) s = session_async_send x msg_id payload flags s"
| "handler_op x (HoSendError code msg) s = send_error x code msg s"
| "handler_op x (HoSetStatus status) s = s\<lparr>ts_session_status := status\<rparr>"
| "handler_op x HoStop s = session_stop s"

definition run_handler_with_guard :: "SessionEnv \<Rightarrow> nat \<Rightarrow> bytes \<Rightarrow> u16 \<Rightarrow> nat \<Rightarrow> TcpSession \<Rightarrow> TcpSession" where
  "run_handler_with_guard x handler payload msg_id place_index s =
     (let s = logged (LgRan msg_id) s;
          (ops, fin) = sv_handler x handler (ts_session_status s) payload;
          s = foldl (\<lambda>s op. handler_op x op s) s ops
      in if fin = HeReturns then s
         else
           (let s = on_dispatch record_dispatch_exception s;
                s = on_dispatch (record_dispatch_processing_place_exception place_index) s;
                s = on_telemetry (if fin = HeThrowsStd then record_exception_recoverable else record_exception_ignored) s
            in send_error x INTERNAL_ERROR ''internal error'' s))"

definition place_reject :: "SessionEnv \<Rightarrow> nat \<Rightarrow> string \<Rightarrow> TcpSession \<Rightarrow> TcpSession" where
  "place_reject x place_index msg s =
     send_error x SERVER_BUSY msg (on_dispatch (record_dispatch_processing_place_reject place_index) s)"

text \<open>\<open>shared_from_this\<close> fails when no shared pointer owns the session; then \<open>post_serialized\<close> fails as well.\<close>

definition post_serialized :: "StrandTask \<Rightarrow> TcpSession \<Rightarrow> TcpSession" where
  "post_serialized task s = s\<lparr>ts_strand := ts_strand s @ [task]\<rparr>"

definition dispatch :: "SessionEnv \<Rightarrow> u16 \<Rightarrow> bytes \<Rightarrow> TransportKind \<Rightarrow> TcpSession \<Rightarrow> TcpSession \<times> bool" where
  "dispatch x msg_id payload transport s =
     (case idx_find (ts_table s) msg_id of
        None \<Rightarrow> (s, False)
      | Some e \<Rightarrow>
          if \<not> transport_allows (op_transport (de_policy e)) transport then
            (send_error x FORBIDDEN ''forbidden'' s, True)
          else if \<not> satisfies_required_state (op_required_state (de_policy e)) (ts_session_status s) then
            (send_error x FORBIDDEN ''forbidden'' s, True)
          else
            (let place = op_processing_place (de_policy e);
                 place_index = processing_place_index place;
                 s = on_dispatch (record_dispatch_processing_place_call place_index) s;
                 admit = logged (LgAdmitted msg_id (ts_session_status s))
             in case place of
                  PpInline \<Rightarrow> (run_handler_with_guard x (de_handler e) payload msg_id place_index (admit s), True)
                | PpRoomStrand \<Rightarrow>
                    if \<not> ts_shared s then
                      (place_reject x place_index ''dispatch context unavailable'' (on_telemetry record_exception_ignored s), True)
                    else (post_serialized (StHandler (de_handler e) payload msg_id place_index) (admit s), True)
                | PpWorker \<Rightarrow>
                    if \<not> ts_shared s then
                      (place_reject x place_index ''dispatch context unavailable'' (on_telemetry record_exception_ignored s), True)
                    else
                      (case ts_jobs s of
                         None \<Rightarrow> (place_reject x place_index ''worker queue unavailable'' s, True)
                       | Some q \<Rightarrow>
                           (case jq_try_push (JbOwn (de_handler e) payload msg_id place_index) q (pm_jobs (ts_metrics s)) of
                              (q, c, queued) \<Rightarrow>
                                (let s = s\<lparr>ts_jobs := Some q, ts_metrics := (ts_metrics s)\<lparr>pm_jobs := c\<rparr>\<rparr>
                                 in if queued then (admit s, True)
                                    else (place_reject x place_index ''worker queue full'' s, True))))))"

section \<open>Reading\<close>

text \<open>\<open>read_buf_ = Acquire()\<close>: the new block is taken before the old one is given back.\<close>

definition acquire_read_buf :: "TcpSession \<Rightarrow> TcpSession" where
  "acquire_read_buf s =
     (let got = ts_free_blocks s > 0;
          free = (if got then ts_free_blocks s - 1 else 0);
          free = (if ts_read_buf s then free + 1 else free)
      in s\<lparr>ts_free_blocks := free, ts_read_buf := got\<rparr>)"

definition read_failed :: "TcpSession \<Rightarrow> TcpSession" where
  "read_failed s = session_stop (on_session record_packet_error s)"

definition do_read_header :: "TcpSession \<Rightarrow> TcpSession" where
  "do_read_header s =
     (let s = acquire_read_buf s
      in if \<not> ts_read_buf s then read_failed s else s\<lparr>ts_reading := Some RdHeader\<rparr>)"

text \<open>The part that the two branches of \<open>do_read_body\<close> share once the whole frame is there.\<close>

definition frame_complete :: "SessionEnv \<Rightarrow> bytes \<Rightarrow> TcpSession \<Rightarrow> TcpSession" where
  "frame_complete x payload s =
     (let h = ts_header s;
          s = on_session (record_packet_payload (length payload)) s;
          s = on_session record_packet_ok s;
          s = logged (LgDispatched (ph_msg_id h) payload) s;
          (s, handled) = dispatch x (ph_msg_id h) payload TkTcp s;
          s = on_dispatch (record_dispatch_opcode (ph_msg_id h)) s;
          s = s\<lparr>ts_metrics := record_dispatch_attempt handled (sv_elapsed x) (ts_metrics s)\<rparr>;
          s = (if \<not> handled then send_error x UNKNOWN_MSG_ID ''unknown msg'' s else s)
      in do_read_header s)"

definition do_read_body :: "SessionEnv \<Rightarrow> nat \<Rightarrow> TcpSession \<Rightarrow> TcpSession" where
  "do_read_body x body_len s =
     (if body_len = 0 then frame_complete x [] s
      else if body_len > ts_block_size s then read_failed s
      else
        (let s = acquire_read_buf s
         in if \<not> ts_read_buf s then read_failed s else s\<lparr>ts_reading := Some (RdBody body_len)\<rparr>))"

definition header_read :: "SessionEnv \<Rightarrow> bool \<Rightarrow> bytes \<Rightarrow> TcpSession \<Rightarrow> TcpSession" where
  "header_read x ok data s =
     (if \<not> ok then read_failed s
      else if length data \<noteq> k_header_bytes then read_failed s
      else
        (let s = s\<lparr>ts_header := decode_header data\<rparr>;
             len = unat (ph_length (ts_header s))
         in if (case ts_options s of
                  None \<Rightarrow> False
                | Some opts \<Rightarrow> so_recv_max_payload opts > 0 \<and> len > so_recv_max_payload opts) then
              session_stop (send_error x LENGTH_LIMIT_EXCEEDED ''payload too large'' (on_session record_packet_error s))
            else do_read_body x len (arm_read_timeout s)))"

definition body_read :: "SessionEnv \<Rightarrow> bool \<Rightarrow> bytes \<Rightarrow> TcpSession \<Rightarrow> TcpSession" where
  "body_read x ok data s =
     (if \<not> ok then read_failed s
      else if length data \<noteq> unat (ph_length (ts_header s)) then read_failed s
      else frame_complete x data (arm_read_timeout s))"

definition write_done :: "bool \<Rightarrow> bytes \<Rightarrow> TcpSession \<Rightarrow> TcpSession" where
  "write_done ok packet s =
     (if \<not> ok then session_stop s
      else
        (let s = s\<lparr>ts_write_timer := False\<rparr>;
             s = s\<lparr>ts_queued_bytes := (if ts_queued_bytes s \<ge> length packet then ts_queued_bytes s - length packet else 0)\<rparr>;
             s = s\<lparr>ts_send_queue := tl (ts_send_queue s), ts_free_blocks := ts_free_blocks s + 1\<rparr>
         in do_write (logged (LgWritten packet) s)))"

section \<open>The strand\<close>

definition read_timeout :: "TcpSession \<Rightarrow> TcpSession" where
  "read_timeout s =
     (if ts_stopped s then s
      else
        (let s = on_session record_session_timeout s;
             s = (case ts_options s of
                    Some opts \<Rightarrow> if so_heartbeat_interval_ms opts > 0 then on_session record_heartbeat_timeout s else s
                  | None \<Rightarrow> s)
         in session_stop s))"

definition write_timeout :: "TcpSession \<Rightarrow> TcpSession" where
  "write_timeout s =
     (if ts_stopped s then s else session_stop (on_session record_session_write_timeout s))"

definition heartbeat :: "SessionEnv \<Rightarrow> TcpSession \<Rightarrow> TcpSession" where
  "heartbeat x s = (if ts_stopped s then s else arm_heartbeat (session_async_send x 0x0002 [] 0 s))"

fun run_task :: "SessionEnv \<Rightarrow> StrandTask \<Rightarrow> TcpSession \<Rightarrow> TcpSession" where
  "run_task x (StSend p) s = send_packet p s"
| "run_task x StClose s = close_session s"
| "run_task x (StHeader ok data) s = header_read x ok data s"
| "run_task x (StBody ok data) s = body_read x ok data s"
| "run_task x (StWritten ok p) s = write_done ok p s"
| "run_task x StReadTimeout s = read_timeout s"
| "run_task x StWriteTimeout s = write_timeout s"
| "run_task x StHeartbeat s = heartbeat x s"
| "run_task x (StHandler handler payload msg_id place_index) s =
     (if ts_stopped s then s else run_handler_with_guard x handler payload msg_id place_index s)"

text \<open>\<open>start\<close> runs before the session is shared with any other thread; its packet is queued on the strand.\<close>

definition session_start :: "SessionEnv \<Rightarrow> TcpSession \<Rightarrow> TcpSession" where
  "session_start x s =
     (let (s, p) = session_make_packet x 0x0001 0 (hello_payload (sv_now x (ts_tx_seq s)) s) s;
          s = (case p of None \<Rightarrow> s | Some p \<Rightarrow> post_serialized (StSend p) s)
      in arm_heartbeat (arm_read_timeout (do_read_header s)))"

text \<open>The constructor counts the connection and the session.\<close>

definition new_tcp_session ::
  "SessionOptions option \<Rightarrow> nat \<Rightarrow> nat \<Rightarrow> (u16, DispatchEntry) idx \<Rightarrow> bool \<Rightarrow> SessionJob JobQueue option \<Rightarrow> nat option \<Rightarrow>
   ProcessMetrics \<Rightarrow> TcpSession"
where
  "new_tcp_session opts block_size free_blocks table shared jobs connection_count metrics = on_session record_session_start
     \<lparr>ts_options = opts, ts_block_size = block_size, ts_free_blocks = free_blocks, ts_table = table, ts_shared = shared,
      ts_jobs = jobs, ts_workers = [], ts_session_status = StAny, ts_tx_seq = 1, ts_header = decode_header (replicate 14 0),
      ts_read_buf = False, ts_send_queue = [], ts_queued_bytes = 0, ts_stopped = False, ts_open = True,
      ts_connection_count = map_option Suc connection_count, ts_reading = None, ts_writing = None,
      ts_read_timer = False, ts_write_timer = False, ts_heartbeat_timer = False, ts_strand = [], ts_prepared = [],
      ts_metrics = metrics, ts_log = []\<rparr>"

text \<open>
  Events. \<open>SnSend\<close> is \<open>async_send\<close> on another thread up to its dispatch, which is \<open>SnPost\<close>: other threads may come
  in between. \<open>SnRead\<close> and \<open>SnWritten\<close> complete the outstanding operation, successfully only while the socket is
  open; \<open>SnWorkerTakes\<close> is a worker thread that takes the next job off the job queue, \<open>SnWorkerPosts\<close>
  that worker when it runs the job, which posts the handler to the strand. An event that cannot happen is None.
\<close>

datatype SessionEvent =
    SnRun SessionEnv
  | SnSend SessionEnv u16 bytes u16
  | SnPost nat
  | SnStop
  | SnStatus SessionStatus
  | SnRead bool bytes
  | SnWritten bool
  | SnReadTimer
  | SnWriteTimer
  | SnHeartbeatTimer
  | SnOtherJob
  | SnWorkerTakes
  | SnWorkerPosts nat
  | SnPool nat

fun read_length :: "ReadOp \<Rightarrow> nat" where
  "read_length RdHeader = k_header_bytes"
| "read_length (RdBody n) = n"

fun read_task :: "ReadOp \<Rightarrow> bool \<Rightarrow> bytes \<Rightarrow> StrandTask" where
  "read_task RdHeader ok data = StHeader ok data"
| "read_task (RdBody n) ok data = StBody ok data"

fun session_step :: "SessionEvent \<Rightarrow> TcpSession \<Rightarrow> TcpSession option" where
  "session_step (SnRun x) s =
     (case ts_strand s of [] \<Rightarrow> None | task # tasks \<Rightarrow> Some (run_task x task (s\<lparr>ts_strand := tasks\<rparr>)))"
| "session_step (SnSend x msg_id payload flags) s =
     (case session_make_packet x msg_id flags payload s of
        (s, None) \<Rightarrow> Some s
      | (s, Some p) \<Rightarrow> Some (s\<lparr>ts_prepared := ts_prepared s @ [p]\<rparr>))"
| "session_step (SnPost k) s =
     (if k < length (ts_prepared s)
      then Some (s\<lparr>ts_prepared := take k (ts_prepared s) @ drop (Suc k) (ts_prepared s),
                   ts_strand := ts_strand s @ [StSend (ts_prepared s ! k)]\<rparr>)
      else None)"
| "session_step SnStop s =
     Some (if ts_stopped s then s else s\<lparr>ts_stopped := True, ts_strand := ts_strand s @ [StClose]\<rparr>)"
| "session_step (SnStatus status) s = Some (s\<lparr>ts_session_status := status\<rparr>)"
| "session_step (SnRead ok data) s =
     (case ts_reading s of
        None \<Rightarrow> None
      | Some r \<Rightarrow>
          if ok \<and> (\<not> ts_open s \<or> length data \<noteq> read_length r) then None
          else Some ((if ok then logged (LgReceived data) else id)
                 (s\<lparr>ts_reading := None, ts_strand := ts_strand s @ [read_task r ok data]\<rparr>)))"
| "session_step (SnWritten ok) s =
     (case ts_writing s of
        None \<Rightarrow> None
      | Some p \<Rightarrow> if ok \<and> \<not> ts_open s then None
                  else Some (s\<lparr>ts_writing := None, ts_strand := ts_strand s @ [StWritten ok p]\<rparr>))"
| "session_step SnReadTimer s =
     (if ts_read_timer s then Some (s\<lparr>ts_read_timer := False, ts_strand := ts_strand s @ [StReadTimeout]\<rparr>) else None)"
| "session_step SnWriteTimer s =
     (if ts_write_timer s then Some (s\<lparr>ts_write_timer := False, ts_strand := ts_strand s @ [StWriteTimeout]\<rparr>) else None)"
| "session_step SnHeartbeatTimer s =
     (if ts_heartbeat_timer s then Some (s\<lparr>ts_heartbeat_timer := False, ts_strand := ts_strand s @ [StHeartbeat]\<rparr>) else None)"
| "session_step SnOtherJob s =
     (case ts_jobs s of
        None \<Rightarrow> None
      | Some q \<Rightarrow>
          (case jq_try_push JbOther q (pm_jobs (ts_metrics s)) of
             (q, c, queued) \<Rightarrow> Some (s\<lparr>ts_jobs := Some q, ts_metrics := (ts_metrics s)\<lparr>pm_jobs := c\<rparr>\<rparr>)))"
| "session_step SnWorkerTakes s =
     (case ts_jobs s of
        None \<Rightarrow> None
      | Some q \<Rightarrow>
          (case jq_pop q (pm_jobs (ts_metrics s)) of
             (q, c, PoJob job) \<Rightarrow> Some (s\<lparr>ts_jobs := Some q, ts_metrics := (ts_metrics s)\<lparr>pm_jobs := c\<rparr>,
                                          ts_workers := ts_workers s @ [job]\<rparr>)
           | _ \<Rightarrow> None))"
| "session_step (SnWorkerPosts k) s =
     (if k < length (ts_workers s)
      then
        (let job = ts_workers s ! k; s = s\<lparr>ts_workers := take k (ts_workers s) @ drop (Suc k) (ts_workers s)\<rparr>
         in Some (case job of
                    JbOwn handler payload msg_id place_index \<Rightarrow>
                      post_serialized (StHandler handler payload msg_id place_index) s
                  | JbOther \<Rightarrow> s))
      else None)"
| "session_step (SnPool free_blocks) s = Some (s\<lparr>ts_free_blocks := free_blocks\<rparr>)"

fun session_run :: "SessionEvent list \<Rightarrow> TcpSession \<Rightarrow> TcpSession option" where
  "session_run [] s = Some s"
| "session_run (e # es) s = (case session_step e s of None \<Rightarrow> None | Some s \<Rightarrow> session_run es s)"

end
