(* ===== verification/Frame_Stream.thy ===== *)
theory Frame_Stream
  imports Packet_Codec
begin

text \<open>
  The byte stream of a TCP connection as a sequence of frames: a header of \<open>packet.hpp\<close>, then as many bytes as it
  announces. Everything that reads such a stream, the sessions of the server and the frame inspector of the
  gateway, is measured against the cut that \<open>split_frames\<close> makes.
\<close>

definition framed :: "bytes \<Rightarrow> bool" where
  "framed p \<longleftrightarrow> length p = k_header_bytes + unat (ph_length (decode_header p))"

definition frame_of :: "bytes \<Rightarrow> u16 \<times> bytes" where
  "frame_of p = (ph_msg_id (decode_header p), drop k_header_bytes p)"

text \<open>How the peer cuts the byte stream: a header, then as many bytes as it announces. What is left over is
  the start of a frame that is not complete.\<close>

function split_frames :: "bytes \<Rightarrow> bytes list \<times> bytes" where
  "split_frames bs =
     (if length bs < k_header_bytes then ([], bs)
      else
        (let n = k_header_bytes + unat (ph_length (decode_header bs))
         in if length bs < n then ([], bs)
            else (let (frames, rest) = split_frames (drop n bs) in (take n bs # frames, rest))))"
  by pat_completeness auto
termination by (relation "measure length") (auto simp: k_header_bytes_def)

declare split_frames.simps [simp del]

lemma decode_header_append: "k_header_bytes \<le> length p \<Longrightarrow> decode_header (p @ rest) = decode_header p"
proof -
  assume "k_header_bytes \<le> length p"
  then have "p = encode_header (decode_header p) @ drop k_header_bytes p"
    using encode_decode_header [of p] by (metis append_take_drop_id)
  then show ?thesis by (metis append_assoc decode_encode_header)
qed

lemma split_frames_framed:
  "framed p \<Longrightarrow> split_frames (p @ rest) = (p # fst (split_frames rest), snd (split_frames rest))"
  by (subst split_frames.simps) (auto simp: framed_def decode_header_append Let_def split: prod.splits)

lemma split_frames_concat:
  "list_all framed ps \<Longrightarrow> split_frames (concat ps @ rest) = (ps @ fst (split_frames rest), snd (split_frames rest))"
  by (induction ps) (simp_all add: split_frames_framed)

lemma split_frames_short: "length bs < k_header_bytes \<Longrightarrow> split_frames bs = ([], bs)"
  by (simp add: split_frames.simps [of bs])

lemma split_frames_more:
  "k_header_bytes + unat (ph_length (decode_header bs)) \<le> length bs \<Longrightarrow>
   split_frames bs = (let n = k_header_bytes + unat (ph_length (decode_header bs))
     in (take n bs # fst (split_frames (drop n bs)), snd (split_frames (drop n bs))))"
  by (subst split_frames.simps) (simp add: Let_def split_beta)

lemma split_frames_none:
  "length bs < k_header_bytes + unat (ph_length (decode_header bs)) \<Longrightarrow> split_frames bs = ([], bs)"
  by (subst split_frames.simps) (simp add: Let_def)

lemma split_frames_cases [case_names more none]:
  assumes "\<And>p rest. bs = p @ rest \<Longrightarrow> framed p \<Longrightarrow> split_frames bs = (p # fst (split_frames rest), snd (split_frames rest)) \<Longrightarrow> P"
    and "length bs < k_header_bytes + unat (ph_length (decode_header bs)) \<Longrightarrow> split_frames bs = ([], bs) \<Longrightarrow> P"
  shows P
proof (cases "length bs < k_header_bytes + unat (ph_length (decode_header bs))")
  case True
  then show ?thesis using assms(2) split_frames_none by blast
next
  case False
  let ?n = "k_header_bytes + unat (ph_length (decode_header bs))"
  have "framed (take ?n bs)"
    using False decode_header_append [of "take ?n bs" "drop ?n bs"] by (simp add: framed_def)
  then show ?thesis
    using assms(1) [of "take ?n bs" "drop ?n bs"] False by (simp add: split_frames_more Let_def)
qed

lemma framed_nonempty: "framed p \<Longrightarrow> p \<noteq> []"
  by (auto simp: framed_def k_header_bytes_def)

lemma split_frames_framed_all: "list_all framed (fst (split_frames bs))"
proof (induction "length bs" arbitrary: bs rule: less_induct)
  case less
  then show ?case by (cases bs rule: split_frames_cases) (auto dest: framed_nonempty)
qed

lemma split_frames_joins: "concat (fst (split_frames bs)) @ snd (split_frames bs) = bs"
proof (induction "length bs" arbitrary: bs rule: less_induct)
  case less
  then show ?case by (cases bs rule: split_frames_cases) (auto dest: framed_nonempty)
qed

lemma split_frames_rest:
  "split_frames (snd (split_frames bs)) = ([], snd (split_frames bs)) \<and>
   length (snd (split_frames bs)) < k_header_bytes + unat (ph_length (decode_header (snd (split_frames bs))))"
proof (induction "length bs" arbitrary: bs rule: less_induct)
  case less
  then show ?case by (cases bs rule: split_frames_cases) (auto dest: framed_nonempty)
qed

lemma split_frames_append:
  "split_frames (a @ b) =
     (fst (split_frames a) @ fst (split_frames (snd (split_frames a) @ b)), snd (split_frames (snd (split_frames a) @ b)))"
  using split_frames_concat [OF split_frames_framed_all [of a], of "snd (split_frames a) @ b"]
  by (metis append.assoc split_frames_joins)

text \<open>What is left over is shorter than the longest frame.\<close>

lemma split_frames_rest_short: "length (snd (split_frames bs)) < k_header_bytes + 65536"
proof -
  have "unat (ph_length (decode_header (snd (split_frames bs)))) < 65536" by (rule unat_less_65536)
  then show ?thesis using split_frames_rest [of bs] by linarith
qed

end
