(* ===== verification/Tcp_Session_Safety.thy ===== *)
theory Tcp_Session_Safety
  imports Tcp_Session Frame_Stream
begin

text \<open>
  What a TCP session guarantees over every run of events: what it writes, what it hands to the dispatcher, and
  which handlers run.
\<close>

section \<open>What was sent\<close>

fun queued_of :: "SessionLog \<Rightarrow> bytes list" where
  "queued_of (LgQueued p) = [p]"
| "queued_of _ = []"

fun written_of :: "SessionLog \<Rightarrow> bytes list" where
  "written_of (LgWritten p) = [p]"
| "written_of _ = []"

fun writes_of :: "StrandTask \<Rightarrow> bytes list" where
  "writes_of (StWritten ok p) = [p]"
| "writes_of _ = []"

fun sends_of :: "StrandTask \<Rightarrow> bytes list" where
  "sends_of (StSend p) = [p]"
| "sends_of _ = []"

abbreviation queued_in :: "SessionLog list \<Rightarrow> bytes list" where
  "queued_in ls \<equiv> concat (map queued_of ls)"

abbreviation written_in :: "SessionLog list \<Rightarrow> bytes list" where
  "written_in ls \<equiv> concat (map written_of ls)"

text \<open>The writes in progress: those whose completion waits on the strand, and the outstanding one.\<close>

definition writes :: "TcpSession \<Rightarrow> bytes list" where
  "writes s = concat (map writes_of (ts_strand s)) @ (case ts_writing s of None \<Rightarrow> [] | Some p \<Rightarrow> [p])"

definition within_limit :: "SessionOptions option \<Rightarrow> nat \<Rightarrow> bool" where
  "within_limit options n \<longleftrightarrow>
     (case options of None \<Rightarrow> True | Some opts \<Rightarrow> so_send_queue_max opts = 0 \<or> n \<le> so_send_queue_max opts)"

text \<open>The queue is accounted for and within its limit, what was taken in is what was written and what is still
  queued, one write is in progress while the queue is not empty, and every packet is framed.\<close>

definition queue_sound :: "TcpSession \<Rightarrow> bool" where
  "queue_sound s \<longleftrightarrow>
     ts_queued_bytes s = sum_list (map length (ts_send_queue s)) \<and>
     within_limit (ts_options s) (ts_queued_bytes s) \<and>
     queued_in (ts_log s) = written_in (ts_log s) @ ts_send_queue s"

definition packets_framed :: "TcpSession \<Rightarrow> bool" where
  "packets_framed s \<longleftrightarrow>
     ts_block_size s \<le> k_header_bytes + 65535 \<and>
     list_all framed (concat (map sends_of (ts_strand s)) @ ts_prepared s @ queued_in (ts_log s))"

definition write_sound :: "TcpSession \<Rightarrow> bool" where
  "write_sound s \<longleftrightarrow> writes s = take 1 (ts_send_queue s) \<or> ts_stopped s \<and> writes s = []"

definition send_ok :: "TcpSession \<Rightarrow> bool" where
  "send_ok s \<longleftrightarrow> queue_sound s \<and> write_sound s \<and> packets_framed s"

lemmas send_defs = send_ok_def queue_sound_def write_sound_def packets_framed_def writes_def

lemma logged_simps [simp]:
  "ts_log (logged l s) = ts_log s @ [l]" "ts_queued_bytes (logged l s) = ts_queued_bytes s"
  "ts_send_queue (logged l s) = ts_send_queue s" "ts_options (logged l s) = ts_options s"
  "ts_stopped (logged l s) = ts_stopped s" "ts_block_size (logged l s) = ts_block_size s"
  "ts_strand (logged l s) = ts_strand s" "ts_writing (logged l s) = ts_writing s" "ts_prepared (logged l s) = ts_prepared s"
  by (simp_all add: logged_def)

lemma send_ok_on [simp]:
  "send_ok (on_session f s) = send_ok s" "send_ok (on_dispatch g s) = send_ok s" "send_ok (on_telemetry h s) = send_ok s"
  "send_ok (s\<lparr>ts_metrics := m\<rparr>) = send_ok s" "send_ok (s\<lparr>ts_free_blocks := n\<rparr>) = send_ok s"
  "send_ok (s\<lparr>ts_tx_seq := q\<rparr>) = send_ok s" "send_ok (s\<lparr>ts_session_status := st\<rparr>) = send_ok s"
  "send_ok (s\<lparr>ts_reading := r\<rparr>) = send_ok s" "send_ok (s\<lparr>ts_header := ph\<rparr>) = send_ok s"
  "send_ok (s\<lparr>ts_jobs := j\<rparr>) = send_ok s" "send_ok (s\<lparr>ts_workers := w\<rparr>) = send_ok s"
  "send_ok (s\<lparr>ts_read_timer := b\<rparr>) = send_ok s" "send_ok (s\<lparr>ts_write_timer := b\<rparr>) = send_ok s"
  "send_ok (s\<lparr>ts_heartbeat_timer := b\<rparr>) = send_ok s"
  by (simp_all add: send_defs on_session_def on_dispatch_def on_telemetry_def)

lemma send_ok_arm [simp]:
  "send_ok (arm_read_timeout s) = send_ok s" "send_ok (arm_write_timeout s) = send_ok s" "send_ok (arm_heartbeat s) = send_ok s"
  by (simp_all add: arm_read_timeout_def arm_write_timeout_def arm_heartbeat_def split: option.splits)

lemma send_ok_logged [simp]:
  "send_ok (logged (LgReceived d) s) = send_ok s" "send_ok (logged (LgDispatched m d) s) = send_ok s"
  "send_ok (logged (LgAdmitted m st) s) = send_ok s" "send_ok (logged (LgRan m) s) = send_ok s"
  "send_ok (logged LgClosed s) = send_ok s"
  by (simp_all add: send_defs)

lemma send_ok_close: "send_ok s \<Longrightarrow> send_ok (close_session s)"
  unfolding close_session_def Let_def by (auto simp: send_defs on_session_def)

lemma send_ok_stop: "send_ok s \<Longrightarrow> send_ok (session_stop s)"
proof -
  assume ok: "send_ok s"
  then have "send_ok (s\<lparr>ts_stopped := True\<rparr>)" by (auto simp: send_defs)
  with ok show ?thesis by (simp add: session_stop_def send_ok_close)
qed

lemma not_exceeds: "\<not> exceeds_queue_budget m q n \<Longrightarrow> m = 0 \<or> q + n \<le> m"
  by (auto simp: exceeds_queue_budget_def split: if_splits)

lemma arm_write_fields [simp]:
  "ts_send_queue (arm_write_timeout s) = ts_send_queue s" "ts_queued_bytes (arm_write_timeout s) = ts_queued_bytes s"
  "ts_options (arm_write_timeout s) = ts_options s" "ts_stopped (arm_write_timeout s) = ts_stopped s"
  "ts_block_size (arm_write_timeout s) = ts_block_size s" "ts_strand (arm_write_timeout s) = ts_strand s"
  "ts_prepared (arm_write_timeout s) = ts_prepared s" "ts_log (arm_write_timeout s) = ts_log s"
  by (simp_all add: arm_write_timeout_def split: option.splits)

text \<open>A write is started from a state whose writes in progress are done.\<close>

lemma send_ok_do_write:
  assumes "writes s = []" "queue_sound s" "packets_framed s"
  shows "send_ok (do_write s)"
  using assms by (cases "ts_send_queue s") (auto simp: do_write_def send_defs split: option.splits)

lemma send_ok_send_packet:
  assumes "send_ok s" "framed p"
  shows "send_ok (send_packet p s)"
proof (cases "ts_stopped s")
  case False
  note ok = assms(1)
  show ?thesis
  proof (cases "case ts_options s of None \<Rightarrow> False
      | Some opts \<Rightarrow> exceeds_queue_budget (so_send_queue_max opts) (ts_queued_bytes s) (length p)")
    case True
    then show ?thesis using False ok by (simp add: send_packet_def send_ok_stop)
  next
    case nf: False
    let ?s = "logged (LgQueued p) (s\<lparr>ts_queued_bytes := ts_queued_bytes s + length p, ts_send_queue := ts_send_queue s @ [p]\<rparr>)"
    have q: "queue_sound ?s" using ok nf by (auto simp: send_ok_def queue_sound_def within_limit_def dest: not_exceeds split: option.splits)
    have f: "packets_framed ?s" using ok assms(2) by (simp add: send_ok_def packets_framed_def)
    have w: "writes ?s = take 1 (ts_send_queue s)" using ok False by (auto simp: send_ok_def write_sound_def writes_def)
    show ?thesis
    proof (cases "ts_send_queue s = []")
      case True
      then have "send_ok (do_write ?s)" using send_ok_do_write [OF _ q f] w by simp
      then show ?thesis using False nf True by (simp add: send_packet_def)
    next
      case ne: False
      then have "write_sound ?s" using w by (cases "ts_send_queue s") (auto simp: write_sound_def)
      then show ?thesis using False nf ne q f by (simp add: send_packet_def send_ok_def)
    qed
  qed
qed (use assms in \<open>simp add: send_packet_def\<close>)

lemma make_packet_frames:
  assumes "session_make_packet x msg_id flags payload s = (s', r)" "send_ok s"
  shows "send_ok s'" "r = Some p \<Longrightarrow> framed p"
proof -
  show "send_ok s'" using assms by (auto simp: session_make_packet_def Let_def split: if_splits)
  assume "r = Some p"
  then have "p = encode_header \<lparr>ph_length = word_of_nat (length payload), ph_msg_id = msg_id, ph_flags = flags,
      ph_seq = ts_tx_seq s, ph_utc_ts_ms32 = ucast (sv_now x (ts_tx_seq s))\<rparr> @ payload"
    and "k_header_bytes + length payload \<le> k_header_bytes + 65535"
    using assms by (auto simp: session_make_packet_def send_defs Let_def split: if_splits)
  moreover from this(2) have "unat (word_of_nat (length payload) :: u16) = length payload"
    by (simp add: unat_of_nat)
  ultimately show "framed p" by (simp add: framed_def decode_encode_header)
qed

lemma send_ok_async_send: "send_ok s \<Longrightarrow> send_ok (session_async_send x msg_id payload flags s)"
  unfolding session_async_send_def
  by (auto intro!: send_ok_send_packet dest: make_packet_frames split: prod.splits option.splits)

lemma send_ok_send_error: "send_ok s \<Longrightarrow> send_ok (send_error x code msg s)"
  by (simp add: send_error_def send_ok_async_send)

lemma send_ok_handler_op: "send_ok s \<Longrightarrow> send_ok (handler_op x op s)"
  by (cases op) (simp_all add: send_ok_async_send send_ok_send_error send_ok_stop)

lemma send_ok_handler_ops: "send_ok s \<Longrightarrow> send_ok (foldl (\<lambda>s op. handler_op x op s) s ops)"
  by (induction ops arbitrary: s) (simp_all add: send_ok_handler_op)

lemma send_ok_run_handler: "send_ok s \<Longrightarrow> send_ok (run_handler_with_guard x handler payload msg_id place_index s)"
  by (auto simp: run_handler_with_guard_def Let_def send_ok_handler_ops send_ok_send_error split: prod.splits)

lemma send_ok_post: "writes_of task = [] \<Longrightarrow> sends_of task = [] \<Longrightarrow> send_ok (post_serialized task s) = send_ok s"
  by (simp add: post_serialized_def send_defs)

lemma send_ok_place_reject: "send_ok s \<Longrightarrow> send_ok (place_reject x place_index msg s)"
  by (simp add: place_reject_def send_ok_send_error)

lemma send_ok_dispatch: "send_ok s \<Longrightarrow> send_ok (fst (dispatch x msg_id payload transport s))"
  by (auto simp: dispatch_def Let_def send_ok_send_error send_ok_run_handler send_ok_place_reject send_ok_post
      split: option.splits ProcessingPlace.splits prod.splits)

lemma send_ok_acquire [simp]: "send_ok (acquire_read_buf s) = send_ok s"
  by (simp add: acquire_read_buf_def Let_def send_defs)

lemma send_ok_read_failed: "send_ok s \<Longrightarrow> send_ok (read_failed s)"
  by (simp add: read_failed_def send_ok_stop)

lemma send_ok_do_read_header: "send_ok s \<Longrightarrow> send_ok (do_read_header s)"
  by (simp add: do_read_header_def Let_def send_ok_read_failed)

lemma send_ok_frame_complete: "send_ok s \<Longrightarrow> send_ok (frame_complete x payload s)"
proof -
  assume "send_ok s"
  then have "send_ok (fst (dispatch x (ph_msg_id (ts_header s)) payload TkTcp (logged (LgDispatched (ph_msg_id (ts_header s)) payload)
      (on_session record_packet_ok (on_session (record_packet_payload (length payload)) s)))))"
    by (intro send_ok_dispatch) simp
  then show ?thesis
    by (auto simp: frame_complete_def Let_def send_ok_do_read_header send_ok_send_error split: prod.splits)
qed

lemma send_ok_do_read_body: "send_ok s \<Longrightarrow> send_ok (do_read_body x n s)"
  by (simp add: do_read_body_def Let_def send_ok_read_failed send_ok_frame_complete)

lemma send_ok_header_read: "send_ok s \<Longrightarrow> send_ok (header_read x ok data s)"
  by (simp add: header_read_def Let_def send_ok_read_failed send_ok_do_read_body send_ok_stop send_ok_send_error)

lemma send_ok_body_read: "send_ok s \<Longrightarrow> send_ok (body_read x ok data s)"
  by (simp add: body_read_def send_ok_read_failed send_ok_frame_complete)

lemma send_ok_timeouts:
  "send_ok s \<Longrightarrow> send_ok (read_timeout s)" "send_ok s \<Longrightarrow> send_ok (write_timeout s)" "send_ok s \<Longrightarrow> send_ok (heartbeat x s)"
  by (auto simp: read_timeout_def write_timeout_def heartbeat_def Let_def intro!: send_ok_stop send_ok_async_send split: option.splits)

lemma send_ok_written:
  assumes "send_ok s" "ts_strand s = StWritten ok p # tasks"
  shows "send_ok (write_done ok p (s\<lparr>ts_strand := tasks\<rparr>))"
proof -
  have w: "writes s = p # writes (s\<lparr>ts_strand := tasks\<rparr>)" by (simp add: writes_def assms(2))
  then have e: "writes (s\<lparr>ts_strand := tasks\<rparr>) = []" and q: "ts_send_queue s = p # tl (ts_send_queue s)"
    using assms(1) by (cases "ts_send_queue s"; auto simp: send_ok_def write_sound_def)+
  let ?s = "s\<lparr>ts_strand := tasks\<rparr>"
  show ?thesis
  proof (cases ok)
    case True
    obtain q' where q': "ts_send_queue s = p # q'" using q by blast
    let ?s' = "logged (LgWritten p) (?s\<lparr>ts_write_timer := False, ts_queued_bytes := ts_queued_bytes s - length p,
      ts_send_queue := q', ts_free_blocks := ts_free_blocks s + 1\<rparr>)"
    have qs: "queue_sound s" and ps: "packets_framed s" using assms(1) by (simp_all add: send_ok_def)
    have n: "ts_queued_bytes s = length p + sum_list (map length q')" using qs q' by (simp add: queue_sound_def)
    have "queue_sound ?s'" using qs q' n by (auto simp: queue_sound_def within_limit_def split: option.splits)
    moreover have "packets_framed ?s'" using ps assms(2) by (simp add: packets_framed_def)
    moreover have "writes ?s' = []" using e by (simp add: writes_def)
    ultimately have "send_ok (do_write ?s')" by (intro send_ok_do_write)
    then show ?thesis using True n q' by (simp add: write_done_def Let_def)
  next
    case False
    have "send_ok (?s\<lparr>ts_stopped := True\<rparr>)" using assms(1) e by (auto simp: send_defs assms(2))
    moreover have "send_ok ?s" if "ts_stopped s" using assms(1) e that by (auto simp: send_defs assms(2))
    ultimately show ?thesis using False by (simp add: write_done_def session_stop_def send_ok_close)
  qed
qed

lemma send_ok_pop:
  assumes "send_ok s" "ts_strand s = task # tasks" "writes_of task = []"
  shows "send_ok (s\<lparr>ts_strand := tasks\<rparr>)"
  using assms by (auto simp: send_defs)

lemma send_ok_run_task:
  assumes "send_ok s" "ts_strand s = task # tasks"
  shows "send_ok (run_task x task (s\<lparr>ts_strand := tasks\<rparr>))"
proof (cases task)
  case (StSend p)
  have "framed p" using assms StSend by (simp add: send_ok_def packets_framed_def)
  then show ?thesis using send_ok_pop [OF assms] StSend by (simp add: send_ok_send_packet)
next
  case (StWritten ok p)
  then show ?thesis using send_ok_written assms by simp
qed (use send_ok_pop [OF assms] in \<open>simp_all add: send_ok_close send_ok_header_read send_ok_body_read
    send_ok_timeouts send_ok_run_handler\<close>)

lemma read_task_neutral [simp]: "writes_of (read_task r ok data) = []" "sends_of (read_task r ok data) = []"
  by (cases r; simp)+

lemma send_ok_step:
  assumes "send_ok s" "session_step e s = Some s'"
  shows "send_ok s'"
proof (cases e)
  case (SnRun x)
  then show ?thesis using assms send_ok_run_task by (auto split: list.splits)
next
  case (SnSend x msg_id payload flags)
  obtain s1 r where m: "session_make_packet x msg_id flags payload s = (s1, r)" by fastforce
  then show ?thesis
    using assms SnSend make_packet_frames [OF m assms(1)]
    by (cases r) (auto simp: send_defs)
next
  case (SnPost k)
  then have k: "k < length (ts_prepared s)" and s': "s' = s\<lparr>ts_prepared := take k (ts_prepared s) @ drop (Suc k) (ts_prepared s),
      ts_strand := ts_strand s @ [StSend (ts_prepared s ! k)]\<rparr>"
    using assms(2) by (auto split: if_splits)
  have "list_all framed (take k (ts_prepared s) @ drop (Suc k) (ts_prepared s))" "framed (ts_prepared s ! k)"
    using assms(1) k by (auto simp: send_ok_def packets_framed_def list_all_iff dest: in_set_takeD in_set_dropD)
  then show ?thesis using assms(1) unfolding s' by (auto simp: send_defs)
next
  case SnStop
  then show ?thesis using assms by (auto simp: send_defs split: if_splits)
next
  case (SnRead ok data)
  then show ?thesis using assms by (auto simp: send_defs split: option.splits if_splits)
next
  case (SnWritten ok)
  then show ?thesis using assms by (auto simp: send_defs split: option.splits if_splits)
next
  case SnWorkerTakes
  then show ?thesis using assms by (auto split: option.splits prod.splits PopEnd.splits)
next
  case (SnWorkerPosts k)
  then show ?thesis using assms by (auto simp: Let_def send_ok_post split: if_splits SessionJob.splits)
qed (use assms in \<open>auto simp: send_defs split: if_splits option.splits prod.splits\<close>)

lemma send_ok_run: "send_ok s \<Longrightarrow> session_run es s = Some s' \<Longrightarrow> send_ok s'"
  by (induction es arbitrary: s) (auto split: option.splits dest: send_ok_step)

definition new_session ::
  "SessionEnv \<Rightarrow> SessionOptions option \<Rightarrow> nat \<Rightarrow> nat \<Rightarrow> (u16, DispatchEntry) idx \<Rightarrow> SessionJob JobQueue option \<Rightarrow> TcpSession"
where
  "new_session x opts block_size free_blocks table jobs =
     session_start x (new_tcp_session opts block_size free_blocks table True jobs (Some 0) new_process_metrics)"

lemma send_ok_new:
  assumes "block_size \<le> k_header_bytes + 65535"
  shows "send_ok (new_session x opts block_size free_blocks table jobs)"
proof -
  let ?s = "new_tcp_session opts block_size free_blocks table True jobs (Some 0) new_process_metrics"
  obtain s1 r where m: "session_make_packet x 1 0 (hello_payload (sv_now x (ts_tx_seq ?s)) ?s) ?s = (s1, r)" by fastforce
  have new: "send_ok ?s"
    using assms by (simp add: new_tcp_session_def send_defs on_session_def within_limit_def split: option.splits)
  have s1: "send_ok s1" "r = Some p \<Longrightarrow> framed p" for p using make_packet_frames [OF m new] by auto
  have "send_ok (case r of None \<Rightarrow> s1 | Some p \<Rightarrow> post_serialized (StSend p) s1)"
    using s1 by (cases r) (auto simp: post_serialized_def send_defs)
  then show ?thesis by (simp add: new_session_def session_start_def m send_ok_do_read_header)
qed

text \<open>C6.
  A session writes whole packets, in the order in which it took them in, and never queues more than its limit.
  Whatever arrives, whatever the handlers do and whichever threads send, in every reachable state the packets
  taken in are the packets written followed by the packets queued, the bytes written so far cut into frames are
  exactly the packets written, the queued bytes are counted exactly and within the limit of the options, and at
  most one write is in progress, of the front of the queue. Blocks of the buffer pool must not be larger than
  the largest frame.\<close>

theorem session_writes_whole_packets:
  assumes "block_size \<le> k_header_bytes + 65535"
    and "session_run es (new_session x opts block_size free_blocks table jobs) = Some s"
  shows "queued_in (ts_log s) = written_in (ts_log s) @ ts_send_queue s \<and>
    split_frames (concat (written_in (ts_log s))) = (written_in (ts_log s), []) \<and>
    ts_queued_bytes s = sum_list (map length (ts_send_queue s)) \<and>
    within_limit (ts_options s) (ts_queued_bytes s) \<and>
    (writes s = [] \<or> writes s = take 1 (ts_send_queue s))"
proof -
  have ok: "send_ok s" by (rule send_ok_run [OF send_ok_new [OF assms(1)] assms(2)])
  then have "list_all framed (written_in (ts_log s))" by (auto simp: send_defs)
  then have "split_frames (concat (written_in (ts_log s)) @ []) = (written_in (ts_log s), [])"
    by (simp only: split_frames_concat) (simp add: split_frames_short k_header_bytes_def)
  then show ?thesis using ok by (auto simp: send_ok_def queue_sound_def write_sound_def)
qed

section \<open>What was received\<close>

fun received_of :: "SessionLog \<Rightarrow> bytes" where
  "received_of (LgReceived d) = d"
| "received_of _ = []"

fun dispatched_of :: "SessionLog \<Rightarrow> (u16 \<times> bytes) list" where
  "dispatched_of (LgDispatched m d) = [(m, d)]"
| "dispatched_of _ = []"

abbreviation received_in :: "SessionLog list \<Rightarrow> bytes" where
  "received_in ls \<equiv> concat (map received_of ls)"

abbreviation dispatched_in :: "SessionLog list \<Rightarrow> (u16 \<times> bytes) list" where
  "dispatched_in ls \<equiv> concat (map dispatched_of ls)"

datatype ReadPhase = RpReading ReadOp | RpHeader bool bytes | RpBody bool bytes

fun reads_of :: "StrandTask \<Rightarrow> ReadPhase list" where
  "reads_of (StHeader ok d) = [RpHeader ok d]"
| "reads_of (StBody ok d) = [RpBody ok d]"
| "reads_of _ = []"

text \<open>The reads in progress: those whose completion waits on the strand, and the outstanding one.\<close>

definition reads :: "TcpSession \<Rightarrow> ReadPhase list" where
  "reads s = concat (map reads_of (ts_strand s)) @ (case ts_reading s of None \<Rightarrow> [] | Some r \<Rightarrow> [RpReading r])"

definition read_view :: "TcpSession \<Rightarrow> ReadPhase list \<times> PacketHeader \<times> bytes \<times> (u16 \<times> bytes) list" where
  "read_view s = (reads s, ts_header s, received_in (ts_log s), dispatched_in (ts_log s))"

lemmas read_view_defs = read_view_def reads_def

lemma read_view_same [simp]:
  "read_view (on_session f s) = read_view s" "read_view (on_dispatch g s) = read_view s" "read_view (on_telemetry h s) = read_view s"
  "read_view (s\<lparr>ts_metrics := m\<rparr>) = read_view s" "read_view (s\<lparr>ts_free_blocks := n\<rparr>) = read_view s"
  "read_view (s\<lparr>ts_tx_seq := q\<rparr>) = read_view s" "read_view (s\<lparr>ts_session_status := st\<rparr>) = read_view s"
  "read_view (s\<lparr>ts_jobs := j\<rparr>) = read_view s" "read_view (s\<lparr>ts_workers := w\<rparr>) = read_view s"
  "read_view (s\<lparr>ts_stopped := b\<rparr>) = read_view s" "read_view (s\<lparr>ts_prepared := ps\<rparr>) = read_view s"
  "read_view (s\<lparr>ts_write_timer := b\<rparr>) = read_view s" "read_view (s\<lparr>ts_queued_bytes := k\<rparr>) = read_view s"
  "read_view (s\<lparr>ts_send_queue := sq\<rparr>) = read_view s" "read_view (s\<lparr>ts_writing := wr\<rparr>) = read_view s"
  "read_view (s\<lparr>ts_read_timer := b\<rparr>) = read_view s" "read_view (s\<lparr>ts_heartbeat_timer := b\<rparr>) = read_view s"
  by (simp_all add: read_view_defs on_session_def on_dispatch_def on_telemetry_def)

lemma read_view_logged [simp]:
  "read_view (logged (LgQueued p) s) = read_view s" "read_view (logged (LgWritten p) s) = read_view s"
  "read_view (logged (LgAdmitted m st) s) = read_view s" "read_view (logged (LgRan m) s) = read_view s"
  "read_view (logged LgClosed s) = read_view s"
  by (simp_all add: read_view_defs logged_def)

lemma read_view_stop [simp]: "read_view (close_session s) = read_view s" "read_view (session_stop s) = read_view s"
  by (simp_all add: session_stop_def close_session_def Let_def) (simp_all add: read_view_defs)

lemma read_view_arm [simp]:
  "read_view (arm_read_timeout s) = read_view s" "read_view (arm_write_timeout s) = read_view s"
  "read_view (arm_heartbeat s) = read_view s"
  by (simp_all add: arm_read_timeout_def arm_write_timeout_def arm_heartbeat_def split: option.splits)

lemma read_view_do_write [simp]: "read_view (do_write s) = read_view s"
  by (simp add: do_write_def split: list.splits)

lemma read_view_send_packet [simp]: "read_view (send_packet p s) = read_view s"
  by (simp add: send_packet_def Let_def)

lemma read_view_async_send [simp]: "read_view (session_async_send x msg_id payload flags s) = read_view s"
  by (auto simp: session_async_send_def session_make_packet_def Let_def split: if_splits)

lemma read_view_send_error [simp]: "read_view (send_error x code msg s) = read_view s"
  by (simp add: send_error_def)

lemma read_view_handler_ops: "read_view (foldl (\<lambda>s op. handler_op x op s) s ops) = read_view s"
proof (induction ops arbitrary: s)
  case (Cons op ops)
  have "read_view (handler_op x op s) = read_view s" by (cases op) simp_all
  with Cons show ?case by simp
qed simp

lemma read_view_run_handler [simp]: "read_view (run_handler_with_guard x handler payload msg_id place_index s) = read_view s"
  by (auto simp: run_handler_with_guard_def Let_def read_view_handler_ops split: prod.splits)

lemma read_view_post: "reads_of task = [] \<Longrightarrow> read_view (post_serialized task s) = read_view s"
  by (simp add: post_serialized_def read_view_defs)

lemma read_view_dispatch [simp]: "read_view (fst (dispatch x msg_id payload transport s)) = read_view s"
  by (auto simp: dispatch_def Let_def place_reject_def read_view_post split: option.splits ProcessingPlace.splits prod.splits)

text \<open>
  The bytes received are whole frames, which were dispatched in order, followed by the part of a frame that the
  read in progress is at. At most one read is in progress.
\<close>

fun phase_ok :: "ReadPhase list \<Rightarrow> PacketHeader \<Rightarrow> bytes \<Rightarrow> bool" where
  "phase_ok [] h part = True"
| "phase_ok [RpReading RdHeader] h part = (part = [])"
| "phase_ok [RpHeader ok d] h part = (ok \<longrightarrow> part = d \<and> length d = k_header_bytes)"
| "phase_ok [RpReading (RdBody n)] h part =
     (length part = k_header_bytes \<and> h = decode_header part \<and> n = unat (ph_length h) \<and> 0 < n)"
| "phase_ok [RpBody ok d] h part =
     (ok \<longrightarrow> (\<exists>hb. part = hb @ d \<and> length hb = k_header_bytes \<and> h = decode_header hb \<and> length d = unat (ph_length h)))"
| "phase_ok _ h part = False"

definition view_ok :: "ReadPhase list \<times> PacketHeader \<times> bytes \<times> (u16 \<times> bytes) list \<Rightarrow> bool" where
  "view_ok v \<longleftrightarrow> (case v of (rs, h, received, dispatched) \<Rightarrow>
     \<exists>frames part. received = concat frames @ part \<and> list_all framed frames \<and> dispatched = map frame_of frames \<and>
       phase_ok rs h part)"

abbreviation read_ok :: "TcpSession \<Rightarrow> bool" where
  "read_ok s \<equiv> view_ok (read_view s)"

lemma view_ok_none: "view_ok (rs, h, rx, ds) \<Longrightarrow> view_ok ([], h', rx, ds)"
  by (auto simp: view_ok_def)

lemma reads_start:
  "reads s = [] \<Longrightarrow> read_view (s\<lparr>ts_reading := Some r\<rparr>) = ([RpReading r], ts_header s, received_in (ts_log s), dispatched_in (ts_log s))"
  by (auto simp: read_view_defs)

lemma acquire_fields [simp]: "ts_header (acquire_read_buf s) = ts_header s" "ts_log (acquire_read_buf s) = ts_log s"
  by (simp_all add: acquire_read_buf_def Let_def)

lemma acquire_view [simp]: "read_view (acquire_read_buf s) = read_view s"
  by (simp add: acquire_read_buf_def Let_def read_view_defs)

text \<open>Starting the next header read after a frame is complete.\<close>

lemma read_ok_next:
  assumes "reads s = []" "received_in (ts_log s) = concat frames" "list_all framed frames"
    and "dispatched_in (ts_log s) = map frame_of frames"
  shows "read_ok (do_read_header s)"
proof -
  let ?s = "acquire_read_buf s"
  have v: "read_view ?s = read_view s" by (rule acquire_view)
  have s: "read_view s = ([], ts_header s, concat frames, map frame_of frames)" using assms by (simp add: read_view_def)
  show ?thesis
  proof (cases "ts_read_buf ?s")
    case True
    have "reads ?s = []" using v s by (simp add: read_view_def)
    then have "read_view (?s\<lparr>ts_reading := Some RdHeader\<rparr>) = ([RpReading RdHeader], ts_header s, concat frames, map frame_of frames)"
      using assms(2,4) by (simp add: reads_start)
    then show ?thesis using True assms(3) by (auto simp: do_read_header_def Let_def view_ok_def)
  next
    case False
    then show ?thesis
      using assms(3) by (auto simp: do_read_header_def Let_def read_failed_def v s view_ok_def)
  qed
qed

lemma read_ok_frame_complete:
  assumes "reads s = []" "received_in (ts_log s) = concat frames @ hb @ payload" "list_all framed frames"
    and "dispatched_in (ts_log s) = map frame_of frames"
    and "length hb = k_header_bytes" "ts_header s = decode_header hb" "length payload = unat (ph_length (ts_header s))"
  shows "read_ok (frame_complete x payload s)"
proof -
  let ?h = "ts_header s"
  let ?s1 = "logged (LgDispatched (ph_msg_id ?h) payload) (on_session record_packet_ok (on_session (record_packet_payload (length payload)) s))"
  obtain s2 handled where d: "dispatch x (ph_msg_id ?h) payload TkTcp ?s1 = (s2, handled)" by fastforce
  let ?s3 = "(on_dispatch (record_dispatch_opcode (ph_msg_id ?h)) s2)"
  let ?s4 = "?s3\<lparr>ts_metrics := record_dispatch_attempt handled (sv_elapsed x) (ts_metrics ?s3)\<rparr>"
  let ?s5 = "if \<not> handled then send_error x UNKNOWN_MSG_ID ''unknown msg'' ?s4 else ?s4"
  have f: "framed (hb @ payload)" "frame_of (hb @ payload) = (ph_msg_id ?h, payload)"
    using assms(5-7) by (simp_all add: framed_def frame_of_def decode_header_append)
  have "read_view ?s5 = read_view s2" by simp
  also have "\<dots> = read_view ?s1" using read_view_dispatch [of x "ph_msg_id ?h" payload TkTcp ?s1] by (simp add: d)
  also have "\<dots> = ([], ?h, concat (frames @ [hb @ payload]), map frame_of (frames @ [hb @ payload]))"
    using assms(1,2,4) f(2) by (simp add: read_view_defs logged_def on_session_def)
  finally have "read_view ?s5 = ([], ?h, concat (frames @ [hb @ payload]), map frame_of (frames @ [hb @ payload]))" .
  then have "read_ok (do_read_header ?s5)"
    by (intro read_ok_next [where frames = "frames @ [hb @ payload]"]) (use assms(3) f(1) in \<open>simp_all add: read_view_def\<close>)
  moreover have "frame_complete x payload s = do_read_header ?s5"
    by (simp add: frame_complete_def Let_def d)
  ultimately show ?thesis by simp
qed

lemma read_ok_failed: "read_ok s \<Longrightarrow> reads s = [] \<Longrightarrow> read_ok (read_failed s)"
  by (simp add: read_failed_def)

lemma read_ok_do_read_body:
  assumes "reads s = []" "received_in (ts_log s) = concat frames @ hb" "list_all framed frames"
    and "dispatched_in (ts_log s) = map frame_of frames"
    and "length hb = k_header_bytes" "ts_header s = decode_header hb" "n = unat (ph_length (ts_header s))"
  shows "read_ok (do_read_body x n s)"
proof -
  have none: "read_ok s" using assms(1-4) by (auto simp: view_ok_def read_view_def)
  have v: "read_view (acquire_read_buf s) = read_view s" by (rule acquire_view)
  then have a: "reads (acquire_read_buf s) = []" using assms(1) by (simp add: read_view_def)
  consider "n = 0" | "n > ts_block_size s" | "0 < n" "n \<le> ts_block_size s" "\<not> ts_read_buf (acquire_read_buf s)"
    | "0 < n" "n \<le> ts_block_size s" "ts_read_buf (acquire_read_buf s)" by linarith
  then show ?thesis
  proof cases
    case 1
    then show ?thesis
      using read_ok_frame_complete [OF assms(1), of frames hb "[]" x] assms by (simp add: do_read_body_def)
  next
    case 2
    then show ?thesis using none by (simp add: do_read_body_def read_failed_def)
  next
    case 3
    then show ?thesis using none v by (simp add: do_read_body_def Let_def read_failed_def)
  next
    case 4
    let ?s = "(acquire_read_buf s)\<lparr>ts_reading := Some (RdBody n)\<rparr>"
    have "read_view ?s = ([RpReading (RdBody n)], ts_header s, concat frames @ hb, map frame_of frames)"
      using assms(2,4) by (simp add: reads_start [OF a])
    then have "read_ok ?s" using assms(3,5-7) 4(1) by (auto simp: view_ok_def)
    then show ?thesis using 4 by (simp add: do_read_body_def Let_def)
  qed
qed

lemma read_ok_header_read:
  assumes "reads s = []" "received_in (ts_log s) = concat frames @ part" "list_all framed frames"
    and "dispatched_in (ts_log s) = map frame_of frames" "ok \<longrightarrow> part = data \<and> length data = k_header_bytes"
  shows "read_ok (header_read x ok data s)"
proof -
  have none: "read_ok s" using assms(1-4) by (auto simp: view_ok_def read_view_def)
  show ?thesis
  proof (cases "ok \<and> length data = k_header_bytes")
    case True
    let ?s = "s\<lparr>ts_header := decode_header data\<rparr>"
    have rs: "reads ?s = []" using assms(1) by (simp add: reads_def)
    have vs: "read_view ?s = ([], decode_header data, concat frames @ part, map frame_of frames)"
      using rs assms(2,4) by (simp add: read_view_def)
    then have "read_ok ?s" using assms(3) by (auto simp: view_ok_def)
    moreover have "read_ok (do_read_body x (unat (ph_length (ts_header ?s))) (arm_read_timeout ?s))"
    proof (rule read_ok_do_read_body [where frames = frames and hb = data])
      have "read_view (arm_read_timeout ?s) = ([], decode_header data, concat frames @ part, map frame_of frames)"
        by (simp only: read_view_arm vs)
      then show "reads (arm_read_timeout ?s) = []" "received_in (ts_log (arm_read_timeout ?s)) = concat frames @ data"
        "dispatched_in (ts_log (arm_read_timeout ?s)) = map frame_of frames" "ts_header (arm_read_timeout ?s) = decode_header data"
        "unat (ph_length (ts_header ?s)) = unat (ph_length (ts_header (arm_read_timeout ?s)))"
        using True assms(5) by (simp_all add: read_view_def)
    qed (use True assms(3) in auto)
    ultimately show ?thesis using True by (simp add: header_read_def Let_def)
  next
    case False
    then show ?thesis using none by (auto simp: header_read_def read_failed_def)
  qed
qed

lemma read_ok_body_read:
  assumes "reads s = []" "received_in (ts_log s) = concat frames @ part" "list_all framed frames"
    and "dispatched_in (ts_log s) = map frame_of frames"
    and "ok \<longrightarrow> (\<exists>hb. part = hb @ data \<and> length hb = k_header_bytes \<and> ts_header s = decode_header hb \<and>
      length data = unat (ph_length (ts_header s)))"
  shows "read_ok (body_read x ok data s)"
proof (cases ok)
  case True
  then obtain hb where hb: "part = hb @ data" "length hb = k_header_bytes" "ts_header s = decode_header hb"
    "length data = unat (ph_length (ts_header s))" using assms(5) by auto
  have "read_view s = ([], ts_header s, concat frames @ part, map frame_of frames)"
    using assms(1,2,4) by (simp add: read_view_def)
  then have "read_view (arm_read_timeout s) = ([], ts_header s, concat frames @ part, map frame_of frames)"
    by (simp only: read_view_arm)
  then have "read_ok (frame_complete x data (arm_read_timeout s))"
    using hb assms(3) by (intro read_ok_frame_complete [where frames = frames and hb = hb]) (simp_all add: read_view_def)
  then show ?thesis using True hb(4) by (simp add: body_read_def)
next
  case False
  moreover have "read_ok s" using assms(1-4) by (auto simp: view_ok_def read_view_def)
  ultimately show ?thesis by (simp add: body_read_def read_failed_def)
qed

lemma reads_pop: "ts_strand s = task # tasks \<Longrightarrow> reads s = reads_of task @ reads (s\<lparr>ts_strand := tasks\<rparr>)"
  by (simp add: reads_def)

lemma phase_single: "phase_ok (r # rs) h part \<Longrightarrow> rs = []"
  by (cases "(r # rs, h, part)" rule: phase_ok.cases) auto

lemma read_view_timeouts [simp]:
  "read_view (read_timeout s) = read_view s" "read_view (write_timeout s) = read_view s" "read_view (heartbeat x s) = read_view s"
  "read_view (write_done ok p s) = read_view s"
  by (auto simp: read_timeout_def write_timeout_def heartbeat_def write_done_def Let_def split: option.splits)

lemma read_ok_run_task:
  assumes "read_ok s" "ts_strand s = task # tasks"
  shows "read_ok (run_task x task (s\<lparr>ts_strand := tasks\<rparr>))"
proof -
  let ?s = "s\<lparr>ts_strand := tasks\<rparr>"
  obtain frames part where f: "received_in (ts_log s) = concat frames @ part" "list_all framed frames"
    "dispatched_in (ts_log s) = map frame_of frames" "phase_ok (reads_of task @ reads ?s) (ts_header s) part"
    using assms(1) by (auto simp: view_ok_def read_view_def reads_pop [OF assms(2)])
  have pop: "read_ok ?s" if "reads_of task = []"
    using assms(1) that by (simp add: read_view_def reads_pop [OF assms(2)])
  show ?thesis
  proof (cases task)
    case (StHeader ok data)
    then have "reads ?s = []" using f(4) phase_single by auto
    then show ?thesis
      using f StHeader read_ok_header_read [of ?s frames part ok data x] by simp
  next
    case (StBody ok data)
    then have "reads ?s = []" using f(4) phase_single by auto
    then show ?thesis
      using f StBody read_ok_body_read [of ?s frames part ok data x] by auto
  qed (use pop in simp_all)
qed

lemma read_ok_step:
  assumes "read_ok s" "session_step e s = Some s'"
  shows "read_ok s'"
proof (cases e)
  case (SnRun x)
  then show ?thesis using assms read_ok_run_task by (auto split: list.splits)
next
  case (SnSend x msg_id payload flags)
  then show ?thesis using assms by (auto simp: session_make_packet_def Let_def split: if_splits)
next
  case (SnRead ok data)
  then obtain r where r: "ts_reading s = Some r" "ok \<longrightarrow> length data = read_length r"
    and s': "s' = (if ok then logged (LgReceived data) else id)
      (s\<lparr>ts_reading := None, ts_strand := ts_strand s @ [read_task r ok data]\<rparr>)"
    using assms(2) by (auto split: option.splits if_splits)
  obtain frames part where f: "received_in (ts_log s) = concat frames @ part" "list_all framed frames"
    "dispatched_in (ts_log s) = map frame_of frames" "phase_ok (reads s) (ts_header s) part"
    using assms(1) by (auto simp: view_ok_def read_view_def)
  have single: "concat (map reads_of (ts_strand s)) = []"
  proof (rule ccontr)
    assume "concat (map reads_of (ts_strand s)) \<noteq> []"
    then obtain a as where "concat (map reads_of (ts_strand s)) = a # as" by (cases "concat (map reads_of (ts_strand s))") auto
    then show False using f(4) r(1) phase_single [of a "as @ [RpReading r]"] by (simp add: reads_def)
  qed
  then have ph: "phase_ok [RpReading r] (ts_header s) part" using f(4) r(1) by (simp add: reads_def del: concat_eq_Nil_conv)
  have v: "read_view s' = (reads_of (read_task r ok data), ts_header s, (concat frames @ part) @ (if ok then data else []), map frame_of frames)"
    unfolding s' read_view_defs using f(1,3) by (simp add: logged_def single del: concat_eq_Nil_conv)
  show ?thesis
  proof (cases r)
    case RdHeader
    then show ?thesis using v ph r(2) f(2) by (auto simp: view_ok_def intro!: exI [of _ frames])
  next
    case (RdBody n)
    then show ?thesis using v ph r(2) f(2) by (auto simp: view_ok_def intro!: exI [of _ frames])
  qed
next
  case (SnWorkerPosts k)
  then show ?thesis using assms by (auto simp: Let_def read_view_post split: if_splits SessionJob.splits)
next
  case SnWorkerTakes
  then show ?thesis using assms by (auto split: option.splits prod.splits PopEnd.splits)
qed (use assms in \<open>auto simp: read_view_defs split: if_splits option.splits prod.splits\<close>)

lemma read_ok_run: "read_ok s \<Longrightarrow> session_run es s = Some s' \<Longrightarrow> read_ok s'"
  by (induction es arbitrary: s) (auto split: option.splits dest: read_ok_step)

lemma read_ok_new: "read_ok (new_session x opts block_size free_blocks table jobs)"
proof -
  let ?s = "new_tcp_session opts block_size free_blocks table True jobs (Some 0) new_process_metrics"
  obtain s1 r where m: "session_make_packet x 1 0 (hello_payload (sv_now x (ts_tx_seq ?s)) ?s) ?s = (s1, r)" by fastforce
  have "read_view s1 = read_view ?s" using m by (auto simp: session_make_packet_def Let_def split: if_splits)
  then have "read_view (case r of None \<Rightarrow> s1 | Some p \<Rightarrow> post_serialized (StSend p) s1) = ([], ts_header ?s, [], [])"
    by (cases r) (simp_all add: read_view_post, simp_all add: new_tcp_session_def on_session_def read_view_defs)
  then have "read_ok (do_read_header (case r of None \<Rightarrow> s1 | Some p \<Rightarrow> post_serialized (StSend p) s1))"
    by (intro read_ok_next [where frames = "[]"]) (simp_all add: read_view_def)
  then show ?thesis by (simp add: new_session_def session_start_def m)
qed

text \<open>C7.
  The dispatcher is given exactly the frames of the byte stream. In every reachable state the messages handed to
  the dispatcher, in order, are the first frames of the bytes received so far; and whenever the strand is idle
  and the session is still reading, they are all the complete frames received.\<close>

theorem session_dispatches_exact_frames:
  assumes "session_run es (new_session x opts block_size free_blocks table jobs) = Some s"
  shows "(\<exists>more. map frame_of (fst (split_frames (received_in (ts_log s)))) = dispatched_in (ts_log s) @ more) \<and>
    (ts_strand s = [] \<and> ts_reading s \<noteq> None \<longrightarrow>
       dispatched_in (ts_log s) = map frame_of (fst (split_frames (received_in (ts_log s)))))"
proof -
  have "read_ok s" by (rule read_ok_run [OF read_ok_new assms])
  then obtain frames part where f: "received_in (ts_log s) = concat frames @ part" "list_all framed frames"
    "dispatched_in (ts_log s) = map frame_of frames" "phase_ok (reads s) (ts_header s) part"
    by (auto simp: view_ok_def read_view_def)
  have e: "fst (split_frames (received_in (ts_log s))) = frames @ fst (split_frames part)"
    using f(1,2) by (simp add: split_frames_concat)
  have "fst (split_frames part) = []" if idle: "ts_strand s = []" "ts_reading s = Some r" for r
  proof (cases r)
    case RdHeader
    then show ?thesis using f(4) that by (simp add: reads_def split_frames_short k_header_bytes_def)
  next
    case (RdBody n)
    then have "length part = k_header_bytes" "0 < unat (ph_length (decode_header part))"
      using f(4) that by (auto simp: reads_def)
    then show ?thesis by (simp add: split_frames.simps [of part])
  qed
  then show ?thesis using e f(3) by auto
qed

section \<open>Which handlers ran\<close>

fun admitted_of :: "SessionLog \<Rightarrow> (u16 \<times> SessionStatus) list" where
  "admitted_of (LgAdmitted m st) = [(m, st)]"
| "admitted_of _ = []"

fun ran_of :: "SessionLog \<Rightarrow> u16 list" where
  "ran_of (LgRan m) = [m]"
| "ran_of _ = []"

abbreviation admitted_in :: "SessionLog list \<Rightarrow> (u16 \<times> SessionStatus) list" where
  "admitted_in ls \<equiv> concat (map admitted_of ls)"

abbreviation ran_in :: "SessionLog list \<Rightarrow> u16 list" where
  "ran_in ls \<equiv> concat (map ran_of ls)"

fun handlers_of :: "StrandTask \<Rightarrow> u16 list" where
  "handlers_of (StHandler h d m i) = [m]"
| "handlers_of _ = []"

fun job_of :: "SessionJob \<Rightarrow> u16 list" where
  "job_of (JbOwn h d m i) = [m]"
| "job_of JbOther = []"

text \<open>The handlers that were admitted and have not run: posted to the strand, queued as a job, or taken by a worker.\<close>

definition pending :: "TcpSession \<Rightarrow> u16 multiset" where
  "pending s = mset (concat (map handlers_of (ts_strand s))) + mset (concat (map job_of (ts_workers s))) +
     (case ts_jobs s of None \<Rightarrow> {#} | Some q \<Rightarrow> mset (concat (map job_of (jq_jobs q))))"

definition admissible :: "(u16, DispatchEntry) idx \<Rightarrow> u16 \<times> SessionStatus \<Rightarrow> bool" where
  "admissible table a = (case idx_find table (fst a) of
     None \<Rightarrow> False
   | Some e \<Rightarrow> transport_allows (op_transport (de_policy e)) TkTcp \<and>
               satisfies_required_state (op_required_state (de_policy e)) (snd a))"

definition admit_view :: "TcpSession \<Rightarrow> (u16, DispatchEntry) idx \<times> (u16 \<times> SessionStatus) list \<times> u16 multiset" where
  "admit_view s = (ts_table s, admitted_in (ts_log s), mset (ran_in (ts_log s)) + pending s)"

definition admit_ok :: "(u16, DispatchEntry) idx \<times> (u16 \<times> SessionStatus) list \<times> u16 multiset \<Rightarrow> bool" where
  "admit_ok v \<longleftrightarrow> (case v of (table, admitted, used) \<Rightarrow>
     list_all (admissible table) admitted \<and> used \<subseteq># mset (map fst admitted))"

lemmas admit_defs = admit_view_def pending_def

lemma admit_view_same [simp]:
  "admit_view (on_session f s) = admit_view s" "admit_view (on_dispatch g s) = admit_view s" "admit_view (on_telemetry h s) = admit_view s"
  "admit_view (s\<lparr>ts_metrics := m\<rparr>) = admit_view s" "admit_view (s\<lparr>ts_free_blocks := n\<rparr>) = admit_view s"
  "admit_view (s\<lparr>ts_tx_seq := q\<rparr>) = admit_view s" "admit_view (s\<lparr>ts_session_status := st\<rparr>) = admit_view s"
  "admit_view (s\<lparr>ts_header := ph\<rparr>) = admit_view s" "admit_view (s\<lparr>ts_reading := r\<rparr>) = admit_view s"
  "admit_view (s\<lparr>ts_stopped := b\<rparr>) = admit_view s" "admit_view (s\<lparr>ts_prepared := ps\<rparr>) = admit_view s"
  "admit_view (s\<lparr>ts_write_timer := b\<rparr>) = admit_view s" "admit_view (s\<lparr>ts_queued_bytes := k\<rparr>) = admit_view s"
  "admit_view (s\<lparr>ts_send_queue := sq\<rparr>) = admit_view s" "admit_view (s\<lparr>ts_writing := wr\<rparr>) = admit_view s"
  "admit_view (s\<lparr>ts_read_timer := b\<rparr>) = admit_view s" "admit_view (s\<lparr>ts_heartbeat_timer := b\<rparr>) = admit_view s"
  by (simp_all add: admit_defs on_session_def on_dispatch_def on_telemetry_def)

lemma admit_view_logged [simp]:
  "admit_view (logged (LgQueued p) s) = admit_view s" "admit_view (logged (LgWritten p) s) = admit_view s"
  "admit_view (logged (LgReceived d) s) = admit_view s" "admit_view (logged (LgDispatched m d) s) = admit_view s"
  "admit_view (logged LgClosed s) = admit_view s"
  by (simp_all add: admit_defs logged_def)

lemma admit_view_stop [simp]: "admit_view (close_session s) = admit_view s" "admit_view (session_stop s) = admit_view s"
  by (simp_all add: session_stop_def close_session_def Let_def) (simp_all add: admit_defs)

lemma admit_view_arm [simp]:
  "admit_view (arm_read_timeout s) = admit_view s" "admit_view (arm_write_timeout s) = admit_view s"
  "admit_view (arm_heartbeat s) = admit_view s" "admit_view (acquire_read_buf s) = admit_view s"
  by (simp_all add: arm_read_timeout_def arm_write_timeout_def arm_heartbeat_def split: option.splits)
    (simp add: acquire_read_buf_def Let_def admit_defs)

lemma admit_view_do_write [simp]: "admit_view (do_write s) = admit_view s"
  by (simp add: do_write_def split: list.splits)

lemma admit_view_send_packet [simp]: "admit_view (send_packet p s) = admit_view s"
  by (simp add: send_packet_def Let_def)

lemma admit_view_async_send [simp]: "admit_view (session_async_send x msg_id payload flags s) = admit_view s"
  by (auto simp: session_async_send_def session_make_packet_def Let_def split: if_splits)

lemma admit_view_send_error [simp]: "admit_view (send_error x code msg s) = admit_view s"
  by (simp add: send_error_def)

lemma admit_view_handler_ops [simp]: "admit_view (foldl (\<lambda>s op. handler_op x op s) s ops) = admit_view s"
proof (induction ops arbitrary: s)
  case (Cons op ops)
  have "admit_view (handler_op x op s) = admit_view s" by (cases op) simp_all
  with Cons show ?case by simp
qed simp

lemma admit_view_run_handler [simp]:
  "admit_view (run_handler_with_guard x handler payload msg_id place_index s) = admit_view (logged (LgRan msg_id) s)"
  by (auto simp: run_handler_with_guard_def Let_def split: prod.splits)

lemma admit_view_read_failed [simp]: "admit_view (read_failed s) = admit_view s" "admit_view (do_read_header s) = admit_view s"
  by (simp_all add: read_failed_def do_read_header_def Let_def)

lemma admit_step:
  "admit_ok (T, A, U) \<Longrightarrow> admissible T (m, st) \<Longrightarrow> admit_ok (T, A @ [(m, st)], add_mset m U)"
  by (simp add: admit_ok_def)

lemma admit_ok_less: "admit_ok (T, A, U) \<Longrightarrow> V \<subseteq># U \<Longrightarrow> admit_ok (T, A, V)"
  by (auto simp: admit_ok_def intro: subset_mset.order_trans)

lemma admit_view_ran:
  "admit_view (logged (LgRan m) s) = (ts_table s, admitted_in (ts_log s), add_mset m (mset (ran_in (ts_log s)) + pending s))"
  by (simp add: admit_defs logged_def)

lemma admit_ok_dispatch:
  assumes "admit_ok (admit_view s)"
  shows "admit_ok (admit_view (fst (dispatch x msg_id payload TkTcp s)))"
proof (cases "idx_find (ts_table s) msg_id")
  case (Some e)
  show ?thesis
  proof (cases "admissible (ts_table s) (msg_id, ts_session_status s)")
    case False
    then show ?thesis using assms Some by (auto simp: dispatch_def admissible_def)
  next
    case True
    then have pol: "transport_allows (op_transport (de_policy e)) TkTcp"
      "satisfies_required_state (op_required_state (de_policy e)) (ts_session_status s)"
      using Some by (auto simp: admissible_def)
    let ?i = "processing_place_index (op_processing_place (de_policy e))"
    let ?s1 = "on_dispatch (record_dispatch_processing_place_call ?i) s"
    have st: "ts_session_status ?s1 = ts_session_status s" "ts_jobs ?s1 = ts_jobs s" "ts_shared ?s1 = ts_shared s"
      by (simp_all add: on_dispatch_def)
    let ?s2 = "logged (LgAdmitted msg_id (ts_session_status s)) ?s1"
    have a: "admit_ok (ts_table s, admitted_in (ts_log s) @ [(msg_id, ts_session_status s)],
        add_mset msg_id (mset (ran_in (ts_log s)) + pending s))"
      using assms True by (intro admit_step) (simp_all add: admit_view_def)
    show ?thesis
    proof (cases "op_processing_place (de_policy e)")
      case PpInline
      have "admit_ok (admit_view (logged (LgRan msg_id) ?s2))"
        using a by (simp add: admit_defs logged_def on_dispatch_def)
      then show ?thesis using Some pol PpInline st by (simp add: dispatch_def Let_def)
    next
      case PpRoomStrand
      have "admit_ok (admit_view (post_serialized (StHandler (de_handler e) payload msg_id ?i) ?s2))"
        using a by (simp add: admit_defs logged_def on_dispatch_def post_serialized_def)
      then show ?thesis
        using Some pol PpRoomStrand st assms by (simp add: dispatch_def Let_def place_reject_def)
    next
      case PpWorker
      show ?thesis
      proof (cases "ts_jobs s")
        case None
        then show ?thesis using Some pol PpWorker st assms by (simp add: dispatch_def Let_def place_reject_def)
      next
        case (Some q)
        obtain q' c queued where j: "jq_try_push (JbOwn (de_handler e) payload msg_id ?i) q (pm_jobs (ts_metrics ?s1)) = (q', c, queued)"
          by (metis prod_cases3)
        let ?s3 = "?s1\<lparr>ts_jobs := Some q', ts_metrics := (ts_metrics ?s1)\<lparr>pm_jobs := c\<rparr>\<rparr>"
        have q': "jq_jobs q' = jq_jobs q @ (if queued then [JbOwn (de_handler e) payload msg_id ?i] else [])"
          using j by (auto simp: jq_try_push_def jq_add_def Let_def split: if_splits)
        have "admit_ok (admit_view (logged (LgAdmitted msg_id (ts_session_status s)) ?s3))" if queued
          using a q' that Some by (simp add: admit_defs logged_def on_dispatch_def)
        moreover have "admit_view ?s3 = admit_view s" if "\<not> queued"
          using q' that Some by (simp add: admit_defs on_dispatch_def)
        ultimately show ?thesis
          using \<open>idx_find (ts_table s) msg_id = Some e\<close> pol PpWorker st assms Some j
          by (auto simp: dispatch_def Let_def place_reject_def)
      qed
    qed
  qed
qed (use assms in \<open>simp add: dispatch_def\<close>)

lemma admit_ok_frame_complete:
  assumes "admit_ok (admit_view s)"
  shows "admit_ok (admit_view (frame_complete x payload s))"
proof -
  let ?s1 = "logged (LgDispatched (ph_msg_id (ts_header s)) payload)
    (on_session record_packet_ok (on_session (record_packet_payload (length payload)) s))"
  have "admit_ok (admit_view (fst (dispatch x (ph_msg_id (ts_header s)) payload TkTcp ?s1)))"
    by (rule admit_ok_dispatch) (use assms in simp)
  then show ?thesis by (auto simp: frame_complete_def Let_def split: prod.splits)
qed

lemma admit_ok_reads:
  assumes "admit_ok (admit_view s)"
  shows "admit_ok (admit_view (header_read x ok data s))" "admit_ok (admit_view (body_read x ok data s))"
proof -
  have "admit_ok (admit_view (do_read_body x n s))" if "admit_ok (admit_view s)" for n s
    using that by (simp add: do_read_body_def Let_def admit_ok_frame_complete)
  then show "admit_ok (admit_view (header_read x ok data s))" using assms by (simp add: header_read_def Let_def)
  show "admit_ok (admit_view (body_read x ok data s))" using assms by (simp add: body_read_def admit_ok_frame_complete)
qed

lemma admit_view_timeouts [simp]:
  "admit_view (read_timeout s) = admit_view s" "admit_view (write_timeout s) = admit_view s" "admit_view (heartbeat x s) = admit_view s"
  "admit_view (write_done ok p s) = admit_view s"
  by (auto simp: read_timeout_def write_timeout_def heartbeat_def write_done_def Let_def split: option.splits)

lemma admit_ok_run_task:
  assumes "admit_ok (admit_view s)" "ts_strand s = task # tasks"
  shows "admit_ok (admit_view (run_task x task (s\<lparr>ts_strand := tasks\<rparr>)))"
proof -
  let ?s = "s\<lparr>ts_strand := tasks\<rparr>"
  have v: "admit_view s = (ts_table s, admitted_in (ts_log s), mset (handlers_of task) + (mset (ran_in (ts_log s)) + pending ?s))"
    by (simp add: admit_defs assms(2) ac_simps)
  have pop: "admit_ok (admit_view ?s)"
    using assms(1) unfolding v by (rule admit_ok_less [THEN back_subst [of admit_ok]]) (simp_all add: admit_view_def)
  show ?thesis
  proof (cases task)
    case (StHandler h d m i)
    have "admit_ok (admit_view (logged (LgRan m) ?s))"
      using assms(1) unfolding v StHandler by (simp add: admit_view_ran)
    then show ?thesis using pop StHandler by simp
  qed (use pop in \<open>simp_all add: admit_ok_reads\<close>)
qed

lemma admit_ok_step:
  assumes "admit_ok (admit_view s)" "session_step e s = Some s'"
  shows "admit_ok (admit_view s')"
proof (cases e)
  case (SnRun x)
  then show ?thesis using assms admit_ok_run_task by (auto split: list.splits)
next
  case (SnSend x msg_id payload flags)
  then show ?thesis using assms by (auto simp: session_make_packet_def Let_def split: if_splits)
next
  case (SnRead ok data)
  have "handlers_of (read_task r ok data) = []" for r by (cases r) simp_all
  then show ?thesis using SnRead assms by (auto simp: admit_defs logged_def split: option.splits if_splits)
next
  case SnOtherJob
  then show ?thesis
    using assms by (auto simp: admit_defs jq_try_push_def jq_add_def Let_def split: option.splits prod.splits if_splits)
next
  case SnWorkerTakes
  then obtain q job jobs c where q: "ts_jobs s = Some q" "jq_jobs q = job # jobs"
    and s': "s' = s\<lparr>ts_jobs := Some (q\<lparr>jq_jobs := jobs\<rparr>), ts_metrics := (ts_metrics s)\<lparr>pm_jobs := c\<rparr>, ts_workers := ts_workers s @ [job]\<rparr>"
    using assms(2) by (auto simp: jq_pop_def split: option.splits list.splits if_splits)
  have "admit_view s' = admit_view s" unfolding s' by (simp add: admit_defs q)
  then show ?thesis using assms(1) by simp
next
  case (SnWorkerPosts k)
  then have k: "k < length (ts_workers s)" using assms(2) by (auto split: if_splits)
  let ?s = "s\<lparr>ts_workers := take k (ts_workers s) @ drop (Suc k) (ts_workers s)\<rparr>"
  have "mset (concat (map job_of (ts_workers s))) = mset (job_of (ts_workers s ! k)) +
      mset (concat (map job_of (take k (ts_workers s) @ drop (Suc k) (ts_workers s))))"
    by (subst id_take_nth_drop [OF k]) simp
  then have "admit_view s' = admit_view s"
    using assms(2) SnWorkerPosts k
    by (cases "ts_workers s ! k") (auto simp: admit_defs post_serialized_def Let_def)
  then show ?thesis using assms(1) by simp
qed (use assms in \<open>auto simp: admit_defs split: if_splits option.splits\<close>)

lemma admit_ok_run: "admit_ok (admit_view s) \<Longrightarrow> session_run es s = Some s' \<Longrightarrow> admit_ok (admit_view s')"
  by (induction es arbitrary: s) (auto split: option.splits dest: admit_ok_step)

text \<open>C8.
  No handler runs without having been let in. In every reachable state every message that was let in was so when
  its opcode was registered, its policy allowed TCP and the session had the status the policy asks for at that
  moment. The handlers that ran, inline, on the strand or by way of the workers, together with those that are
  still to run, were each let in for themselves: no message is handled more often than it was let in. The job
  queue must be empty at first.\<close>

theorem handlers_run_only_when_admitted:
  assumes "session_run es (new_session x opts block_size free_blocks table jobs) = Some s"
    and "case jobs of None \<Rightarrow> True | Some q \<Rightarrow> jq_jobs q = []"
  shows "list_all (admissible (ts_table s)) (admitted_in (ts_log s)) \<and>
    mset (ran_in (ts_log s)) + pending s \<subseteq># mset (map fst (admitted_in (ts_log s)))"
proof -
  let ?s = "new_tcp_session opts block_size free_blocks table True jobs (Some 0) new_process_metrics"
  obtain s1 r where m: "session_make_packet x 1 0 (hello_payload (sv_now x (ts_tx_seq ?s)) ?s) ?s = (s1, r)" by fastforce
  have "admit_view s1 = admit_view ?s" using m by (auto simp: session_make_packet_def Let_def split: if_splits)
  then have "admit_view (case r of None \<Rightarrow> s1 | Some p \<Rightarrow> post_serialized (StSend p) s1) = admit_view ?s"
    by (cases r) (simp_all add: post_serialized_def admit_defs)
  then have "admit_view (new_session x opts block_size free_blocks table jobs) = (table, [], {#})"
    using assms(2)
    by (simp add: new_session_def session_start_def m) (auto simp: new_tcp_session_def on_session_def admit_defs split: option.splits)
  then have "admit_ok (admit_view (new_session x opts block_size free_blocks table jobs))" by (simp add: admit_ok_def)
  from admit_ok_run [OF this assms(1)] show ?thesis by (simp add: admit_ok_def admit_view_def)
qed

section \<open>A run\<close>

text \<open>A session with one inline handler: it sends its greeting, reads a frame of two bytes in two reads and
  answers it.\<close>

definition sample_session_env :: SessionEnv where
  "sample_session_env =
     \<lparr>sv_handler = (\<lambda>h st d. ([HoSend 0x0300 d 0], HeReturns)), sv_now = (\<lambda>_. 7), sv_elapsed = 1\<rparr>"

definition sample_session :: TcpSession where
  "sample_session = new_session sample_session_env
     (Some \<lparr>so_recv_max_payload = 100, so_send_queue_max = 200, so_heartbeat_interval_ms = 0, so_read_timeout_ms = 5,
        so_write_timeout_ms = 5\<rparr>) 114 4
     (register_handler 0x0200 1 default_opcode_policy []) None"

definition sample_session_events :: "SessionEvent list" where
  "sample_session_events =
     [SnRun sample_session_env, SnRead True [0, 2, 2, 0, 0, 0, 0, 0, 0, 1, 0, 0, 0, 0], SnWritten True,
      SnRun sample_session_env, SnRun sample_session_env, SnRead True [65, 66], SnRun sample_session_env]"

lemma sample_session_runs:
  "map_option (\<lambda>s. (dispatched_in (ts_log s), ran_in (ts_log s), map length (ts_send_queue s), ts_strand s, ts_reading s))
     (session_run sample_session_events sample_session) =
   Some ([(0x0200, [65, 66])], [0x0200], [16], [], Some RdHeader)"
  by code_simp

lemma sample_session_returns: "\<exists>s. session_run sample_session_events sample_session = Some s"
  using sample_session_runs by (cases "session_run sample_session_events sample_session") simp_all

theorem session_writes_whole_packets_witness:
  "\<exists>s. session_run sample_session_events sample_session = Some s \<and>
     queued_in (ts_log s) = written_in (ts_log s) @ ts_send_queue s \<and>
     split_frames (concat (written_in (ts_log s))) = (written_in (ts_log s), []) \<and>
     within_limit (ts_options s) (ts_queued_bytes s)"
proof -
  obtain s where s: "session_run sample_session_events sample_session = Some s" using sample_session_returns by blast
  have "(114::nat) \<le> k_header_bytes + 65535" by (simp add: k_header_bytes_def)
  from session_writes_whole_packets [OF this s [unfolded sample_session_def]] s show ?thesis by blast
qed

theorem session_dispatches_exact_frames_witness:
  "\<exists>s. session_run sample_session_events sample_session = Some s \<and>
     map frame_of (fst (split_frames (received_in (ts_log s)))) = [(0x0200, [65, 66])]"
proof -
  obtain s where s: "session_run sample_session_events sample_session = Some s" using sample_session_returns by blast
  then have "dispatched_in (ts_log s) = [(0x0200, [65, 66])]" "ts_strand s = []" "ts_reading s = Some RdHeader"
    using sample_session_runs by simp_all
  with session_dispatches_exact_frames [OF s [unfolded sample_session_def]] s show ?thesis by auto
qed

theorem handlers_run_only_when_admitted_witness:
  "\<exists>s. session_run sample_session_events sample_session = Some s \<and> ran_in (ts_log s) = [0x0200] \<and>
     list_all (admissible (ts_table s)) (admitted_in (ts_log s)) \<and>
     mset [0x0200] \<subseteq># mset (map fst (admitted_in (ts_log s)))"
proof -
  obtain s where s: "session_run sample_session_events sample_session = Some s" using sample_session_returns by blast
  then have r: "ran_in (ts_log s) = [0x0200]" using sample_session_runs by simp
  have "case (None :: SessionJob JobQueue option) of None \<Rightarrow> True | Some q \<Rightarrow> jq_jobs q = []" by simp
  from handlers_run_only_when_admitted [OF s [unfolded sample_session_def] this] r s show ?thesis
    using subset_mset.order_trans [OF mset_subset_eq_add_left] by metis
qed

text \<open>A body that was read before the session was stopped is handled after it was closed: the completion
  handlers of the reads do not look at \<open>stopped_\<close>.\<close>

lemma closed_session_still_dispatches:
  "map_option (\<lambda>s. (ts_stopped s, ts_open s, drop 3 (ts_log s)))
     (session_run
        [SnRun sample_session_env, SnRead True [0, 2, 2, 0, 0, 0, 0, 0, 0, 1, 0, 0, 0, 0], SnRun sample_session_env,
         SnStop, SnRead True [65, 66], SnRun sample_session_env, SnRun sample_session_env] sample_session) =
   Some (True, False, [LgClosed, LgDispatched 0x0200 [65, 66], LgAdmitted 0x0200 StAny, LgRan 0x0200])"
  by code_simp

end
