(* ===== verification/Spec2Isabelle.thy ===== *)
theory Spec2Isabelle
  imports Rudp_Protocol Direct_Bind Direct_Transport Pool_Providers World_Replication Resilience Opcode_Policy
  Gateway_Udp_Safety Memory_Pool Job_Queue Task_Scheduler Tcp_Session_Safety
begin

text \<open>
  A verification of Dynaxis, a game and chat server in C++20. Paths below are relative to \<open>src/\<close>;
  \<open>core/net\<close> and the like stand for both \<open>core/include/server/core/net\<close> and \<open>core/src/net\<close>.

  \<^bold>\<open>The program.\<close> A gateway accepts TCP and UDP clients and relays their frames to the game servers. A client
  gets a bind ticket over TCP and binds its UDP endpoint with it; after that its datagrams, plain or carried by
  the reliable UDP protocol RUDP, are attributed to its session. A server reads frames from a TCP session and
  dispatches them to handlers, inline, on the strand of the session or by way of a job queue with worker threads.
  An authoritative world runtime steps the simulation and replicates the actors to the viewers that see them. The
  control plane compares declared with observed pools of worlds, plans actuations, follows them until they are
  realized, and drains, transfers and migrates worlds.

  \<^bold>\<open>Conventions.\<close> A class is a record, an enumeration a datatype, an operation a function from the old state to
  the new one and the result. Unsigned integers of a fixed width are words and wrap as in C++; sizes of containers
  are natural numbers; durations are integers, brought back to 64 bits where the code could overflow. A hash map
  is an index (\<open>Keyed_Index\<close>) whose iteration order is an argument. A mutex makes the section it guards one
  step, and a run is a list of such steps in any order. Code that is not part of the repository is an argument:
  HMAC-SHA256, the generated opcode tables, clocks, random draws, registered handlers, task bodies and validators.
  Where a callback can throw and nothing catches, the exception is a result of its own.

  \<^bold>\<open>Preludes.\<close> \<open>Dynaxis_Prelude\<close> has the integer types, lemmas on bits and bytes, and the locale \<open>tally_loop\<close> of
  the loops that append a report line and raise a counter. \<open>Text_Prelude\<close> has \<open>std::from_chars\<close>, trimming and
  splitting, and the locale \<open>named_enum\<close> of enumerations with names. \<open>Keyed_Index\<close> has the hash map with its locale
  \<open>keyed_index\<close>, \<open>Key_Value_Text\<close> the \<open>key=value\<close> documents with the locale \<open>field_document\<close>.

  \<^bold>\<open>Wire formats.\<close>
  \<^item> \<open>Packet_Codec\<close>: \<open>core/protocol/packet.hpp\<close>, frame headers, big-endian integers, UTF-8 validation,
    length-prefixed strings. The validator accepts exactly the RFC 3629 encodings; strings read back as written.
    The locale \<open>byte_codec\<close> is the contract of a writer and its reader.
  \<^item> \<open>Frame_Stream\<close>: the specification of a byte stream as frames, used for TCP.
  \<^item> \<open>Rudp_Packet\<close>: \<open>core/net/rudp/rudp_packet.hpp\<close>; \<open>Direct_Bind\<close>: \<open>core/realtime/direct_bind.hpp\<close>. Encoding and
    decoding are inverse to each other.

  \<^bold>\<open>RUDP.\<close>
  \<^item> \<open>Ack_Window\<close>: \<open>core/net/rudp/ack_window.cpp\<close>. The 64-bit window refines the set of accepted packet numbers
    (locale \<open>receive_window\<close>); no number is accepted twice.
  \<^item> \<open>Retransmission_Queue\<close>: \<open>core/net/rudp/retransmission_queue.cpp\<close> (locale \<open>reliable_queue\<close>). The byte counter is
    exact and an acknowledgement removes what it covers.
  \<^item> \<open>Rudp_Engine\<close>: \<open>core/net/rudp/rudp_engine.cpp\<close> and \<open>rudp_peer_state.hpp\<close>, every operation. Over every run the
    packets in flight are bounded and nothing is delivered twice. \<open>Runtime_Metrics\<close> has the counters it raises.
  \<^item> \<open>Rudp_Protocol\<close>: what an acknowledgement means, that a payload arrives and is released, what \<open>poll\<close> resends, and
    that without a handshake nothing is delivered and nothing but headers and packets queued earlier is sent.

  \<^bold>\<open>Gateway.\<close>
  \<^item> \<open>Direct_Transport\<close>: \<open>core/realtime/transport_policy.hpp\<close>, \<open>direct_delivery.hpp\<close>, \<open>transport_quality.hpp\<close>. The
    allowlist is what the grammar of opcode literals says; the rollout is monotone; losses account for the gaps.
  \<^item> \<open>Resilience\<close>: \<open>core/net/resilience_controls.hpp\<close>, \<open>gateway/udp_bind_abuse_guard.hpp\<close> and
    \<open>core/storage_execution/retry_backoff.hpp\<close>. Retries per window are bounded and delays never wrap.
  \<^item> \<open>Opcode_Policy\<close>: \<open>core/protocol/opcode_policy.hpp\<close> and \<open>protocol_errors.hpp\<close>.
  \<^item> \<open>Gateway_Udp\<close> and \<open>Gateway_Udp_Safety\<close>: \<open>gateway/src/gateway_udp_ingress.cpp\<close>, tickets, binds, the receive
    handler and direct egress. The log of every run is accepted by a monitor of authentic binds; sequence numbers
    are ordered by it only from one granted bind to the next and only for plain unreliable sequenced frames.

  \<^bold>\<open>Server.\<close>
  \<^item> \<open>Process_Metrics\<close>: the other counters of \<open>core/src/runtime_metrics.cpp\<close>.
  \<^item> \<open>Memory_Pool\<close>: \<open>core/memory/memory_pool.cpp\<close>. Buffers in use never overlap.
  \<^item> \<open>Job_Queue\<close>: \<open>core/concurrent/job_queue.cpp\<close> with its threads; notifications are steps of their own and waiting
    threads may wake up spuriously. First in, first out; no wake-up is lost in an unbounded or stopping queue. A
    bounded queue can lose one, as a run shows.
  \<^item> \<open>Task_Scheduler\<close>: \<open>core/concurrent/task_scheduler.cpp\<close>. Unless a callback throws, a live task of a scheduler
    that is not shut down has exactly one current entry; a cancelled task does not run again.
  \<^item> \<open>Tcp_Session\<close> and \<open>Tcp_Session_Safety\<close>: \<open>core/net/session.cpp\<close> and \<open>core/net/dispatcher.cpp\<close> as handlers of a
    strand. Whole packets are written, exact frames are dispatched, handlers run only when admitted.
  \<^item> \<open>World_Runtime\<close> and \<open>World_Replication\<close>: \<open>core/realtime/runtime.cpp\<close>. A client that applies the updates holds
    the poses of exactly the actors shown to it; a rewind is exact; the tables are consistent; the fixed-step driver
    loses no time below its cap, provided the cap fits 64 bits.

  \<^bold>\<open>Control plane.\<close>
  \<^item> \<open>Topology\<close> and \<open>Topology_Actuation\<close>: \<open>core/worlds/topology.hpp\<close>, reconciliation, plan, request, execution,
    realization and lease reports. The reports partition and count what they report on, and what they call realized
    or leased is current.
  \<^item> \<open>World_Lifecycle\<close>: \<open>core/state/world_lifecycle_policy.hpp\<close> and \<open>core/worlds/migration.hpp\<close>,
    \<open>world_transfer.hpp\<close>, \<open>world_drain.hpp\<close>. Stored documents are read back; clearing a drain policy is characterised.
  \<^item> \<open>Pool_Providers\<close>: \<open>core/worlds/kubernetes.hpp\<close> and \<open>aws.hpp\<close>. Retirement waits for the drain.

  \<^bold>\<open>Termination and bounds.\<close> No definition uses fuel: every loop of the modelled code is a total function, by
  structure or by a measure (the rest of the text, the steps left, the bytes left). Counters that the theorems
  depend on keep their width. Task ids and generations of the scheduler are the exception: they are natural numbers,
  so a wrap-around after \<open>2 ^ 64\<close> rescheduled runs is outside the model.

  \<^bold>\<open>Not modelled.\<close> Socket, process, file and thread start-up code; the Lua, OpenSSL, LZ4, Redis, Consul and
  Postgres clients; metrics over HTTP; logging and tracing; plugins; the graphical client and the operator tools,
  since they are mostly calls into libraries outside the repository. The token bucket of \<open>resilience_controls.hpp\<close>
  counts in floating point. The routing tables of the gateway and the chat service are outside the scope.
\<close>

end
